(* ===== verification/Go_Prelude.thy ===== *)
theory Go_Prelude
  imports Complex_Main "HOL-Library.DAList" "HOL-Library.Multiset" "HOL-Library.Monad_Syntax"
    "HOL-Library.Word"
begin

text \<open>
  What every component shares: Go maps, the order in which a \<^verbatim>\<open>range\<close> loop visits a map,
  error values, and the lemmas about them.

  A Go map that an API object carries may be \<^verbatim>\<open>nil\<close>: reading it yields nothing, deleting from
  it is a no-op and assigning to it panics. It is a \<open>'v gomap\<close>, with \<open>None\<close> for \<^verbatim>\<open>nil\<close>.
  A map that the program itself creates with \<^verbatim>\<open>make\<close> and never replaces is a plain association
  list with unique keys (\<^typ>\<open>(string, 'v) alist\<close>). A function that may panic returns an
  \<open>option\<close>, with \<open>None\<close> for the panic.
\<close>

named_theorems go_map "what the operations on Go maps return"

section \<open>Go maps\<close>

type_synonym 'v gomap = "(string, 'v) alist option"

definition nil_map :: "'v gomap" where
  "nil_map = None"

definition make_map :: "'v gomap" where
  "make_map = Some DAList.empty"

definition is_nil :: "'v gomap \<Rightarrow> bool" where
  "is_nil m = (case m of None \<Rightarrow> True | Some _ \<Rightarrow> False)"

definition map_get :: "'v gomap \<Rightarrow> string \<Rightarrow> 'v option" where
  "map_get m k = (case m of None \<Rightarrow> None | Some al \<Rightarrow> DAList.lookup al k)"

text \<open>\<^verbatim>\<open>m[k] = v\<close> panics on a nil map.\<close>

definition map_assign :: "string \<Rightarrow> 'v \<Rightarrow> 'v gomap \<Rightarrow> 'v gomap option" where
  "map_assign k v m = (case m of None \<Rightarrow> None | Some al \<Rightarrow> Some (Some (DAList.update k v al)))"

definition map_delete :: "string \<Rightarrow> 'v gomap \<Rightarrow> 'v gomap" where
  "map_delete k m = map_option (DAList.delete k) m"

definition alist_len :: "('k, 'v) alist \<Rightarrow> nat" where
  "alist_len al = length (DAList.impl_of al)"

definition map_len :: "'v gomap \<Rightarrow> nat" where
  "map_len m = (case m of None \<Rightarrow> 0 | Some al \<Rightarrow> alist_len al)"

definition alist_keys :: "('k, 'v) alist \<Rightarrow> 'k list" where
  "alist_keys al = map fst (DAList.impl_of al)"

text \<open>
  A \<^verbatim>\<open>range\<close> loop over a map visits every entry once, in an order the language leaves open.
  The order is an argument \<open>ord\<close> of every definition with such a loop: it permutes the keys.
\<close>

definition go_order :: "(string list \<Rightarrow> string list) \<Rightarrow> bool" where
  "go_order ord \<longleftrightarrow> (\<forall>ks. mset (ord ks) = mset ks)"

definition alist_range :: "(string list \<Rightarrow> string list) \<Rightarrow> (string, 'v) alist \<Rightarrow> (string \<times> 'v) list" where
  "alist_range ord al =
     List.map_filter (\<lambda>k. map_option (Pair k) (DAList.lookup al k)) (ord (alist_keys al))"

definition map_range :: "(string list \<Rightarrow> string list) \<Rightarrow> 'v gomap \<Rightarrow> (string \<times> 'v) list" where
  "map_range ord m = (case m of None \<Rightarrow> [] | Some al \<Rightarrow> alist_range ord al)"

subsection \<open>Lemmas on Go maps\<close>

lemma map_get_nil [simp, go_map]: "map_get nil_map k = None" "map_get None k = None"
  by (simp_all add: map_get_def nil_map_def)

lemma map_get_make [simp, go_map]: "map_get make_map k = None"
  by (simp add: map_get_def make_map_def)

lemma map_get_Some [simp, go_map]: "map_get (Some al) k = DAList.lookup al k"
  by (simp add: map_get_def)

lemma is_nil_simps [simp]: "is_nil None" "\<not> is_nil (Some al)" "is_nil nil_map" "\<not> is_nil make_map"
  by (simp_all add: is_nil_def nil_map_def make_map_def)

lemma map_assign_Some_iff:
  "map_assign k v m = Some m' \<longleftrightarrow> (\<exists>al. m = Some al \<and> m' = Some (DAList.update k v al))"
  by (auto simp: map_assign_def split: option.splits)

lemma map_assign_total: "\<not> is_nil m \<Longrightarrow> \<exists>m'. map_assign k v m = Some m'"
  by (auto simp: map_assign_def is_nil_def split: option.splits)

lemma map_assign_nil [simp]: "map_assign k v None = None" "map_assign k v nil_map = None"
  by (simp_all add: map_assign_def nil_map_def)

lemma map_assign_not_nil [simp]: "map_assign k v (Some al) = Some (Some (DAList.update k v al))"
  by (simp add: map_assign_def)

lemma map_get_assign [go_map]:
  "map_assign k v m = Some m' \<Longrightarrow> map_get m' k' = (if k = k' then Some v else map_get m k')"
  by (auto simp: map_assign_Some_iff lookup_update)

lemma map_get_delete [simp, go_map]:
  "map_get (map_delete k m) k' = (if k = k' then None else map_get m k')"
  by (auto simp: map_get_def map_delete_def split: option.splits)

lemma map_delete_nil [simp]: "map_delete k None = None"
  by (simp add: map_delete_def)

lemma is_nil_delete [simp]: "is_nil (map_delete k m) = is_nil m"
  by (auto simp: is_nil_def map_delete_def split: option.splits)

lemma map_get_SomeD: "map_get m k = Some v \<Longrightarrow> \<exists>al. m = Some al"
  by (auto simp: map_get_def split: option.splits)

lemma lookup_eq_map_of: "DAList.lookup al k = map_of (DAList.impl_of al) k"
  by (simp add: DAList.lookup.rep_eq)

lemma alist_keys_distinct [simp]: "distinct (alist_keys al)"
  by (simp add: alist_keys_def)

lemma in_alist_keys_iff: "k \<in> set (alist_keys al) \<longleftrightarrow> (\<exists>v. DAList.lookup al k = Some v)"
  by (auto simp: alist_keys_def lookup_eq_map_of dest: map_of_SomeD)
     (metis domD domI dom_map_of_conv_image_fst image_eqI fst_conv)

lemma lookup_impl_of_iff: "DAList.lookup al k = Some v \<longleftrightarrow> (k, v) \<in> set (DAList.impl_of al)"
  by (simp add: lookup_eq_map_of)

subsection \<open>Range loops\<close>

lemma go_order_id: "go_order (\<lambda>ks. ks)"
  by (simp add: go_order_def)

lemma go_order_rev: "go_order rev"
  by (simp add: go_order_def)

lemma go_order_set: "go_order ord \<Longrightarrow> set (ord ks) = set ks"
  by (metis go_order_def set_mset_mset)

lemma go_order_distinct: "go_order ord \<Longrightarrow> distinct ks \<Longrightarrow> distinct (ord ks)"
  by (metis go_order_def mset_eq_imp_distinct_iff)

lemma map_filter_keys:
  assumes "\<And>k. k \<in> set ks \<Longrightarrow> DAList.lookup al k \<noteq> None"
  shows "List.map_filter (\<lambda>k. map_option (Pair k) (DAList.lookup al k)) ks =
         map (\<lambda>k. (k, the (DAList.lookup al k))) ks"
  using assms by (induction ks) (auto simp: List.map_filter_simps split: option.splits)

lemma alist_range_eq_map:
  assumes "go_order ord"
  shows "alist_range ord al = map (\<lambda>k. (k, the (DAList.lookup al k))) (ord (alist_keys al))"
  unfolding alist_range_def
  by (rule map_filter_keys) (auto simp: go_order_set [OF assms] in_alist_keys_iff)

lemma impl_of_as_map:
  "DAList.impl_of al = map (\<lambda>k. (k, the (DAList.lookup al k))) (alist_keys al)"
proof -
  have "map (\<lambda>kv. (fst kv, the (DAList.lookup al (fst kv)))) (DAList.impl_of al) = DAList.impl_of al"
    by (rule map_idI) (auto simp: lookup_impl_of_iff [symmetric])
  then show ?thesis by (simp add: alist_keys_def comp_def)
qed

text \<open>A range loop visits exactly the entries of the map, each once.\<close>

lemma mset_alist_range:
  assumes "go_order ord"
  shows "mset (alist_range ord al) = mset (DAList.impl_of al)"
proof -
  have "mset (alist_range ord al) =
        image_mset (\<lambda>k. (k, the (DAList.lookup al k))) (mset (alist_keys al))"
    using assms by (simp add: alist_range_eq_map go_order_def)
  also have "\<dots> = mset (map (\<lambda>k. (k, the (DAList.lookup al k))) (alist_keys al))"
    by simp
  also have "\<dots> = mset (DAList.impl_of al)"
    by (simp only: impl_of_as_map [symmetric])
  finally show ?thesis .
qed

lemma alist_range_mem:
  assumes "go_order ord"
  shows "(k, v) \<in> set (alist_range ord al) \<longleftrightarrow> DAList.lookup al k = Some v"
  using mset_alist_range [OF assms, of al] by (metis lookup_impl_of_iff set_mset_mset)

lemma alist_range_snd_mem:
  assumes "go_order ord"
  shows "v \<in> snd ` set (alist_range ord al) \<longleftrightarrow> (\<exists>k. DAList.lookup al k = Some v)"
  using alist_range_mem [OF assms] by force

lemma distinct_fst_alist_range:
  assumes "go_order ord"
  shows "distinct (map fst (alist_range ord al))"
  using assms by (simp add: alist_range_eq_map comp_def go_order_distinct)

lemma map_range_mem:
  assumes "go_order ord"
  shows "(k, v) \<in> set (map_range ord m) \<longleftrightarrow> map_get m k = Some v"
  by (cases m) (simp_all add: map_range_def alist_range_mem [OF assms])

lemma distinct_fst_map_range: "go_order ord \<Longrightarrow> distinct (map fst (map_range ord m))"
  by (cases m) (simp_all add: map_range_def distinct_fst_alist_range)

lemma map_range_nil [simp]: "map_range ord None = []"
  by (simp add: map_range_def)

lemma map_of_map_range:
  assumes "go_order ord"
  shows "map_of (map_range ord m) k = map_get m k"
proof (cases "map_get m k")
  case None
  then have "k \<notin> fst ` set (map_range ord m)"
    using map_range_mem [OF assms] by force
  with None show ?thesis by (simp add: map_of_eq_None_iff)
next
  case (Some v)
  with assms show ?thesis by (simp add: map_range_mem distinct_fst_map_range)
qed

text \<open>A sum over a range loop does not depend on the order the runtime chose.\<close>

lemma sum_list_alist_range:
  fixes f :: "string \<times> 'v \<Rightarrow> 'a :: comm_monoid_add"
  assumes "go_order ord"
  shows "sum_list (map f (alist_range ord al)) = sum_list (map f (DAList.impl_of al))"
  using mset_alist_range [OF assms, of al]
  by (metis mset_map sum_mset_sum_list)

subsection \<open>Searching a list\<close>

lemma find_snoc:
  "List.find P (xs @ [x]) =
     (case List.find P xs of Some y \<Rightarrow> Some y | None \<Rightarrow> if P x then Some x else None)"
  by (induction xs) simp_all

lemma find_SomeD: "List.find P xs = Some x \<Longrightarrow> P x \<and> x \<in> set xs"
  by (auto simp: find_Some_iff)

section \<open>Errors\<close>

text \<open>
  An error value. \<open>NotFound\<close> and \<open>Conflict\<close> are the two API errors the code tells apart
  (\<^verbatim>\<open>apierrors.IsNotFound\<close>, \<^verbatim>\<open>apierrors.IsConflict\<close>); \<open>Errorf m es\<close> is an error that the code
  builds with the message \<open>m\<close> from the errors \<open>es\<close> (\<^verbatim>\<open>fmt.Errorf\<close>, \<^verbatim>\<open>errors.Join\<close>,
  \<^verbatim>\<open>errors.New\<close>).
\<close>

datatype go_error = NotFound | Conflict | OtherError string | Errorf string "go_error list"

definition IsNotFound :: "go_error option \<Rightarrow> bool" where
  "IsNotFound e \<longleftrightarrow> e = Some NotFound"

definition IsConflict :: "go_error option \<Rightarrow> bool" where
  "IsConflict e \<longleftrightarrow> e = Some Conflict"

text \<open>\<^verbatim>\<open>errors.Join\<close> of no error is nil.\<close>

definition errors_Join :: "go_error list \<Rightarrow> go_error option" where
  "errors_Join es = (if es = [] then None else Some (Errorf ''join'' es))"

text \<open>\<^verbatim>\<open>client.IgnoreNotFound\<close>.\<close>

definition IgnoreNotFound :: "go_error option \<Rightarrow> go_error option" where
  "IgnoreNotFound e = (if IsNotFound e then None else e)"

lemma errors_Join_None [simp]: "errors_Join es = None \<longleftrightarrow> es = []"
  by (simp add: errors_Join_def)

section \<open>Machine integers\<close>

type_synonym int64 = "64 word"
type_synonym int32 = "32 word"

text \<open>The conversion \<^verbatim>\<open>int32(n)\<close> keeps the low 32 bits.\<close>

definition to_int32 :: "int \<Rightarrow> int32" where
  "to_int32 n = word_of_int n"

lemma sint_to_int32: "- (2 ^ 31) \<le> n \<Longrightarrow> n < 2 ^ 31 \<Longrightarrow> sint (to_int32 n) = n"
  by (simp add: to_int32_def sint_sbintrunc' signed_take_bit_int_eq_self)

lemma sint64_add:
  fixes a b :: int64
  assumes "- (2 ^ 63) \<le> sint a + sint b" "sint a + sint b < 2 ^ 63"
  shows "sint (a + b) = sint a + sint b"
  using assms by (simp add: sint_word_add signed_take_bit_int_eq_self)

lemma sint64_mult:
  fixes a b :: int64
  assumes "- (2 ^ 63) \<le> sint a * sint b" "sint a * sint b < 2 ^ 63"
  shows "sint (a * b) = sint a * sint b"
  using assms by (simp add: sint_word_mult signed_take_bit_int_eq_self)

end
