(* ===== verification/Strconv.thy ===== *)
theory Strconv
  imports Go_Prelude
begin

text \<open>
  The part of Go's standard package \<^verbatim>\<open>strconv\<close> that the program calls: decimal numerals,
  \<^verbatim>\<open>Atoi\<close> on a 64-bit platform and \<^verbatim>\<open>ParseBool\<close>.
\<close>

section \<open>Decimal numerals\<close>

definition digit_char :: "nat \<Rightarrow> char" where
  "digit_char d = char_of (48 + d)"

definition is_digit :: "char \<Rightarrow> bool" where
  "is_digit c \<longleftrightarrow> 48 \<le> (of_char c :: nat) \<and> (of_char c :: nat) \<le> 57"

definition digit_val :: "char \<Rightarrow> nat" where
  "digit_val c = of_char c - 48"

fun show_nat :: "nat \<Rightarrow> string" where
  "show_nat n = (if n < 10 then [digit_char n] else show_nat (n div 10) @ [digit_char (n mod 10)])"

declare show_nat.simps [simp del]

definition read_nat :: "string \<Rightarrow> nat" where
  "read_nat s = foldl (\<lambda>acc c. 10 * acc + digit_val c) 0 s"

definition show_int :: "int \<Rightarrow> string" where
  "show_int n = (if n < 0 then CHR ''-'' # show_nat (nat (- n)) else show_nat (nat n))"

definition all_digits :: "string \<Rightarrow> bool" where
  "all_digits s \<longleftrightarrow> s \<noteq> [] \<and> list_all is_digit s"

text \<open>A signed decimal numeral: an optional sign and at least one digit.\<close>

definition read_int :: "string \<Rightarrow> int option" where
  "read_int s = (case s of
       [] \<Rightarrow> None
     | c # ds \<Rightarrow>
         (if c = CHR ''-'' then (if all_digits ds then Some (- int (read_nat ds)) else None)
          else if c = CHR ''+'' then (if all_digits ds then Some (int (read_nat ds)) else None)
          else if all_digits s then Some (int (read_nat s)) else None))"

lemma of_char_digit_char: "d < 10 \<Longrightarrow> of_char (digit_char d) = (48 + d :: nat)"
  by (simp add: digit_char_def of_char_of)

lemma is_digit_digit_char: "d < 10 \<Longrightarrow> is_digit (digit_char d)"
  by (simp add: is_digit_def of_char_digit_char)

lemma digit_val_digit_char [simp]: "d < 10 \<Longrightarrow> digit_val (digit_char d) = d"
  by (simp add: digit_val_def of_char_digit_char)

lemma digit_char_sign: "d < 10 \<Longrightarrow> digit_char d \<noteq> CHR ''-'' \<and> digit_char d \<noteq> CHR ''+''"
proof -
  assume "d < 10"
  then have "of_char (digit_char d) \<ge> (48 :: nat)" by (simp add: of_char_digit_char)
  then show ?thesis by auto
qed

lemma show_nat_digits: "list_all is_digit (show_nat n) \<and> show_nat n \<noteq> []"
proof (induction n rule: show_nat.induct)
  case (1 n)
  then show ?case by (cases "n < 10") (simp_all add: show_nat.simps [of n] is_digit_digit_char)
qed

lemma read_nat_snoc: "read_nat (s @ [c]) = 10 * read_nat s + digit_val c"
  by (simp add: read_nat_def)

lemma read_show_nat: "read_nat (show_nat n) = n"
proof (induction n rule: show_nat.induct)
  case (1 n)
  show ?case
  proof (cases "n < 10")
    case True
    then show ?thesis by (subst show_nat.simps) (simp add: read_nat_def)
  next
    case False
    with 1 show ?thesis by (subst show_nat.simps) (simp add: read_nat_snoc)
  qed
qed

lemma show_nat_head: "show_nat n = c # s \<Longrightarrow> c \<noteq> CHR ''-'' \<and> c \<noteq> CHR ''+''"
proof -
  assume "show_nat n = c # s"
  with show_nat_digits [of n] have "is_digit c" by simp
  then show ?thesis by (auto simp: is_digit_def)
qed

theorem read_show_int: "read_int (show_int n) = Some n"
proof (cases "n < 0")
  case True
  then show ?thesis
    by (simp add: show_int_def read_int_def all_digits_def show_nat_digits read_show_nat)
next
  case False
  obtain c s where cs: "show_nat (nat n) = c # s"
    using show_nat_digits [of "nat n"] by (cases "show_nat (nat n)") auto
  with show_nat_head [OF cs] show_nat_digits [of "nat n"] read_show_nat [of "nat n"] False
  show ?thesis by (simp add: show_int_def read_int_def all_digits_def)
qed

definition ascii_string :: "string \<Rightarrow> bool" where
  "ascii_string s \<longleftrightarrow> list_all (\<lambda>c. (of_char c :: nat) < 128) s"

lemma ascii_show_nat: "ascii_string (show_nat n)"
proof -
  have "list_all is_digit (show_nat n)" using show_nat_digits by blast
  then show ?thesis
    unfolding ascii_string_def by (rule list.pred_mono_strong) (simp add: is_digit_def)
qed

lemma ascii_show_int: "ascii_string (show_int n)"
  using ascii_show_nat by (simp add: show_int_def ascii_string_def)

section \<open>Atoi and ParseBool\<close>

text \<open>
  \<^verbatim>\<open>strconv.Atoi\<close> returns a value together with its error: 0 for a string that is not a decimal
  numeral, and the bound of the 64-bit range that was passed for a numeral outside it.
\<close>

definition Atoi :: "string \<Rightarrow> int \<times> go_error option" where
  "Atoi s = (case read_int s of
       None \<Rightarrow> (0, Some (OtherError ''invalid syntax''))
     | Some n \<Rightarrow>
         (if n < - (2 ^ 63) then (- (2 ^ 63), Some (OtherError ''value out of range''))
          else if n \<ge> 2 ^ 63 then (2 ^ 63 - 1, Some (OtherError ''value out of range''))
          else (n, None)))"

definition ParseBool :: "string \<Rightarrow> bool \<times> go_error option" where
  "ParseBool s =
     (if s \<in> {''1'', ''t'', ''T'', ''true'', ''TRUE'', ''True''} then (True, None)
      else if s \<in> {''0'', ''f'', ''F'', ''false'', ''FALSE'', ''False''} then (False, None)
      else (False, Some (OtherError ''invalid syntax'')))"

lemma Atoi_show_int: "- (2 ^ 63) \<le> n \<Longrightarrow> n < 2 ^ 63 \<Longrightarrow> Atoi (show_int n) = (n, None)"
  by (simp add: Atoi_def read_show_int)

lemma Atoi_range: "- (2 ^ 63) \<le> fst (Atoi s) \<and> fst (Atoi s) < 2 ^ 63"
  by (auto simp: Atoi_def split: option.splits)

lemma ParseBool_error_value: "snd (ParseBool s) \<noteq> None \<Longrightarrow> fst (ParseBool s) = False"
  by (auto simp: ParseBool_def split: if_splits)

end
