(* ===== verification/K8s_Api.thy ===== *)
theory K8s_Api
  imports Go_Prelude Strconv
begin

text \<open>
  The Kubernetes objects the program handles and the libraries it calls on them. The objects
  (\<^verbatim>\<open>k8s.io/api/core/v1\<close>) are records with the fields the program reads or writes.
  The libraries are not part of the repository: \<^verbatim>\<open>resource.Quantity\<close> with \<^verbatim>\<open>inf.Dec\<close> and the
  API client are records of functions that the definitions take as arguments; the locale
  \<open>quantity_laws\<close> states what their documentation promises. \<open>nano_quantity\<close> is a quantity
  library of that kind, an integer number of nanocores.
\<close>

section \<open>Pods\<close>

record 'q resource_requirements =
  Requests :: "'q gomap"
  Limits :: "'q gomap"

record resize_policy =
  rpResourceName :: string
  rpRestartPolicy :: string

record 'q container =
  ctrName :: string
  ctrResources :: "'q resource_requirements"
  ctrResizePolicy :: "resize_policy list"

text \<open>Times are nanoseconds since the epoch.\<close>

record pod_condition =
  condType :: string
  condStatus :: string
  condLastTransitionTime :: int

record 'q pod =
  podName :: string
  podNamespace :: string
  podLabels :: "string gomap"
  podAnnotations :: "string gomap"
  podContainers :: "'q container list"
  podInitContainers :: "'q container list"
  podSpecResources :: "'q resource_requirements option"
  podConditions :: "pod_condition list"

abbreviation ResourceCPU :: string where "ResourceCPU \<equiv> ''cpu''"
abbreviation ResourceMemory :: string where "ResourceMemory \<equiv> ''memory''"
abbreviation PodScheduled :: string where "PodScheduled \<equiv> ''PodScheduled''"
abbreviation ConditionTrue :: string where "ConditionTrue \<equiv> ''True''"
abbreviation ConditionFalse :: string where "ConditionFalse \<equiv> ''False''"
abbreviation RestartContainer :: string where "RestartContainer \<equiv> ''RestartContainer''"

section \<open>Label selectors\<close>

record label_requirement =
  lrKey :: string
  lrOperator :: string
  lrValues :: "string list"

record label_selector =
  matchLabels :: "string gomap"
  matchExpressions :: "label_requirement list"

text \<open>
  A parsed selector (\<^verbatim>\<open>labels.Selector\<close>) is what it matches; \<^verbatim>\<open>metav1.LabelSelectorAsSelector\<close> is
  a parameter of type \<open>as_selector\<close>.
\<close>

type_synonym selector = "string gomap \<Rightarrow> bool"
type_synonym as_selector = "label_selector \<Rightarrow> go_error + selector"

section \<open>Quantities\<close>

record ('q, 'd) quantity_api =
  Cmp :: "'q \<Rightarrow> 'q \<Rightarrow> int"
  IsZero :: "'q \<Rightarrow> bool"
  Add :: "'q \<Rightarrow> 'q \<Rightarrow> 'q"
  QString :: "'q \<Rightarrow> string"
  ParseQuantity :: "string \<Rightarrow> go_error + 'q"
  MustParse :: "string \<Rightarrow> 'q"
  EmptyQuantity :: 'q
  AsDec :: "'q \<Rightarrow> 'd"
  Format :: "'q \<Rightarrow> string"
  NewDecimalQuantity :: "'d \<Rightarrow> string \<Rightarrow> 'q"
  NewDec :: "int64 \<Rightarrow> nat \<Rightarrow> 'd"
  DecMul :: "'d \<Rightarrow> 'd \<Rightarrow> 'd"
  RoundCeil :: "'d \<Rightarrow> nat \<Rightarrow> 'd"

text \<open>\<^verbatim>\<open>ResourceList.Cpu()\<close>: the CPU entry, or an empty quantity when there is none.\<close>

definition Cpu :: "('q, 'd) quantity_api \<Rightarrow> 'q gomap \<Rightarrow> 'q" where
  "Cpu Q m = (case map_get m ResourceCPU of Some q \<Rightarrow> q | None \<Rightarrow> EmptyQuantity Q)"

text \<open>
  What the documentation of \<^verbatim>\<open>resource.Quantity\<close> and \<^verbatim>\<open>inf.Dec\<close> promises: a quantity and a
  decimal denote a number; \<^verbatim>\<open>Cmp\<close>, \<^verbatim>\<open>IsZero\<close>, \<^verbatim>\<open>Add\<close>, \<^verbatim>\<open>Mul\<close> and \<^verbatim>\<open>Round\<close> compute on it;
  writing a quantity as a string and reading it back loses no precision; a decimal with at most
  nine decimal places is represented exactly.
\<close>

locale quantity_laws =
  fixes Q :: "('q, 'd) quantity_api"
    and val :: "'q \<Rightarrow> rat"
    and dval :: "'d \<Rightarrow> rat"
  assumes cmp: "Cmp Q a b = (if val a < val b then - 1 else if val a = val b then 0 else 1)"
    and is_zero: "IsZero Q a \<longleftrightarrow> val a = 0"
    and add: "val (Add Q a b) = val a + val b"
    and must_parse_0: "val (MustParse Q ''0'') = 0"
    and empty_quantity: "val (EmptyQuantity Q) = 0"
    and string_ascii: "ascii_string (QString Q a)"
    and parse_string: "\<exists>b. ParseQuantity Q (QString Q a) = Inr b \<and> val b = val a"
    and as_dec: "dval (AsDec Q a) = val a"
    and new_dec: "dval (NewDec Q u s) = of_int (sint u) / 10 ^ s"
    and dec_mul: "dval (DecMul Q d e) = dval d * dval e"
    and round_ceil: "dval (RoundCeil Q d s) = of_int \<lceil>dval d * 10 ^ s\<rceil> / 10 ^ s"
    and new_decimal: "dval d * 10 ^ 9 \<in> \<int> \<Longrightarrow> val (NewDecimalQuantity Q d f) = dval d"
begin

lemma cmp_less [simp]: "Cmp Q a b < 0 \<longleftrightarrow> val a < val b"
  by (simp add: cmp)

lemma cmp_eq [simp]: "Cmp Q a b = 0 \<longleftrightarrow> val a = val b"
  by (simp add: cmp)

lemma cmp_greater [simp]: "Cmp Q a b = 1 \<longleftrightarrow> val b < val a"
  by (auto simp: cmp)

lemma parse_stringE:
  obtains b where "ParseQuantity Q (QString Q a) = Inr b" "val b = val a"
  using parse_string by blast

lemma cpu_val: "val (Cpu Q m) = (case map_get m ResourceCPU of Some q \<Rightarrow> val q | None \<Rightarrow> 0)"
  by (simp add: Cpu_def empty_quantity split: option.splits)

end

subsection \<open>Quantities in nanocores\<close>

definition ceil_div :: "int \<Rightarrow> int \<Rightarrow> int" where
  "ceil_div a b = - ((- a) div b)"

definition read_nano :: "string \<Rightarrow> go_error + int" where
  "read_nano s = (if s \<noteq> [] \<and> last s = CHR ''n'' then
       (case read_int (butlast s) of Some n \<Rightarrow> Inr n | None \<Rightarrow> Inl (OtherError ''quantity''))
     else (case read_int s of
             Some n \<Rightarrow> Inr (n * 10 ^ 9) | None \<Rightarrow> Inl (OtherError ''quantity'')))"

definition nano_quantity :: "(int, int \<times> nat) quantity_api" where
  "nano_quantity = \<lparr>
     Cmp = (\<lambda>a b. if a < b then - 1 else if a = b then 0 else 1),
     IsZero = (\<lambda>a. a = 0),
     Add = (\<lambda>a b. a + b),
     QString = (\<lambda>a. show_int a @ ''n''),
     ParseQuantity = read_nano,
     MustParse = (\<lambda>s. case read_nano s of Inr n \<Rightarrow> n | Inl _ \<Rightarrow> 0),
     EmptyQuantity = 0,
     AsDec = (\<lambda>a. (a, 9)),
     Format = (\<lambda>_. ''DecimalSI''),
     NewDecimalQuantity = (\<lambda>(u, s) _. ceil_div (u * 10 ^ 9) (10 ^ s)),
     NewDec = (\<lambda>u s. (sint u, s)),
     DecMul = (\<lambda>(u, s) (v, t). (u * v, s + t)),
     RoundCeil = (\<lambda>(u, s) k. (ceil_div (u * 10 ^ k) (10 ^ s), k)) \<rparr>"

definition nano_val :: "int \<Rightarrow> rat" where
  "nano_val n = of_int n / 10 ^ 9"

definition dec_val :: "int \<times> nat \<Rightarrow> rat" where
  "dec_val = (\<lambda>(u, s). of_int u / 10 ^ s)"

lemma ceil_div_ceiling: "ceil_div a b = \<lceil>rat_of_int a / rat_of_int b\<rceil>"
  by (simp add: ceil_div_def ceiling_divide_eq_div)

lemma read_nano_show: "read_nano (show_int n @ ''n'') = Inr n"
  by (simp add: read_nano_def read_show_int)

lemma nano_val_new_decimal:
  assumes "dec_val (u, s) * 10 ^ 9 \<in> \<int>"
  shows "nano_val (ceil_div (u * 10 ^ 9) (10 ^ s)) = dec_val (u, s)"
proof -
  from assms obtain k :: int where k: "rat_of_int u / 10 ^ s * 10 ^ 9 = of_int k"
    by (auto simp: dec_val_def elim: Ints_cases)
  then have "rat_of_int (u * 10 ^ 9) / rat_of_int (10 ^ s) = of_int k" by simp
  then have "ceil_div (u * 10 ^ 9) (10 ^ s) = k" by (simp only: ceil_div_ceiling ceiling_of_int)
  then have "nano_val (ceil_div (u * 10 ^ 9) (10 ^ s)) = of_int k / 10 ^ 9" by (simp add: nano_val_def)
  also have "\<dots> = rat_of_int u / 10 ^ s" by (simp add: k [symmetric])
  finally show ?thesis by (simp add: dec_val_def)
qed

interpretation nano: quantity_laws nano_quantity nano_val dec_val
proof (unfold_locales, goal_cases)
  case (1 a b)
  show ?case by (simp add: nano_quantity_def nano_val_def divide_less_cancel)
next
  case (4)
  show ?case by (simp add: nano_quantity_def nano_val_def read_nano_def read_int_def all_digits_def
        is_digit_def read_nat_def digit_val_def)
next
  case (6 a)
  show ?case by (simp add: nano_quantity_def ascii_string_def ascii_show_int [unfolded ascii_string_def])
next
  case (7 a)
  show ?case by (simp add: nano_quantity_def read_nano_show)
next
  case (10 d e)
  show ?case by (cases d; cases e) (simp add: nano_quantity_def dec_val_def power_add)
next
  case (11 d s)
  show ?case by (cases d) (simp add: nano_quantity_def dec_val_def ceil_div_ceiling)
next
  case (12 d f)
  then show ?case
    by (cases d) (simp add: nano_quantity_def nano_val_new_decimal [simplified])
qed (simp_all add: nano_quantity_def nano_val_def dec_val_def add_divide_distrib)

section \<open>The API client of the boost package\<close>

text \<open>
  \<open>PatchPod\<close> is \<^verbatim>\<open>client.Patch\<close>, or \<^verbatim>\<open>client.SubResource(s).Patch\<close> with \<open>Some s\<close>. It takes the
  patch object's \<^verbatim>\<open>Data\<close> method, which may change the pod it is called on, and
  the pod, and returns the error, the pod as the call leaves it and the new state of the API
  server. \<open>UpdatePod\<close> is \<^verbatim>\<open>client.Update\<close>; \<open>ListPods\<close> is \<^verbatim>\<open>client.List\<close> with a namespace and one
  label.
\<close>

datatype 'q client_object = PodObject "'q pod" | OtherObject

type_synonym 'q patch_data = "'q client_object \<Rightarrow> ('q client_object \<times> (go_error + string)) option"

record ('q, 'w) kube_client =
  PatchPod :: "string option \<Rightarrow> 'q patch_data \<Rightarrow> 'q pod \<Rightarrow> 'w \<Rightarrow> (go_error option \<times> 'q pod \<times> 'w) option"
  UpdatePod :: "'q pod \<Rightarrow> 'w \<Rightarrow> go_error option \<times> 'q pod \<times> 'w"
  ListPods :: "string \<Rightarrow> string \<Rightarrow> string \<Rightarrow> 'w \<Rightarrow> go_error + 'q pod list"

text \<open>
  What the program relies on: a patch panics only if \<^verbatim>\<open>Data\<close> does, the object that comes back from
  a patch or an update is the object that was sent, and \<^verbatim>\<open>List\<close> honours its two filters.
\<close>

abbreviation same_key :: "'q pod \<Rightarrow> 'q pod \<Rightarrow> bool" where
  "same_key p p' \<equiv> podName p' = podName p \<and> podNamespace p' = podNamespace p"

definition data_total :: "'q patch_data \<Rightarrow> bool" where
  "data_total data \<longleftrightarrow> (\<forall>p. \<exists>p' r. data (PodObject p) = Some (PodObject p', r) \<and> same_key p p')"

locale client_laws =
  fixes K :: "('q, 'w) kube_client"
  assumes patch_returns: "data_total data \<Longrightarrow> \<exists>e p' w'. PatchPod K s data p w = Some (e, p', w')"
    and patch_key: "data_total data \<Longrightarrow> PatchPod K s data p w = Some (e, p', w') \<Longrightarrow> same_key p p'"
    and update_key: "UpdatePod K p w = (e, p', w') \<Longrightarrow> same_key p p'"
    and list_filters: "ListPods K ns l v w = Inr ps \<Longrightarrow> p \<in> set ps \<Longrightarrow>
        podNamespace p = ns \<and> map_get (podLabels p) l = Some v"

subsection \<open>An API server in memory\<close>

text \<open>
  The server holds a list of pods. It accepts what the patch object made of the pod it was called
  on, answers \<open>NotFound\<close> for a pod it does not hold and ignores the empty patch.
\<close>

definition holds :: "'q pod \<Rightarrow> 'q pod list \<Rightarrow> bool" where
  "holds p w \<longleftrightarrow> list_ex (\<lambda>p'. podName p' = podName p \<and> podNamespace p' = podNamespace p) w"

definition store_pod :: "'q pod \<Rightarrow> 'q pod list \<Rightarrow> 'q pod list" where
  "store_pod p w = map (\<lambda>p'. if podName p' = podName p \<and> podNamespace p' = podNamespace p then p else p') w"

definition mem_patch ::
  "string option \<Rightarrow> 'q patch_data \<Rightarrow> 'q pod \<Rightarrow> 'q pod list \<Rightarrow>
   (go_error option \<times> 'q pod \<times> 'q pod list) option" where
  "mem_patch s data p w =
     (case data (PodObject p) of
        Some (PodObject p', Inr d) \<Rightarrow>
          (if \<not> holds p' w then Some (Some NotFound, p', w)
           else if d = ''{}'' then Some (None, p', w)
           else Some (None, p', store_pod p' w))
      | Some (PodObject p', Inl e) \<Rightarrow> Some (Some e, p', w)
      | Some (OtherObject, _) \<Rightarrow> Some (Some (OtherError ''not a pod''), p, w)
      | None \<Rightarrow> None)"

definition mem_client :: "('q, 'q pod list) kube_client" where
  "mem_client = \<lparr>
     PatchPod = mem_patch,
     UpdatePod = (\<lambda>p w. if holds p w then (None, p, store_pod p w) else (Some NotFound, p, w)),
     ListPods = (\<lambda>ns l v w. Inr (filter (\<lambda>p. podNamespace p = ns \<and> map_get (podLabels p) l = Some v) w)) \<rparr>"

interpretation mem: client_laws mem_client
proof (unfold_locales, goal_cases)
  case (1 data s p w)
  then obtain p' r where "data (PodObject p) = Some (PodObject p', r)"
    unfolding data_total_def by blast
  then show ?case by (cases r) (simp_all add: mem_client_def mem_patch_def)
next
  case (2 data s p w e p' w')
  then obtain q r where "data (PodObject p) = Some (PodObject q, r)" "same_key p q"
    unfolding data_total_def by blast
  with 2(2) show ?case
    by (cases r) (auto simp: mem_client_def mem_patch_def split: if_splits)
qed (auto simp: mem_client_def split: if_splits)

end
