(* ===== verification/Boost_Types.thy ===== *)
theory Boost_Types
  imports K8s_Api
begin

text \<open>
  The custom resources of the program (\<^verbatim>\<open>api/v1alpha1\<close>): \<^verbatim>\<open>StartupCPUBoost\<close> and
  \<^verbatim>\<open>GlobalStartupCPUBoost\<close>, field by field. A pointer field is an \<open>option\<close>.
\<close>

section \<open>StartupCPUBoost\<close>

abbreviation FixedDurationPolicyUnitSec :: string where "FixedDurationPolicyUnitSec \<equiv> ''Seconds''"
abbreviation FixedDurationPolicyUnitMin :: string where "FixedDurationPolicyUnitMin \<equiv> ''Minutes''"
abbreviation ContainerPolicyWildcard :: string where "ContainerPolicyWildcard \<equiv> ''*''"

record fixed_duration_spec =
  fdUnit :: string
  fdValue :: int64

record pod_condition_spec =
  pcType :: string
  pcStatus :: string

record duration_policy_spec =
  dpFixed :: "fixed_duration_spec option"
  dpPodCondition :: "pod_condition_spec option"

record 'q fixed_resources =
  frRequests :: 'q
  frLimits :: 'q

record percentage_increase =
  piValue :: int64

record 'q container_policy_spec =
  cpContainerName :: string
  cpPercentageIncrease :: "percentage_increase option"
  cpFixedResources :: "'q fixed_resources option"

record 'q resource_policy_spec =
  rpContainerPolicies :: "'q container_policy_spec list"

record 'q boost_spec =
  bsResourcePolicy :: "'q resource_policy_spec"
  bsDurationPolicy :: duration_policy_spec

record status_condition =
  scType :: string
  scStatus :: string
  scReason :: string
  scMessage :: string
  scLastTransitionTime :: int

record boost_status =
  stActiveContainerBoosts :: int32
  stTotalContainerBoosts :: int32
  stConditions :: "status_condition list"

record 'q startup_cpu_boost =
  scbName :: string
  scbNamespace :: string
  scbLabels :: "string gomap"
  scbAnnotations :: "string gomap"
  scbSelector :: label_selector
  scbSpec :: "'q boost_spec"
  scbStatus :: boost_status

section \<open>GlobalStartupCPUBoost\<close>

abbreviation ManagedByGlobalBoostLabel :: string where
  "ManagedByGlobalBoostLabel \<equiv> ''autoscaling.x-k8s.io/managed-by-global''"
abbreviation GlobalBoostChildPrefix :: string where "GlobalBoostChildPrefix \<equiv> ''global-''"
abbreviation GlobalBoostFinalizer :: string where
  "GlobalBoostFinalizer \<equiv> ''autoscaling.x-k8s.io/global-boost-cleanup''"

record 'q global_template =
  gtSelector :: label_selector
  gtSpec :: "'q boost_spec"

record 'q global_spec =
  gsNamespaceSelector :: label_selector
  gsTemplate :: "'q global_template"

record global_status =
  gsNamespaceCount :: int32
  gsActiveNamespaces :: "string list"
  gsSkippedNamespaces :: "string list"
  gsConditions :: "status_condition list"

record 'q global_boost =
  gbName :: string
  gbUID :: string
  gbFinalizers :: "string list"
  gbDeletionTimestamp :: "int option"
  gbSpec :: "'q global_spec"
  gbStatus :: global_status

end
