(* ===== verification/Duration_Policies.thy ===== *)
theory Duration_Policies
  imports Boost_Types
begin

text \<open>
  \<^verbatim>\<open>internal/boost/duration\<close>: how long a boost lasts. The interface \<^verbatim>\<open>Policy\<close> has two
  implementations, a fixed time after the pod was scheduled and a pod condition. The current
  time, which \<^verbatim>\<open>FixedDurationPolicy\<close> reads through its \<^verbatim>\<open>timeFunc\<close>, is the argument \<open>now\<close>.
\<close>

section \<open>The policies\<close>

abbreviation FixedDurationPolicyName :: string where "FixedDurationPolicyName \<equiv> ''FixedDuration''"
abbreviation PodConditionPolicyName :: string where "PodConditionPolicyName \<equiv> ''PodCondition''"

record fixed_duration_policy =
  fpDuration :: int64

record pod_condition_policy =
  cpCondition :: string
  cpStatus :: string

datatype duration_policy =
    FixedDurationPolicy fixed_duration_policy
  | PodConditionPolicy pod_condition_policy

definition NewFixedDurationPolicy :: "int64 \<Rightarrow> duration_policy" where
  "NewFixedDurationPolicy d = FixedDurationPolicy \<lparr>fpDuration = d\<rparr>"

definition NewPodConditionPolicy :: "string \<Rightarrow> string \<Rightarrow> duration_policy" where
  "NewPodConditionPolicy c s = PodConditionPolicy \<lparr>cpCondition = c, cpStatus = s\<rparr>"

fun policyName :: "duration_policy \<Rightarrow> string" where
  "policyName (FixedDurationPolicy _) = FixedDurationPolicyName"
| "policyName (PodConditionPolicy _) = PodConditionPolicyName"

text \<open>
  \<^verbatim>\<open>FixedDurationPolicy.Valid\<close>: the first condition that says the pod is scheduled decides; a pod
  with no such condition is valid.
\<close>

fun fixedValid :: "fixed_duration_policy \<Rightarrow> int \<Rightarrow> pod_condition list \<Rightarrow> bool" where
  "fixedValid p now [] = True"
| "fixedValid p now (c # cs) =
     (if condType c = PodScheduled \<and> condStatus c = ConditionTrue
      then now < condLastTransitionTime c + sint (fpDuration p)
      else fixedValid p now cs)"

text \<open>\<^verbatim>\<open>PodConditionPolicy.Valid\<close>: some condition of the type with the status ends it.\<close>

fun conditionValid :: "pod_condition_policy \<Rightarrow> pod_condition list \<Rightarrow> bool" where
  "conditionValid p [] = True"
| "conditionValid p (c # cs) =
     (if condType c \<noteq> cpCondition p then conditionValid p cs
      else if condStatus c = cpStatus p then False
      else conditionValid p cs)"

fun policyValid :: "duration_policy \<Rightarrow> int \<Rightarrow> 'q pod \<Rightarrow> bool" where
  "policyValid (FixedDurationPolicy p) now pod = fixedValid p now (podConditions pod)"
| "policyValid (PodConditionPolicy p) now pod = conditionValid p (podConditions pod)"

section \<open>The interface\<close>

text \<open>
  What the rest of the program relies on: a policy looks only at the conditions of a pod, and
  once time has ended a boost, more time does not bring it back.
\<close>

locale boost_policy =
  fixes valid :: "int \<Rightarrow> 'q pod \<Rightarrow> bool"
  assumes conditions_only: "podConditions p = podConditions p' \<Longrightarrow> valid t p = valid t p'"
    and antimono: "t \<le> t' \<Longrightarrow> valid t' p \<Longrightarrow> valid t p"
begin

lemma expired_stays: "\<not> valid t p \<Longrightarrow> t \<le> t' \<Longrightarrow> podConditions p' = podConditions p \<Longrightarrow> \<not> valid t' p'"
  using antimono conditions_only by blast

lemma violated_mono:
  "t \<le> t' \<Longrightarrow> set (filter (\<lambda>p. \<not> valid t p) ps) \<subseteq> set (filter (\<lambda>p. \<not> valid t' p) ps)"
  using antimono by auto

end

lemma fixedValid_antimono: "t \<le> t' \<Longrightarrow> fixedValid p t' cs \<Longrightarrow> fixedValid p t cs"
  by (induction cs) (auto split: if_splits)

lemma policyValid_conditions:
  "podConditions p = podConditions p' \<Longrightarrow> policyValid pol t p = policyValid pol t p'"
  by (cases pol) simp_all

lemma policyValid_antimono: "t \<le> t' \<Longrightarrow> policyValid pol t' p \<Longrightarrow> policyValid pol t p"
  by (cases pol) (auto intro: fixedValid_antimono)

interpretation pol: boost_policy "policyValid pol" for pol :: duration_policy
  by unfold_locales (rule policyValid_conditions, assumption, rule policyValid_antimono)

section \<open>What the policies decide\<close>

abbreviation is_scheduled :: "pod_condition \<Rightarrow> bool" where
  "is_scheduled c \<equiv> condType c = PodScheduled \<and> condStatus c = ConditionTrue"

lemma fixedValid_iff:
  "fixedValid p now cs =
     (case List.find is_scheduled cs of
        None \<Rightarrow> True
      | Some c \<Rightarrow> now - condLastTransitionTime c < sint (fpDuration p))"
  by (induction cs) auto

lemma conditionValid_iff:
  "conditionValid p cs \<longleftrightarrow> \<not> (\<exists>c \<in> set cs. condType c = cpCondition p \<and> condStatus c = cpStatus p)"
  by (induction cs) auto

end
