(* ===== verification/Resource_Policies.thy ===== *)
theory Resource_Policies
  imports Boost_Types
begin

text \<open>
  \<^verbatim>\<open>internal/boost/resource\<close>: the CPU resources of a boosted container. The interface
  \<^verbatim>\<open>ContainerPolicy\<close> has two implementations, a fixed target and a percentage increase; both
  work on a deep copy of the container's resources, here the new record they return.
\<close>

section \<open>The policies\<close>

record 'q fixed_policy =
  fxRequests :: 'q
  fxLimits :: 'q

record percentage_policy =
  ppPercentage :: int64

datatype 'q container_policy =
    FixedPolicy "'q fixed_policy"
  | PercentageContainerPolicy percentage_policy

definition NewFixedPolicy :: "'q \<Rightarrow> 'q \<Rightarrow> 'q container_policy" where
  "NewFixedPolicy reqs lims = FixedPolicy \<lparr>fxRequests = reqs, fxLimits = lims\<rparr>"

definition NewPercentageContainerPolicy :: "int64 \<Rightarrow> 'q container_policy" where
  "NewPercentageContainerPolicy p = PercentageContainerPolicy \<lparr>ppPercentage = p\<rparr>"

text \<open>\<^verbatim>\<open>FixedPolicy.setResource\<close>: the assignment is reached only for an entry that is there.\<close>

definition setResource ::
  "('q, 'd) quantity_api \<Rightarrow> string \<Rightarrow> 'q gomap \<Rightarrow> 'q \<Rightarrow> 'q gomap option" where
  "setResource Q res resources target =
     (if IsZero Q target then Some resources
      else case map_get resources res of
        None \<Rightarrow> Some resources
      | Some current \<Rightarrow>
          (if Cmp Q target current < 0 then Some resources
           else map_assign res target resources))"

definition fixedNewResources ::
  "('q, 'd) quantity_api \<Rightarrow> 'q fixed_policy \<Rightarrow> 'q container \<Rightarrow> 'q resource_requirements option" where
  "fixedNewResources Q p ctr = do {
     let result = ctrResources ctr;
     requests \<leftarrow> setResource Q ResourceCPU (Requests result) (fxRequests p);
     limits \<leftarrow> setResource Q ResourceCPU (Limits result) (fxLimits p);
     Some \<lparr>Requests = requests, Limits = limits\<rparr>
   }"

text \<open>\<^verbatim>\<open>increaseQuantity\<close>: \<^verbatim>\<open>100+incPerc\<close> is a 64-bit addition, the result is rounded up to 0.01 CPU.\<close>

definition increaseQuantity :: "('q, 'd) quantity_api \<Rightarrow> 'q \<Rightarrow> int64 \<Rightarrow> 'q" where
  "increaseQuantity Q quantity incPerc =
     (let quantityDec = AsDec Q quantity;
          decPerc = NewDec Q (100 + incPerc) 2;
          decResult = DecMul Q quantityDec decPerc;
          decRoundedResult = RoundCeil Q decResult 2
      in NewDecimalQuantity Q decRoundedResult (Format Q quantity))"

definition increaseResource ::
  "('q, 'd) quantity_api \<Rightarrow> percentage_policy \<Rightarrow> string \<Rightarrow> 'q gomap \<Rightarrow> 'q gomap option" where
  "increaseResource Q p res resources =
     (case map_get resources res of
        None \<Rightarrow> Some resources
      | Some quantity \<Rightarrow> map_assign res (increaseQuantity Q quantity (ppPercentage p)) resources)"

definition percentageNewResources ::
  "('q, 'd) quantity_api \<Rightarrow> percentage_policy \<Rightarrow> 'q container \<Rightarrow> 'q resource_requirements option" where
  "percentageNewResources Q p ctr = do {
     let result = ctrResources ctr;
     requests \<leftarrow> increaseResource Q p ResourceCPU (Requests result);
     limits \<leftarrow> increaseResource Q p ResourceCPU (Limits result);
     Some \<lparr>Requests = requests, Limits = limits\<rparr>
   }"

fun NewResources ::
  "('q, 'd) quantity_api \<Rightarrow> 'q container_policy \<Rightarrow> 'q container \<Rightarrow> 'q resource_requirements option" where
  "NewResources Q (FixedPolicy p) ctr = fixedNewResources Q p ctr"
| "NewResources Q (PercentageContainerPolicy p) ctr = percentageNewResources Q p ctr"

section \<open>One resource list at a time\<close>

text \<open>
  Both policies handle requests and limits in the same way: an entry that is there may be
  replaced, no entry is added or removed and no other entry changes.
\<close>

definition same_entries_but_cpu :: "'q gomap \<Rightarrow> 'q gomap \<Rightarrow> bool" where
  "same_entries_but_cpu m m' \<longleftrightarrow>
     (\<forall>k. k \<noteq> ResourceCPU \<longrightarrow> map_get m' k = map_get m k) \<and>
     (map_get m' ResourceCPU = None \<longleftrightarrow> map_get m ResourceCPU = None)"

lemma setResource_total: "\<exists>m'. setResource Q res m t = Some m'"
  by (auto simp: setResource_def split: option.splits dest!: map_get_SomeD)

lemma setResource_entries: "setResource Q ResourceCPU m t = Some m' \<Longrightarrow> same_entries_but_cpu m m'"
  by (auto simp: setResource_def same_entries_but_cpu_def go_map split: option.splits if_splits)

lemma increaseResource_total: "\<exists>m'. increaseResource Q p res m = Some m'"
  by (auto simp: increaseResource_def split: option.splits dest!: map_get_SomeD)

lemma increaseResource_entries:
  "increaseResource Q p ResourceCPU m = Some m' \<Longrightarrow> same_entries_but_cpu m m'"
  by (auto simp: increaseResource_def same_entries_but_cpu_def go_map split: option.splits if_splits)

section \<open>The interface\<close>

text \<open>
  What the admission webhook relies on when it calls \<^verbatim>\<open>NewResources\<close>: the call returns, and it
  changes at most the CPU entries that are there.
\<close>

locale resource_policy =
  fixes newResources :: "'q container \<Rightarrow> 'q resource_requirements option"
  assumes returns: "\<exists>r. newResources c = Some r"
    and requests_entries:
      "newResources c = Some r \<Longrightarrow> same_entries_but_cpu (Requests (ctrResources c)) (Requests r)"
    and limits_entries:
      "newResources c = Some r \<Longrightarrow> same_entries_but_cpu (Limits (ctrResources c)) (Limits r)"
begin

lemma cpu_request_kept:
  "newResources c = Some r \<Longrightarrow>
   (map_get (Requests r) ResourceCPU = None) = (map_get (Requests (ctrResources c)) ResourceCPU = None)"
  using requests_entries by (simp add: same_entries_but_cpu_def)

lemma other_entries_kept:
  "newResources c = Some r \<Longrightarrow> k \<noteq> ResourceCPU \<Longrightarrow>
   map_get (Requests r) k = map_get (Requests (ctrResources c)) k \<and>
   map_get (Limits r) k = map_get (Limits (ctrResources c)) k"
  using requests_entries limits_entries by (simp add: same_entries_but_cpu_def)

end

lemma NewResources_total: "\<exists>r. NewResources Q pol c = Some r"
proof (cases pol)
  case (FixedPolicy p)
  obtain a b where "setResource Q ResourceCPU (Requests (ctrResources c)) (fxRequests p) = Some a"
    "setResource Q ResourceCPU (Limits (ctrResources c)) (fxLimits p) = Some b"
    using setResource_total by metis
  with FixedPolicy show ?thesis by (simp add: fixedNewResources_def)
next
  case (PercentageContainerPolicy p)
  obtain a b where "increaseResource Q p ResourceCPU (Requests (ctrResources c)) = Some a"
    "increaseResource Q p ResourceCPU (Limits (ctrResources c)) = Some b"
    using increaseResource_total by metis
  with PercentageContainerPolicy show ?thesis by (simp add: percentageNewResources_def)
qed

lemma NewResources_entries:
  assumes "NewResources Q pol c = Some r"
  shows "same_entries_but_cpu (Requests (ctrResources c)) (Requests r) \<and>
         same_entries_but_cpu (Limits (ctrResources c)) (Limits r)"
  using assms
  by (cases pol)
     (auto simp: fixedNewResources_def percentageNewResources_def Let_def bind_eq_Some_conv
           intro: setResource_entries increaseResource_entries)

interpretation rpol: resource_policy "NewResources Q pol"
  for Q :: "('q, 'd) quantity_api" and pol :: "'q container_policy"
  by unfold_locales (auto simp: NewResources_total NewResources_entries)

section \<open>The numbers\<close>

context quantity_laws
begin

lemma setResource_val:
  assumes "setResource Q res m t = Some m'" and "map_get m res = Some q"
  shows "\<exists>q'. map_get m' res = Some q' \<and> val q' = (if val t = 0 then val q else max (val q) (val t))"
  using assms by (auto simp: setResource_def is_zero max_def go_map split: if_splits)

lemma increaseQuantity_val:
  "val (increaseQuantity Q q p) = of_int \<lceil>val q * of_int (sint (100 + p))\<rceil> / 100"
proof -
  let ?x = "val q * (of_int (sint (100 + p)) / 10 ^ 2)"
  have "dval (RoundCeil Q (DecMul Q (AsDec Q q) (NewDec Q (100 + p) 2)) 2) = of_int \<lceil>?x * 10 ^ 2\<rceil> / 10 ^ 2"
    by (simp only: round_ceil dec_mul as_dec new_dec)
  moreover have "?x * 10 ^ 2 = val q * of_int (sint (100 + p))" by simp
  ultimately have r: "dval (RoundCeil Q (DecMul Q (AsDec Q q) (NewDec Q (100 + p) 2)) 2) =
      of_int \<lceil>val q * of_int (sint (100 + p))\<rceil> / 100" by simp
  have "of_int \<lceil>val q * of_int (sint (100 + p))\<rceil> / 100 * 10 ^ 9 =
      rat_of_int (\<lceil>val q * of_int (sint (100 + p))\<rceil> * 10 ^ 7)" by simp
  then have "dval (RoundCeil Q (DecMul Q (AsDec Q q) (NewDec Q (100 + p) 2)) 2) * 10 ^ 9 \<in> \<int>"
    unfolding r by (metis Ints_of_int)
  from new_decimal [OF this] r show ?thesis by (simp add: increaseQuantity_def Let_def)
qed

lemma sint_100_plus:
  fixes p :: int64
  assumes "0 \<le> sint p" "sint p < 2 ^ 63 - 100"
  shows "sint (100 + p) = 100 + sint p"
  using sint64_add [of 100 p] assms by simp

text \<open>The boosted quantity is the exact increase rounded up to the next 0.01 CPU.\<close>

lemma increaseQuantity_bounds:
  assumes "0 \<le> sint p" "sint p < 2 ^ 63 - 100"
  shows "val q * (1 + of_int (sint p) / 100) \<le> val (increaseQuantity Q q p)"
    and "val (increaseQuantity Q q p) < val q * (1 + of_int (sint p) / 100) + 1 / 100"
proof -
  let ?y = "val q * of_int (100 + sint p)"
  have v: "val (increaseQuantity Q q p) = of_int \<lceil>?y\<rceil> / 100"
    by (simp only: increaseQuantity_val sint_100_plus [OF assms])
  have y: "val q * (1 + of_int (sint p) / 100) = ?y / 100" by (simp add: field_simps)
  show "val q * (1 + of_int (sint p) / 100) \<le> val (increaseQuantity Q q p)"
    unfolding v y by (simp add: divide_right_mono)
  have "of_int \<lceil>?y\<rceil> < ?y + 1" by linarith
  then have "of_int \<lceil>?y\<rceil> / 100 < (?y + 1) / 100" by (simp add: divide_strict_right_mono)
  then show "val (increaseQuantity Q q p) < val q * (1 + of_int (sint p) / 100) + 1 / 100"
    unfolding v y by (simp add: add_divide_distrib)
qed

lemma increaseResource_val:
  assumes "increaseResource Q p res m = Some m'" and "map_get m res = Some q"
  shows "map_get m' res = Some (increaseQuantity Q q (ppPercentage p))"
  using assms by (auto simp: increaseResource_def go_map)

end

end
