(* ===== verification/Boost_Pod.thy ===== *)
theory Boost_Pod
  imports K8s_Api
begin

text \<open>
  \<^verbatim>\<open>internal/boost/pod\<close>: the annotation in which a boosted pod carries its original CPU resources,
  and the functions that put them back. A function that changes the pod it points to returns
  the changed pod, also next to an error: an error in the middle of the loop over the containers
  leaves the containers before it changed. The record \<open>json_api\<close> holds the calls of the
  encoding libraries: \<^verbatim>\<open>encoding/json\<close> on the annotation and on a pod, and the merge patch of
  \<^verbatim>\<open>evanphx/json-patch\<close>.
\<close>

section \<open>The annotation\<close>

abbreviation BoostLabelKey :: string where "BoostLabelKey \<equiv> ''autoscaling.x-k8s.io/startup-cpu-boost''"
abbreviation BoostAnnotationKey :: string where
  "BoostAnnotationKey \<equiv> ''autoscaling.x-k8s.io/startup-cpu-boost''"
abbreviation EmptyPatchString :: string where "EmptyPatchString \<equiv> ''{}''"

record boost_annotation =
  BoostTimestamp :: int
  InitCPURequests :: "string gomap"
  InitCPULimits :: "string gomap"

record 'q json_api =
  MarshalAnnotation :: "boost_annotation \<Rightarrow> go_error + string"
  UnmarshalAnnotation :: "string \<Rightarrow> go_error + boost_annotation"
  MarshalPod :: "'q pod \<Rightarrow> go_error + string"
  CreateMergePatch :: "string \<Rightarrow> string \<Rightarrow> go_error + string"

definition NewBoostAnnotation :: "int \<Rightarrow> boost_annotation" where
  "NewBoostAnnotation now =
     \<lparr>BoostTimestamp = now, InitCPURequests = make_map, InitCPULimits = make_map\<rparr>"

text \<open>\<^verbatim>\<open>ToJSON\<close> panics when the annotation cannot be encoded.\<close>

definition ToJSON :: "'q json_api \<Rightarrow> boost_annotation \<Rightarrow> string option" where
  "ToJSON J a = (case MarshalAnnotation J a of Inl _ \<Rightarrow> None | Inr s \<Rightarrow> Some s)"

definition BoostAnnotationFromPod :: "'q json_api \<Rightarrow> 'q pod \<Rightarrow> go_error + boost_annotation" where
  "BoostAnnotationFromPod J pod =
     (case map_get (podAnnotations pod) BoostAnnotationKey of
        None \<Rightarrow> Inl (OtherError ''boost annotation not found'')
      | Some data \<Rightarrow> UnmarshalAnnotation J data)"

section \<open>Reverting\<close>

definition revertBoostLabels :: "'q pod \<Rightarrow> ('q pod \<times> go_error option) option" where
  "revertBoostLabels pod =
     Some (pod\<lparr>podLabels := map_delete BoostLabelKey (podLabels pod),
               podAnnotations := map_delete BoostAnnotationKey (podAnnotations pod)\<rparr>, None)"

text \<open>
  One of the two blocks of the loop body in \<^verbatim>\<open>revertBoostResources\<close>: \<open>orig\<close> is the entry of the
  annotation for the container and \<open>m\<close> its requests or limits.
\<close>

definition revertResourceList ::
  "('q, 'd) quantity_api \<Rightarrow> string \<Rightarrow> string option \<Rightarrow> 'q gomap \<Rightarrow> ('q gomap \<times> go_error option) option" where
  "revertResourceList Q what orig m =
     (case orig of
        None \<Rightarrow> Some (m, None)
      | Some s \<Rightarrow>
          (case ParseQuantity Q s of
             Inr q \<Rightarrow> do {
               let m1 = (if is_nil m then make_map else m);
               m2 \<leftarrow> map_assign ResourceCPU q m1;
               Some (m2, None)
             }
           | Inl err \<Rightarrow> Some (m, Some (Errorf what [err]))))"

definition revertContainer ::
  "('q, 'd) quantity_api \<Rightarrow> boost_annotation \<Rightarrow> 'q container \<Rightarrow> ('q container \<times> go_error option) option" where
  "revertContainer Q annotation ctr = do {
     (requests, err) \<leftarrow> revertResourceList Q ''failed to parse CPU request''
        (map_get (InitCPURequests annotation) (ctrName ctr)) (Requests (ctrResources ctr));
     let ctr1 = ctr\<lparr>ctrResources := (ctrResources ctr)\<lparr>Requests := requests\<rparr>\<rparr>;
     case err of
       Some e \<Rightarrow> Some (ctr1, Some e)
     | None \<Rightarrow> do {
         (limits, err2) \<leftarrow> revertResourceList Q ''failed to parse CPU limit''
            (map_get (InitCPULimits annotation) (ctrName ctr)) (Limits (ctrResources ctr1));
         Some (ctr1\<lparr>ctrResources := (ctrResources ctr1)\<lparr>Limits := limits\<rparr>\<rparr>, err2)
       }
   }"

fun revertContainers ::
  "('q, 'd) quantity_api \<Rightarrow> boost_annotation \<Rightarrow> 'q container list \<Rightarrow>
   ('q container list \<times> go_error option) option" where
  "revertContainers Q annotation [] = Some ([], None)"
| "revertContainers Q annotation (ctr # ctrs) = do {
     (ctr', err) \<leftarrow> revertContainer Q annotation ctr;
     case err of
       Some e \<Rightarrow> Some (ctr' # ctrs, Some e)
     | None \<Rightarrow> do {
         (ctrs', err') \<leftarrow> revertContainers Q annotation ctrs;
         Some (ctr' # ctrs', err')
       }
   }"

definition revertBoostResources ::
  "('q, 'd) quantity_api \<Rightarrow> 'q json_api \<Rightarrow> 'q pod \<Rightarrow> ('q pod \<times> go_error option) option" where
  "revertBoostResources Q J pod =
     (case BoostAnnotationFromPod J pod of
        Inl err \<Rightarrow> Some (pod, Some (Errorf ''failed to get boost annotation from pod'' [err]))
      | Inr annotation \<Rightarrow> do {
          (ctrs, err) \<leftarrow> revertContainers Q annotation (podContainers pod);
          Some (pod\<lparr>podContainers := ctrs\<rparr>, err)
        })"

definition RevertResourceBoost ::
  "('q, 'd) quantity_api \<Rightarrow> 'q json_api \<Rightarrow> 'q pod \<Rightarrow> ('q pod \<times> go_error option) option" where
  "RevertResourceBoost Q J pod = do {
     (pod', err) \<leftarrow> revertBoostResources Q J pod;
     case err of
       Some e \<Rightarrow> Some (pod', Some e)
     | None \<Rightarrow> revertBoostLabels pod'
   }"

section \<open>Patches\<close>

definition buildPodPatch ::
  "'q json_api \<Rightarrow> 'q pod \<Rightarrow> ('q pod \<Rightarrow> ('q pod \<times> go_error option) option) \<Rightarrow>
   ('q pod \<times> (go_error + string)) option" where
  "buildPodPatch J pod mutatePodFunc =
     (case MarshalPod J pod of
        Inl err \<Rightarrow> Some (pod, Inl err)
      | Inr podJSON \<Rightarrow> do {
          (pod', merr) \<leftarrow> mutatePodFunc pod;
          case merr of
            Some err \<Rightarrow> Some (pod', Inl err)
          | None \<Rightarrow>
              (case MarshalPod J pod' of
                 Inl err \<Rightarrow> Some (pod', Inl err)
               | Inr updatedPodJSON \<Rightarrow> Some (pod', CreateMergePatch J podJSON updatedPodJSON))
        })"

definition revertBoostLabelsPatchData :: "'q json_api \<Rightarrow> 'q patch_data" where
  "revertBoostLabelsPatchData J obj =
     (case obj of
        OtherObject \<Rightarrow> Some (obj, Inl (OtherError ''revertBoostLabelsPatch applies only on *corev1.Pod objects''))
      | PodObject pod \<Rightarrow> map_option (map_prod PodObject id) (buildPodPatch J pod revertBoostLabels))"

definition revertBoostResourcesPatchData ::
  "('q, 'd) quantity_api \<Rightarrow> 'q json_api \<Rightarrow> 'q patch_data" where
  "revertBoostResourcesPatchData Q J obj =
     (case obj of
        OtherObject \<Rightarrow> Some (obj, Inl (OtherError ''revertBoostResourcesPatch applies only on *corev1.Pod objects''))
      | PodObject pod \<Rightarrow> do {
          (pod', r) \<leftarrow> buildPodPatch J pod (revertBoostResources Q J);
          case r of
            Inl _ \<Rightarrow> Some (PodObject pod', Inr EmptyPatchString)
          | Inr patchData \<Rightarrow> Some (PodObject pod', Inr patchData)
        })"

section \<open>No panic\<close>

lemma assign_made_total: "\<exists>m'. map_assign k v (if is_nil m then make_map else m) = Some m'"
  by (cases m) (simp_all add: make_map_def)

lemma revertResourceList_total: "\<exists>m' e. revertResourceList Q what orig m = Some (m', e)"
proof (cases orig)
  case (Some s)
  show ?thesis
  proof (cases "ParseQuantity Q s")
    case (Inr q)
    obtain m2 where "map_assign ResourceCPU q (if is_nil m then make_map else m) = Some m2"
      using assign_made_total by metis
    with Some Inr show ?thesis by (simp add: revertResourceList_def Let_def)
  qed (simp add: Some revertResourceList_def)
qed (simp add: revertResourceList_def)

lemma revertContainer_total: "\<exists>c' e. revertContainer Q a c = Some (c', e)"
proof -
  obtain r e where r: "revertResourceList Q ''failed to parse CPU request''
      (map_get (InitCPURequests a) (ctrName c)) (Requests (ctrResources c)) = Some (r, e)"
    using revertResourceList_total by blast
  obtain l f where "revertResourceList Q ''failed to parse CPU limit''
      (map_get (InitCPULimits a) (ctrName c)) (Limits (ctrResources c)) = Some (l, f)"
    using revertResourceList_total by blast
  with r show ?thesis by (cases e) (simp_all add: revertContainer_def Let_def)
qed

lemma revertContainers_total: "\<exists>cs' e. revertContainers Q a cs = Some (cs', e)"
proof (induction cs)
  case (Cons c cs)
  then obtain cs' e where cs: "revertContainers Q a cs = Some (cs', e)" by blast
  obtain c' f where "revertContainer Q a c = Some (c', f)" using revertContainer_total by blast
  with cs show ?case by (cases f) simp_all
qed simp

lemma revertBoostResources_total: "\<exists>p' e. revertBoostResources Q J p = Some (p', e)"
proof (cases "BoostAnnotationFromPod J p")
  case (Inr a)
  obtain cs e where "revertContainers Q a (podContainers p) = Some (cs, e)"
    using revertContainers_total by blast
  with Inr show ?thesis by (simp add: revertBoostResources_def)
qed (simp add: revertBoostResources_def)

lemma RevertResourceBoost_total: "\<exists>p' e. RevertResourceBoost Q J p = Some (p', e)"
proof -
  obtain p' e where "revertBoostResources Q J p = Some (p', e)"
    using revertBoostResources_total by blast
  then show ?thesis by (cases e) (simp_all add: RevertResourceBoost_def revertBoostLabels_def)
qed

section \<open>What reverting changes\<close>

lemma revertResourceList_none [simp]: "revertResourceList Q what None m = Some (m, None)"
  by (simp add: revertResourceList_def)

lemma revertResourceList_ok:
  "revertResourceList Q what (Some s) m = Some (m', None) \<longleftrightarrow>
   (\<exists>q. ParseQuantity Q s = Inr q \<and> map_assign ResourceCPU q (if is_nil m then make_map else m) = Some m')"
  by (auto simp: revertResourceList_def Let_def bind_eq_Some_conv split: sum.splits)

lemma revertResourceList_other:
  assumes "revertResourceList Q what orig m = Some (m', e)" and "k \<noteq> ResourceCPU"
  shows "map_get m' k = map_get m k"
proof (cases "\<exists>s q. orig = Some s \<and> ParseQuantity Q s = Inr q")
  case True
  with assms(1) obtain q where
    "map_assign ResourceCPU q (if is_nil m then make_map else m) = Some m'"
    by (auto simp: revertResourceList_def Let_def bind_eq_Some_conv)
  from map_get_assign [OF this, of k] assms(2)
  have "map_get m' k = map_get (if is_nil m then make_map else m) k" by simp
  then show ?thesis by (cases m) simp_all
next
  case False
  with assms(1) show ?thesis by (auto simp: revertResourceList_def split: option.splits sum.splits)
qed

text \<open>The CPU entry after a successful revert: the parsed original, or the entry as it was.\<close>

definition revert_cpu ::
  "('q, 'd) quantity_api \<Rightarrow> string option \<Rightarrow> 'q gomap \<Rightarrow> 'q option" where
  "revert_cpu Q orig m =
     (case orig of
        None \<Rightarrow> map_get m ResourceCPU
      | Some s \<Rightarrow> (case ParseQuantity Q s of Inr q \<Rightarrow> Some q | Inl _ \<Rightarrow> map_get m ResourceCPU))"

lemma revertResourceList_cpu:
  assumes "revertResourceList Q what orig m = Some (m', None)"
  shows "map_get m' ResourceCPU = revert_cpu Q orig m"
  using assms
  by (cases orig) (auto simp: revertResourceList_ok revert_cpu_def map_get_assign)

lemma revertContainer_ok:
  assumes "revertContainer Q a c = Some (c', None)"
  shows "revertResourceList Q ''failed to parse CPU request''
           (map_get (InitCPURequests a) (ctrName c)) (Requests (ctrResources c)) =
           Some (Requests (ctrResources c'), None)"
    and "revertResourceList Q ''failed to parse CPU limit''
           (map_get (InitCPULimits a) (ctrName c)) (Limits (ctrResources c)) =
           Some (Limits (ctrResources c'), None)"
  using assms by (auto simp: revertContainer_def Let_def bind_eq_Some_conv split: option.splits)

lemma revertContainer_frame:
  assumes "revertContainer Q a c = Some (c', e)"
  shows "ctrName c' = ctrName c \<and> ctrResizePolicy c' = ctrResizePolicy c"
  using assms by (auto simp: revertContainer_def Let_def bind_eq_Some_conv split: option.splits)

lemma revertContainers_Cons_ok:
  "revertContainers Q a (c # cs) = Some (ds, None) \<longleftrightarrow>
   (\<exists>c' cs'. ds = c' # cs' \<and> revertContainer Q a c = Some (c', None) \<and>
             revertContainers Q a cs = Some (cs', None))"
proof -
  obtain c' e where c: "revertContainer Q a c = Some (c', e)" using revertContainer_total by blast
  obtain cs' f where cs: "revertContainers Q a cs = Some (cs', f)" using revertContainers_total by blast
  from c cs show ?thesis by (cases e) auto
qed

lemma revertContainers_ok:
  assumes "revertContainers Q a cs = Some (cs', None)"
  shows "list_all2 (\<lambda>c c'. revertContainer Q a c = Some (c', None)) cs cs'"
  using assms
proof (induction cs arbitrary: cs')
  case (Cons c cs)
  then show ?case by (auto simp: revertContainers_Cons_ok simp del: revertContainers.simps)
qed simp

lemma revertContainers_names:
  "revertContainers Q a cs = Some (cs', e) \<Longrightarrow> map ctrName cs' = map ctrName cs"
proof (induction cs arbitrary: cs' e)
  case (Cons c cs)
  obtain c' f where c: "revertContainer Q a c = Some (c', f)" using revertContainer_total by blast
  obtain ds g where cs: "revertContainers Q a cs = Some (ds, g)" using revertContainers_total by blast
  from Cons.IH [OF cs] revertContainer_frame [OF c] Cons.prems c cs show ?case by (cases f) auto
qed simp

lemma revertBoostResources_frame:
  assumes "revertBoostResources Q J p = Some (p', e)"
  shows "p' = p\<lparr>podContainers := podContainers p'\<rparr> \<and>
         map ctrName (podContainers p') = map ctrName (podContainers p)"
proof (cases "BoostAnnotationFromPod J p")
  case (Inr a)
  with assms obtain cs where "revertContainers Q a (podContainers p) = Some (cs, e)"
    and "p' = p\<lparr>podContainers := cs\<rparr>"
    by (auto simp: revertBoostResources_def bind_eq_Some_conv)
  then show ?thesis by (simp add: revertContainers_names)
qed (use assms in \<open>simp add: revertBoostResources_def\<close>)

end
