(* ===== verification/Metrics.thy ===== *)
theory Metrics
  imports Go_Prelude
begin

text \<open>
  \<^verbatim>\<open>internal/metrics\<close>: the three Prometheus vectors of the program. A vector is a map from label
  values to the number that the metric with these labels holds; a metric that was never touched
  reads 0, as \<^verbatim>\<open>With\<close> and \<^verbatim>\<open>GetMetricWith\<close> create it at 0. The values the program stores are
  whole numbers.
\<close>

record metrics =
  boostConfigurations :: "string \<Rightarrow> int"
  boostContainersTotal :: "string \<times> string \<Rightarrow> int"
  boostContainersActive :: "string \<times> string \<Rightarrow> int"

definition initMetrics :: metrics where
  "initMetrics = \<lparr>boostConfigurations = (\<lambda>_. 0), boostContainersTotal = (\<lambda>_. 0),
                  boostContainersActive = (\<lambda>_. 0)\<rparr>"

text \<open>
  The vectors as Prometheus gets them. \<^verbatim>\<open>MustRegister\<close> of its registry, which panics on a second
  collector with the same name, is the argument \<open>mustRegister\<close>.
\<close>

datatype vec_kind = GaugeVec | CounterVec

record collector =
  vecKind :: vec_kind
  optsSubsystem :: string
  optsName :: string
  labelNames :: "string list"

abbreviation KubeStartupCPUBoostSubsystem :: string where "KubeStartupCPUBoostSubsystem \<equiv> ''boost''"

definition boostCollectors :: "collector list" where
  "boostCollectors =
     [\<lparr>vecKind = GaugeVec, optsSubsystem = KubeStartupCPUBoostSubsystem, optsName = ''configurations'',
       labelNames = [''namespace'']\<rparr>,
      \<lparr>vecKind = CounterVec, optsSubsystem = KubeStartupCPUBoostSubsystem, optsName = ''containers_total'',
       labelNames = [''namespace'', ''boost'']\<rparr>,
      \<lparr>vecKind = GaugeVec, optsSubsystem = KubeStartupCPUBoostSubsystem, optsName = ''containers_active'',
       labelNames = [''namespace'', ''boost'']\<rparr>]"

definition registerMetrics :: "(collector list \<Rightarrow> unit option) \<Rightarrow> unit option" where
  "registerMetrics mustRegister = mustRegister boostCollectors"

definition NewBoostConfiguration :: "string \<Rightarrow> metrics \<Rightarrow> metrics" where
  "NewBoostConfiguration namespace m =
     m\<lparr>boostConfigurations := (boostConfigurations m)(namespace := boostConfigurations m namespace + 1)\<rparr>"

definition DeleteBoostConfiguration :: "string \<Rightarrow> metrics \<Rightarrow> metrics" where
  "DeleteBoostConfiguration namespace m =
     m\<lparr>boostConfigurations := (boostConfigurations m)(namespace := boostConfigurations m namespace - 1)\<rparr>"

definition SetBoostContainersActive :: "string \<Rightarrow> string \<Rightarrow> int \<Rightarrow> metrics \<Rightarrow> metrics" where
  "SetBoostContainersActive namespace boost v m =
     m\<lparr>boostContainersActive := (boostContainersActive m)((namespace, boost) := v)\<rparr>"

definition AddBoostContainersTotal :: "string \<Rightarrow> string \<Rightarrow> int \<Rightarrow> metrics \<Rightarrow> metrics" where
  "AddBoostContainersTotal namespace boost v m =
     m\<lparr>boostContainersTotal :=
        (boostContainersTotal m)((namespace, boost) := boostContainersTotal m (namespace, boost) + v)\<rparr>"

definition ClearSystemMetrics :: "metrics \<Rightarrow> metrics" where
  "ClearSystemMetrics m = m\<lparr>boostConfigurations := (\<lambda>_. 0)\<rparr>"

definition ClearBoostMetrics :: "string \<Rightarrow> string \<Rightarrow> metrics \<Rightarrow> metrics" where
  "ClearBoostMetrics namespace boost m =
     m\<lparr>boostContainersTotal := (boostContainersTotal m)((namespace, boost) := 0),
       boostContainersActive := (boostContainersActive m)((namespace, boost) := 0)\<rparr>"

text \<open>
  The readers get the metric with the labels, at 0 if it is new, and collect it: a metric is a collector
  that sends itself to the channel. The labels are always those of the vector, so that
  \<^verbatim>\<open>GetMetricWith\<close> does not fail.
\<close>

definition collect :: "int list \<Rightarrow> (int \<Rightarrow> int \<Rightarrow> int) \<Rightarrow> int \<Rightarrow> int" where
  "collect sent f = fold f sent"

definition counterVecValue :: "('l \<Rightarrow> int) \<Rightarrow> 'l \<Rightarrow> int" where
  "counterVecValue vec labels = collect [vec labels] (\<lambda>m v. v + m) 0"

definition gaugeVecValue :: "('l \<Rightarrow> int) \<Rightarrow> 'l \<Rightarrow> int" where
  "gaugeVecValue vec labels = collect [vec labels] (\<lambda>m v. v + m) 0"

definition BoostConfigurations :: "string \<Rightarrow> metrics \<Rightarrow> int" where
  "BoostConfigurations namespace m = gaugeVecValue (boostConfigurations m) namespace"

definition BoostContainersTotal :: "string \<Rightarrow> string \<Rightarrow> metrics \<Rightarrow> int" where
  "BoostContainersTotal namespace boost m = counterVecValue (boostContainersTotal m) (namespace, boost)"

definition BoostContainersActive :: "string \<Rightarrow> string \<Rightarrow> metrics \<Rightarrow> int" where
  "BoostContainersActive namespace boost m = gaugeVecValue (boostContainersActive m) (namespace, boost)"

lemma vec_values [simp]: "counterVecValue vec l = vec l" "gaugeVecValue vec l = vec l"
  by (simp_all add: counterVecValue_def gaugeVecValue_def collect_def)

named_theorems metric_reads "what the three vectors hold after an update"

lemma BoostConfigurations_reads [simp, metric_reads]:
  "BoostConfigurations n initMetrics = 0"
  "BoostConfigurations n (NewBoostConfiguration n' m) = BoostConfigurations n m + (if n = n' then 1 else 0)"
  "BoostConfigurations n (DeleteBoostConfiguration n' m) = BoostConfigurations n m - (if n = n' then 1 else 0)"
  "BoostConfigurations n (SetBoostContainersActive n' b v m) = BoostConfigurations n m"
  "BoostConfigurations n (AddBoostContainersTotal n' b v m) = BoostConfigurations n m"
  "BoostConfigurations n (ClearSystemMetrics m) = 0"
  "BoostConfigurations n (ClearBoostMetrics n' b m) = BoostConfigurations n m"
  by (simp_all add: BoostConfigurations_def initMetrics_def NewBoostConfiguration_def
        DeleteBoostConfiguration_def SetBoostContainersActive_def AddBoostContainersTotal_def
        ClearSystemMetrics_def ClearBoostMetrics_def)

lemma BoostContainersActive_reads [simp, metric_reads]:
  "BoostContainersActive n b initMetrics = 0"
  "BoostContainersActive n b (SetBoostContainersActive n' b' v m) =
     (if n = n' \<and> b = b' then v else BoostContainersActive n b m)"
  "BoostContainersActive n b (NewBoostConfiguration n' m) = BoostContainersActive n b m"
  "BoostContainersActive n b (DeleteBoostConfiguration n' m) = BoostContainersActive n b m"
  "BoostContainersActive n b (AddBoostContainersTotal n' b' v m) = BoostContainersActive n b m"
  by (simp_all add: BoostContainersActive_def initMetrics_def NewBoostConfiguration_def
        DeleteBoostConfiguration_def SetBoostContainersActive_def AddBoostContainersTotal_def)

lemma BoostContainersTotal_reads [simp, metric_reads]:
  "BoostContainersTotal n b initMetrics = 0"
  "BoostContainersTotal n b (AddBoostContainersTotal n' b' v m) =
     BoostContainersTotal n b m + (if n = n' \<and> b = b' then v else 0)"
  "BoostContainersTotal n b (NewBoostConfiguration n' m) = BoostContainersTotal n b m"
  "BoostContainersTotal n b (DeleteBoostConfiguration n' m) = BoostContainersTotal n b m"
  "BoostContainersTotal n b (SetBoostContainersActive n' b' v m) = BoostContainersTotal n b m"
  by (simp_all add: BoostContainersTotal_def initMetrics_def NewBoostConfiguration_def
        DeleteBoostConfiguration_def SetBoostContainersActive_def AddBoostContainersTotal_def)

end
