(* ===== verification/Startup_Boost.thy ===== *)
theory Startup_Boost
  imports Duration_Policies Resource_Policies Boost_Pod Metrics
begin

text \<open>
  \<^verbatim>\<open>internal/boost/startupcpuboost.go\<close>: one startup CPU boost, with the pods it tracks, its
  statistics and the operations on it.

  Boosts and pods are reached through pointers that several collections share, so the state is
  a heap: \<open>boostAt\<close> and \<open>podAt\<close> give the object behind a pointer, next to the metrics and the
  state of the API server. An operation holds the mutex of the boost from its first to its last
  statement and is one state transformer here. Log output is not modelled.
\<close>

section \<open>State\<close>

type_synonym ref = nat

record boost_stats =
  ActiveContainerBoosts :: int
  TotalContainerBoosts :: int

record 'q boost =
  boostName :: string
  boostNamespace :: string
  boostSelector :: selector
  durationPolicies :: "(string, duration_policy) alist"
  resourcePolicies :: "(string, 'q container_policy) alist"
  trackedPods :: "(string, ref) alist"
  boostStats :: boost_stats
  legacyRevertMode :: bool

record ('q, 'w) heap =
  podAt :: "ref \<Rightarrow> 'q pod"
  nextPod :: ref
  boostAt :: "ref \<Rightarrow> 'q boost"
  nextBoost :: ref
  metricsState :: metrics
  apiState :: 'w

text \<open>The libraries the boost package calls, and what the Go runtime chooses during one call.\<close>

record ('q, 'd, 'w) deps =
  dQ :: "('q, 'd) quantity_api"
  dJ :: "'q json_api"
  dK :: "('q, 'w) kube_client"
  dSel :: as_selector

record go_runtime =
  rangeOrder :: "string list \<Rightarrow> string list"
  timeNow :: int

datatype stats_event = PodCreateEvent ref | PodUpdateEvent ref | PodDeleteEvent ref

abbreviation ResizeSubResourceName :: string where "ResizeSubResourceName \<equiv> ''resize''"

section \<open>From the API object\<close>

definition fixedPolicyToDuration :: "fixed_duration_spec \<Rightarrow> int64" where
  "fixedPolicyToDuration policy =
     (if fdUnit policy = FixedDurationPolicyUnitMin then fdValue policy * 60000000000
      else fdValue policy * 1000000000)"

definition mapDurationPolicy :: "duration_policy_spec \<Rightarrow> (string, duration_policy) alist" where
  "mapDurationPolicy spec =
     (let policies = DAList.empty;
          policies = (case dpFixed spec of
              None \<Rightarrow> policies
            | Some fixedPolicy \<Rightarrow> DAList.update FixedDurationPolicyName
                (NewFixedDurationPolicy (fixedPolicyToDuration fixedPolicy)) policies);
          policies = (case dpPodCondition spec of
              None \<Rightarrow> policies
            | Some condPolicy \<Rightarrow> DAList.update PodConditionPolicyName
                (NewPodConditionPolicy (pcType condPolicy) (pcStatus condPolicy)) policies)
      in policies)"

text \<open>The loop body of \<^verbatim>\<open>mapResourcePolicy\<close>: the policy of one entry and how many it defines.\<close>

definition policyOfSpec :: "'q container_policy_spec \<Rightarrow> 'q container_policy option \<times> nat" where
  "policyOfSpec policySpec =
     (let (policy, cnt) = (case cpFixedResources policySpec of
              None \<Rightarrow> (None, 0)
            | Some fixedResources \<Rightarrow>
                (Some (NewFixedPolicy (frRequests fixedResources) (frLimits fixedResources)), 1))
      in case cpPercentageIncrease policySpec of
           None \<Rightarrow> (policy, cnt)
         | Some percIncrease \<Rightarrow> (Some (NewPercentageContainerPolicy (piValue percIncrease)), cnt + 1))"

fun mapResourcePolicyLoop ::
  "'q container_policy_spec list \<Rightarrow> go_error list \<Rightarrow> (string, 'q container_policy) alist \<Rightarrow>
   go_error list \<times> (string, 'q container_policy) alist" where
  "mapResourcePolicyLoop [] errs policies = (errs, policies)"
| "mapResourcePolicyLoop (policySpec # rest) errs policies =
     (case policyOfSpec policySpec of
        (policy, cnt) \<Rightarrow>
          (if cnt \<noteq> 1 then
             mapResourcePolicyLoop rest
               (errs @ [OtherError (''invalid number of resource policies fo container ''
                  @ cpContainerName policySpec @ ''; must be one'')]) policies
           else
             (case policy of
                Some p \<Rightarrow> mapResourcePolicyLoop rest errs (DAList.update (cpContainerName policySpec) p policies)
              | None \<Rightarrow> mapResourcePolicyLoop rest errs policies)))"

definition mapResourcePolicy ::
  "'q resource_policy_spec \<Rightarrow> go_error + (string, 'q container_policy) alist" where
  "mapResourcePolicy spec =
     (case mapResourcePolicyLoop (rpContainerPolicies spec) [] DAList.empty of
        (errs, policies) \<Rightarrow> (case errors_Join errs of Some err \<Rightarrow> Inl err | None \<Rightarrow> Inr policies))"

definition NewStartupCPUBoost ::
  "as_selector \<Rightarrow> 'q startup_cpu_boost \<Rightarrow> bool \<Rightarrow> ('q, 'w, 'm) heap_scheme \<Rightarrow>
   (go_error + ref) \<times> ('q, 'w, 'm) heap_scheme" where
  "NewStartupCPUBoost asSelector boost legacy h =
     (case asSelector (scbSelector boost) of
        Inl err \<Rightarrow> (Inl err, h)
      | Inr sel \<Rightarrow>
          (case mapResourcePolicy (bsResourcePolicy (scbSpec boost)) of
             Inl err \<Rightarrow> (Inl err, h)
           | Inr policies \<Rightarrow>
               (let r = nextBoost h;
                    b = \<lparr>boostName = scbName boost, boostNamespace = scbNamespace boost,
                         boostSelector = sel,
                         durationPolicies = mapDurationPolicy (bsDurationPolicy (scbSpec boost)),
                         resourcePolicies = policies, trackedPods = DAList.empty,
                         boostStats = \<lparr>ActiveContainerBoosts = 0, TotalContainerBoosts = 0\<rparr>,
                         legacyRevertMode = legacy\<rparr>
                in (Inr r, h\<lparr>boostAt := (boostAt h)(r := b), nextBoost := r + 1\<rparr>))))"

section \<open>Reading a boost\<close>

definition ResourcePolicy :: "'q boost \<Rightarrow> string \<Rightarrow> 'q container_policy option" where
  "ResourcePolicy b containerName =
     (case DAList.lookup (resourcePolicies b) containerName of
        Some policy \<Rightarrow> Some policy
      | None \<Rightarrow> DAList.lookup (resourcePolicies b) ContainerPolicyWildcard)"

definition boostPod :: "'q boost \<Rightarrow> string \<Rightarrow> ref option" where
  "boostPod b name = DAList.lookup (trackedPods b) name"

definition Matches :: "'q boost \<Rightarrow> 'q pod \<Rightarrow> bool" where
  "Matches b pod = boostSelector b (podLabels pod)"

definition validatePolicyOnPod :: "go_runtime \<Rightarrow> duration_policy \<Rightarrow> 'q pod \<Rightarrow> bool" where
  "validatePolicyOnPod rt p pod = policyValid p (timeNow rt) pod"

definition ValidatePolicy ::
  "go_runtime \<Rightarrow> ref \<Rightarrow> string \<Rightarrow> ('q, 'w, 'm) heap_scheme \<Rightarrow> ref list" where
  "ValidatePolicy rt r name h =
     (case DAList.lookup (durationPolicies (boostAt h r)) name of
        None \<Rightarrow> []
      | Some policy \<Rightarrow>
          filter (\<lambda>p. \<not> validatePolicyOnPod rt policy (podAt h p))
            (map snd (alist_range (rangeOrder rt) (trackedPods (boostAt h r)))))"

definition boostContainersLen :: "'q json_api \<Rightarrow> 'q pod \<Rightarrow> int" where
  "boostContainersLen J pod =
     (case BoostAnnotationFromPod J pod of
        Inr annot \<Rightarrow> int (map_len (InitCPURequests annot))
      | Inl _ \<Rightarrow> 0)"

section \<open>Operations\<close>

definition setBoost :: "ref \<Rightarrow> 'q boost \<Rightarrow> ('q, 'w, 'm) heap_scheme \<Rightarrow> ('q, 'w, 'm) heap_scheme" where
  "setBoost r b h = h\<lparr>boostAt := (boostAt h)(r := b)\<rparr>"

definition setPod :: "ref \<Rightarrow> 'q pod \<Rightarrow> ('q, 'w, 'm) heap_scheme \<Rightarrow> ('q, 'w, 'm) heap_scheme" where
  "setPod p pod h = h\<lparr>podAt := (podAt h)(p := pod)\<rparr>"

definition updateStats ::
  "('q, 'd, 'w) deps \<Rightarrow> go_runtime \<Rightarrow> ref \<Rightarrow> stats_event \<Rightarrow>
   ('q, 'w, 'm) heap_scheme \<Rightarrow> ('q, 'w, 'm) heap_scheme" where
  "updateStats D rt r e h =
     (let b = boostAt h r;
          activeCnt = sum_list (map (\<lambda>(_, p). boostContainersLen (dJ D) (podAt h p))
                                    (alist_range (rangeOrder rt) (trackedPods b)));
          b1 = b\<lparr>boostStats := (boostStats b)\<lparr>ActiveContainerBoosts := activeCnt\<rparr>\<rparr>;
          h1 = (setBoost r b1 h)\<lparr>metricsState :=
                 SetBoostContainersActive (boostNamespace b) (boostName b) activeCnt (metricsState h)\<rparr>
      in case e of
           PodCreateEvent p \<Rightarrow>
             (let len = boostContainersLen (dJ D) (podAt h p);
                  b2 = b1\<lparr>boostStats := (boostStats b1)\<lparr>TotalContainerBoosts :=
                            TotalContainerBoosts (boostStats b1) + len\<rparr>\<rparr>
              in (setBoost r b2 h1)\<lparr>metricsState :=
                   AddBoostContainersTotal (boostNamespace b) (boostName b) len (metricsState h1)\<rparr>)
         | PodUpdateEvent _ \<Rightarrow> h1
         | PodDeleteEvent _ \<Rightarrow> h1)"

definition updateBoostPod ::
  "('q, 'd, 'w) deps \<Rightarrow> ref \<Rightarrow> ('q, 'w, 'm) heap_scheme \<Rightarrow>
   (go_error option \<times> ('q, 'w, 'm) heap_scheme) option" where
  "updateBoostPod D p h = do {
     (err, pod1, w1) \<leftarrow> PatchPod (dK D) (Some ResizeSubResourceName)
        (revertBoostResourcesPatchData (dQ D) (dJ D)) (podAt h p) (apiState h);
     let h1 = (setPod p pod1 h)\<lparr>apiState := w1\<rparr>;
     case err of
       Some e \<Rightarrow> Some (Some e, h1)
     | None \<Rightarrow> do {
         (err2, pod2, w2) \<leftarrow> PatchPod (dK D) None (revertBoostLabelsPatchData (dJ D)) pod1 w1;
         Some (err2, (setPod p pod2 h1)\<lparr>apiState := w2\<rparr>)
       }
   }"

definition updateBoostPodLegacy ::
  "('q, 'd, 'w) deps \<Rightarrow> ref \<Rightarrow> ('q, 'w, 'm) heap_scheme \<Rightarrow>
   (go_error option \<times> ('q, 'w, 'm) heap_scheme) option" where
  "updateBoostPodLegacy D p h = do {
     (pod1, err) \<leftarrow> RevertResourceBoost (dQ D) (dJ D) (podAt h p);
     let h1 = setPod p pod1 h;
     case err of
       Some e \<Rightarrow> Some (Some (Errorf ''failed to update pod spec'' [e]), h1)
     | None \<Rightarrow>
         (case UpdatePod (dK D) pod1 (apiState h1) of
            (err2, pod2, w2) \<Rightarrow> Some (err2, (setPod p pod2 h1)\<lparr>apiState := w2\<rparr>))
   }"

definition untrack :: "string \<Rightarrow> 'q boost \<Rightarrow> 'q boost" where
  "untrack name b = b\<lparr>trackedPods := DAList.delete name (trackedPods b)\<rparr>"

definition revertResources ::
  "('q, 'd, 'w) deps \<Rightarrow> go_runtime \<Rightarrow> ref \<Rightarrow> ref \<Rightarrow> ('q, 'w, 'm) heap_scheme \<Rightarrow>
   (go_error option \<times> ('q, 'w, 'm) heap_scheme) option" where
  "revertResources D rt r p h = do {
     (err, h1) \<leftarrow> (if legacyRevertMode (boostAt h r) then updateBoostPodLegacy D p h
                     else updateBoostPod D p h);
     case err of
       Some e \<Rightarrow> Some (Some e, h1)
     | None \<Rightarrow>
         (let h2 = setBoost r (untrack (podName (podAt h1 p)) (boostAt h1 r)) h1
          in Some (None, updateStats D rt r (PodDeleteEvent p) h2))
   }"

definition boostUpsertPod ::
  "('q, 'd, 'w) deps \<Rightarrow> go_runtime \<Rightarrow> ref \<Rightarrow> ref \<Rightarrow> ('q, 'w, 'm) heap_scheme \<Rightarrow>
   (go_error option \<times> ('q, 'w, 'm) heap_scheme) option" where
  "boostUpsertPod D rt r p h =
     (let b = boostAt h r;
          name = podName (podAt h p);
          existing = (DAList.lookup (trackedPods b) name \<noteq> None);
          h1 = setBoost r (b\<lparr>trackedPods := DAList.update name p (trackedPods b)\<rparr>) h;
          statsEvent = (if existing then PodUpdateEvent p else PodCreateEvent p);
          h2 = updateStats D rt r statsEvent h1
      in case DAList.lookup (durationPolicies b) PodConditionPolicyName of
           None \<Rightarrow> Some (None, h2)
         | Some condPolicy \<Rightarrow>
             (if \<not> validatePolicyOnPod rt condPolicy (podAt h2 p) then do {
                (err, h3) \<leftarrow> revertResources D rt r p h2;
                case err of
                  Some e \<Rightarrow> Some (Some (Errorf ''pod resources reversion failed'' [e]), h3)
                | None \<Rightarrow> Some (None, h3)
              }
              else Some (None, h2)))"

definition boostDeletePod ::
  "('q, 'd, 'w) deps \<Rightarrow> go_runtime \<Rightarrow> ref \<Rightarrow> ref \<Rightarrow> ('q, 'w, 'm) heap_scheme \<Rightarrow>
   go_error option \<times> ('q, 'w, 'm) heap_scheme" where
  "boostDeletePod D rt r p h =
     (let h1 = setBoost r (untrack (podName (podAt h p)) (boostAt h r)) h
      in (None, updateStats D rt r (PodDeleteEvent p) h1))"

definition RevertResources ::
  "('q, 'd, 'w) deps \<Rightarrow> go_runtime \<Rightarrow> ref \<Rightarrow> ref \<Rightarrow> ('q, 'w, 'm) heap_scheme \<Rightarrow>
   (go_error option \<times> ('q, 'w, 'm) heap_scheme) option" where
  "RevertResources D rt r p h = revertResources D rt r p h"

definition UpdateFromSpec ::
  "as_selector \<Rightarrow> ref \<Rightarrow> 'q startup_cpu_boost \<Rightarrow> ('q, 'w, 'm) heap_scheme \<Rightarrow>
   go_error option \<times> ('q, 'w, 'm) heap_scheme" where
  "UpdateFromSpec asSelector r boost h =
     (case asSelector (scbSelector boost) of
        Inl err \<Rightarrow> (Some err, h)
      | Inr sel \<Rightarrow>
          (case mapResourcePolicy (bsResourcePolicy (scbSpec boost)) of
             Inl err \<Rightarrow> (Some err, h)
           | Inr policies \<Rightarrow>
               (None, setBoost r ((boostAt h r)\<lparr>boostSelector := sel, resourcePolicies := policies,
                  durationPolicies := mapDurationPolicy (bsDurationPolicy (scbSpec boost))\<rparr>) h)))"

section \<open>The policies of a boost\<close>

definition one_policy :: "'q container_policy_spec \<Rightarrow> bool" where
  "one_policy cp \<longleftrightarrow> (cpFixedResources cp = None) \<noteq> (cpPercentageIncrease cp = None)"

lemma policyOfSpec_count: "snd (policyOfSpec cp) = 1 \<longleftrightarrow> one_policy cp"
  by (simp add: policyOfSpec_def one_policy_def split: option.splits)

lemma policyOfSpec_Some: "one_policy cp \<Longrightarrow> \<exists>p. policyOfSpec cp = (Some p, 1)"
  by (auto simp: policyOfSpec_def one_policy_def split: option.splits)

text \<open>The policies in force, when every entry defines exactly one: the last entry of a name wins.\<close>

definition policy_of :: "'q container_policy_spec list \<Rightarrow> string \<Rightarrow> 'q container_policy option" where
  "policy_of cps name =
     Option.bind (List.find (\<lambda>cp. cpContainerName cp = name) (rev cps)) (\<lambda>cp. fst (policyOfSpec cp))"

lemma mapResourcePolicyLoop_errs:
  "(fst (mapResourcePolicyLoop cps errs ps) = []) = (errs = [] \<and> (\<forall>cp \<in> set cps. one_policy cp))"
proof (induction cps arbitrary: errs ps)
  case (Cons cp rest)
  obtain pol cnt where pc: "policyOfSpec cp = (pol, cnt)" by fastforce
  show ?case
  proof (cases "one_policy cp")
    case True
    then obtain p where "policyOfSpec cp = (Some p, 1)" using policyOfSpec_Some by blast
    with True Cons.IH show ?thesis by simp
  next
    case False
    with pc policyOfSpec_count [of cp] have "cnt \<noteq> 1" by simp
    with False pc Cons.IH show ?thesis by simp
  qed
qed simp

lemma mapResourcePolicyLoop_lookup:
  assumes "\<forall>cp \<in> set cps. one_policy cp"
  shows "DAList.lookup (snd (mapResourcePolicyLoop cps errs ps)) n =
         (case policy_of cps n of Some p \<Rightarrow> Some p | None \<Rightarrow> DAList.lookup ps n)"
  using assms
proof (induction cps arbitrary: errs ps)
  case Nil
  then show ?case by (simp add: policy_of_def)
next
  case (Cons cp rest)
  then obtain p where p: "policyOfSpec cp = (Some p, 1)" using policyOfSpec_Some by fastforce
  show ?case
  proof (cases "List.find (\<lambda>cp. cpContainerName cp = n) (rev rest)")
    case None
    then have "policy_of rest n = None" by (simp add: policy_of_def)
    moreover have "policy_of (cp # rest) n = (if cpContainerName cp = n then Some p else None)"
      using None p by (simp add: policy_of_def find_snoc)
    ultimately show ?thesis using Cons p by (simp add: lookup_update)
  next
    case (Some c)
    then have "c \<in> set rest" by (auto dest: find_SomeD)
    with Cons.prems have "one_policy c" by simp
    then obtain q where "policyOfSpec c = (Some q, 1)" using policyOfSpec_Some by blast
    with Some have "policy_of rest n = Some q" "policy_of (cp # rest) n = Some q"
      by (simp_all add: policy_of_def find_snoc)
    with Cons p show ?thesis by simp
  qed
qed

lemma mapResourcePolicy_ok_iff:
  "(\<exists>ps. mapResourcePolicy spec = Inr ps) \<longleftrightarrow> (\<forall>cp \<in> set (rpContainerPolicies spec). one_policy cp)"
  using mapResourcePolicyLoop_errs [of "rpContainerPolicies spec" "[]" DAList.empty]
  by (auto simp: mapResourcePolicy_def errors_Join_def split: prod.splits)

lemma mapResourcePolicy_lookup:
  assumes "mapResourcePolicy spec = Inr ps"
  shows "DAList.lookup ps n = policy_of (rpContainerPolicies spec) n"
proof -
  from assms mapResourcePolicy_ok_iff have "\<forall>cp \<in> set (rpContainerPolicies spec). one_policy cp" by blast
  from mapResourcePolicyLoop_lookup [OF this, of "[]" DAList.empty n] assms show ?thesis
    by (auto simp: mapResourcePolicy_def errors_Join_def split: prod.splits if_splits option.splits)
qed

lemma mapDurationPolicy_lookup:
  "DAList.lookup (mapDurationPolicy spec) FixedDurationPolicyName =
     map_option (\<lambda>f. NewFixedDurationPolicy (fixedPolicyToDuration f)) (dpFixed spec)"
  "DAList.lookup (mapDurationPolicy spec) PodConditionPolicyName =
     map_option (\<lambda>c. NewPodConditionPolicy (pcType c) (pcStatus c)) (dpPodCondition spec)"
  by (simp_all add: mapDurationPolicy_def Let_def split: option.splits)

section \<open>What an operation on a boost leaves alone\<close>

text \<open>
  An operation on the boost \<open>r\<close> changes no other boost, and of \<open>r\<close> only the tracked pods and the
  statistics; it registers and allocates nothing, and the pods keep their names.
\<close>

definition same_identity :: "'q boost \<Rightarrow> 'q boost \<Rightarrow> bool" where
  "same_identity b b' \<longleftrightarrow> b' = b\<lparr>trackedPods := trackedPods b', boostStats := boostStats b'\<rparr>"

definition boost_frame :: "ref \<Rightarrow> ('q, 'w, 'm) heap_scheme \<Rightarrow> ('q, 'w, 'm) heap_scheme \<Rightarrow> bool" where
  "boost_frame r h h' \<longleftrightarrow>
     (\<forall>r'. r' \<noteq> r \<longrightarrow> boostAt h' r' = boostAt h r') \<and> same_identity (boostAt h r) (boostAt h' r) \<and>
     nextBoost h' = nextBoost h \<and> nextPod h' = nextPod h \<and> heap.more h' = heap.more h \<and>
     (\<forall>p. same_key (podAt h p) (podAt h' p)) \<and>
     (\<forall>ns. BoostConfigurations ns (metricsState h') = BoostConfigurations ns (metricsState h))"

lemma same_identity_refl [simp]: "same_identity b b"
  by (simp add: same_identity_def)

lemma same_identity_trans: "same_identity a b \<Longrightarrow> same_identity b c \<Longrightarrow> same_identity a c"
  by (cases a, cases b, cases c) (simp add: same_identity_def)

lemma same_identity_fields:
  assumes "same_identity b b'"
  shows "boostName b' = boostName b" "boostNamespace b' = boostNamespace b"
    "boostSelector b' = boostSelector b" "durationPolicies b' = durationPolicies b"
    "resourcePolicies b' = resourcePolicies b" "legacyRevertMode b' = legacyRevertMode b"
proof -
  obtain ps st where b': "b' = b\<lparr>trackedPods := ps, boostStats := st\<rparr>"
    using assms by (simp add: same_identity_def)
  show "boostName b' = boostName b" "boostNamespace b' = boostNamespace b"
    "boostSelector b' = boostSelector b" "durationPolicies b' = durationPolicies b"
    "resourcePolicies b' = resourcePolicies b" "legacyRevertMode b' = legacyRevertMode b"
    by (simp_all add: b')
qed

lemma same_identity_updates [simp]:
  "same_identity b (b\<lparr>trackedPods := ps\<rparr>)" "same_identity b (b\<lparr>boostStats := st\<rparr>)"
  "same_identity b (untrack n b)"
  by (simp_all add: same_identity_def untrack_def)

lemma boost_frame_refl [simp]: "boost_frame r h h"
  by (simp add: boost_frame_def)

lemma boost_frame_trans:
  assumes "boost_frame r h1 h2" "boost_frame r h2 h3"
  shows "boost_frame r h1 h3"
proof -
  have "same_identity (boostAt h1 r) (boostAt h3 r)"
    using assms same_identity_trans unfolding boost_frame_def by blast
  with assms show ?thesis unfolding boost_frame_def by simp
qed

lemma boost_frame_setBoost: "same_identity (boostAt h r) b \<Longrightarrow> boost_frame r h (setBoost r b h)"
  by (simp add: boost_frame_def setBoost_def)

lemma boost_frame_setPod:
  "same_key (podAt h p) pod \<Longrightarrow> boost_frame r h ((setPod p pod h)\<lparr>apiState := w\<rparr>)"
  by (simp add: boost_frame_def setPod_def)

lemma boost_frame_metrics:
  "(\<And>ns. BoostConfigurations ns m = BoostConfigurations ns (metricsState h)) \<Longrightarrow>
   boost_frame r h (h\<lparr>metricsState := m\<rparr>)"
  by (simp add: boost_frame_def)

text \<open>The number of boosted containers of the tracked pods, as the annotations have it.\<close>

definition active_containers :: "'q json_api \<Rightarrow> ref \<Rightarrow> ('q, 'w, 'm) heap_scheme \<Rightarrow> int" where
  "active_containers J r h =
     sum_list (map (\<lambda>(_, p). boostContainersLen J (podAt h p))
                   (DAList.impl_of (trackedPods (boostAt h r))))"

definition stats_fresh :: "'q json_api \<Rightarrow> ref \<Rightarrow> ('q, 'w, 'm) heap_scheme \<Rightarrow> bool" where
  "stats_fresh J r h \<longleftrightarrow>
     ActiveContainerBoosts (boostStats (boostAt h r)) = active_containers J r h \<and>
     BoostContainersActive (boostNamespace (boostAt h r)) (boostName (boostAt h r)) (metricsState h) =
       active_containers J r h"

lemma boostContainersLen_nonneg: "0 \<le> boostContainersLen J pod"
  by (simp add: boostContainersLen_def split: sum.splits)

lemma active_containers_nonneg: "0 \<le> active_containers J r h"
  unfolding active_containers_def
  by (rule sum_list_nonneg) (auto simp: boostContainersLen_nonneg)

lemma updateStats_pods [simp]:
  "podAt (updateStats D rt r e h) = podAt h"
  "trackedPods (boostAt (updateStats D rt r e h) r') = trackedPods (boostAt h r')"
  "apiState (updateStats D rt r e h) = apiState h"
  by (simp_all add: updateStats_def Let_def setBoost_def split: stats_event.splits)

lemma updateStats_frame: "boost_frame r h (updateStats D rt r e h)"
  by (simp add: updateStats_def Let_def setBoost_def boost_frame_def same_identity_def
           split: stats_event.splits)

lemma updateStats_total:
  "TotalContainerBoosts (boostStats (boostAt (updateStats D rt r e h) r)) =
     TotalContainerBoosts (boostStats (boostAt h r)) +
     (case e of PodCreateEvent p \<Rightarrow> boostContainersLen (dJ D) (podAt h p) | _ \<Rightarrow> 0)"
  "BoostContainersTotal (boostNamespace (boostAt h r)) (boostName (boostAt h r)) (metricsState (updateStats D rt r e h)) =
     BoostContainersTotal (boostNamespace (boostAt h r)) (boostName (boostAt h r)) (metricsState h) +
     (case e of PodCreateEvent p \<Rightarrow> boostContainersLen (dJ D) (podAt h p) | _ \<Rightarrow> 0)"
  by (simp_all add: updateStats_def Let_def setBoost_def split: stats_event.splits)

lemma updateStats_fresh:
  assumes "go_order (rangeOrder rt)"
  shows "stats_fresh (dJ D) r (updateStats D rt r e h)"
proof -
  have id: "same_identity (boostAt h r) (boostAt (updateStats D rt r e h) r)"
    using updateStats_frame [of r h D rt e] by (simp add: boost_frame_def)
  have "sum_list (map (\<lambda>(_, p). boostContainersLen (dJ D) (podAt h p))
          (alist_range (rangeOrder rt) (trackedPods (boostAt h r)))) =
        active_containers (dJ D) r (updateStats D rt r e h)"
    by (simp add: active_containers_def sum_list_alist_range [OF assms])
  then show ?thesis
    by (simp add: stats_fresh_def same_identity_fields [OF id])
       (simp add: updateStats_def Let_def setBoost_def split: stats_event.splits)
qed

section \<open>The patch objects\<close>

lemma buildPodPatch_total:
  assumes "\<And>p. \<exists>p' e. f p = Some (p', e) \<and> same_key p p'"
  shows "\<exists>p' r. buildPodPatch J p f = Some (p', r) \<and> same_key p p'"
proof (cases "MarshalPod J p")
  case (Inr s)
  obtain p' e where f: "f p = Some (p', e)" "same_key p p'" using assms by blast
  show ?thesis
  proof (cases e)
    case None
    with f Inr show ?thesis by (cases "MarshalPod J p'") (simp_all add: buildPodPatch_def)
  qed (use f Inr in \<open>simp add: buildPodPatch_def\<close>)
qed (simp add: buildPodPatch_def)

lemma revertBoostResources_key:
  "\<exists>p' e. revertBoostResources Q J p = Some (p', e) \<and> same_key p p'"
proof -
  obtain p' e where r: "revertBoostResources Q J p = Some (p', e)"
    using revertBoostResources_total by blast
  from revertBoostResources_frame [OF r] have "p' = p\<lparr>podContainers := podContainers p'\<rparr>" by blast
  then have "same_key p p'" by (metis pod.select_convs(1,2) pod.surjective pod.update_convs(5))
  with r show ?thesis by blast
qed

lemma RevertResourceBoost_key:
  "\<exists>p' e. RevertResourceBoost Q J p = Some (p', e) \<and> same_key p p'"
proof -
  obtain p' e where "revertBoostResources Q J p = Some (p', e)" "same_key p p'"
    using revertBoostResources_key by blast
  then show ?thesis by (cases e) (simp_all add: RevertResourceBoost_def revertBoostLabels_def)
qed

lemma data_total_resources: "data_total (revertBoostResourcesPatchData Q J)"
  unfolding data_total_def
proof
  fix p
  obtain p' r where "buildPodPatch J p (revertBoostResources Q J) = Some (p', r)" "same_key p p'"
    using buildPodPatch_total revertBoostResources_key by blast
  then show "\<exists>p' r. revertBoostResourcesPatchData Q J (PodObject p) = Some (PodObject p', r) \<and> same_key p p'"
    by (cases r) (simp_all add: revertBoostResourcesPatchData_def)
qed

lemma data_total_labels: "data_total (revertBoostLabelsPatchData J)"
  unfolding data_total_def
proof
  fix p
  have "\<And>p. \<exists>p' e. revertBoostLabels p = Some (p', e) \<and> same_key p p'"
    by (simp add: revertBoostLabels_def)
  then obtain p' r where "buildPodPatch J p revertBoostLabels = Some (p', r)" "same_key p p'"
    using buildPodPatch_total by blast
  then show "\<exists>p' r. revertBoostLabelsPatchData J (PodObject p) = Some (PodObject p', r) \<and> same_key p p'"
    by (simp add: revertBoostLabelsPatchData_def)
qed

section \<open>The outcome of the operations\<close>

text \<open>\<open>pod_only p h h'\<close>: nothing but the pod behind \<open>p\<close> and the API server changed.\<close>

definition pod_only :: "ref \<Rightarrow> ('q, 'w, 'm) heap_scheme \<Rightarrow> ('q, 'w, 'm) heap_scheme \<Rightarrow> bool" where
  "pod_only p h h' \<longleftrightarrow>
     h' = h\<lparr>podAt := (podAt h)(p := podAt h' p), apiState := apiState h'\<rparr> \<and>
     same_key (podAt h p) (podAt h' p)"

lemma pod_only_set:
  "same_key (podAt h p) pod \<Longrightarrow> pod_only p h ((setPod p pod h)\<lparr>apiState := w\<rparr>)"
  by (simp add: pod_only_def setPod_def)

lemma pod_only_trans: "pod_only p h1 h2 \<Longrightarrow> pod_only p h2 h3 \<Longrightarrow> pod_only p h1 h3"
  by (cases h1, cases h2, cases h3) (auto simp: pod_only_def, metis fun_upd_upd)

lemma pod_only_boosts:
  assumes "pod_only p h h'"
  shows "boostAt h' = boostAt h" "metricsState h' = metricsState h" "heap.more h' = heap.more h"
    "nextBoost h' = nextBoost h" "nextPod h' = nextPod h"
    "same_key (podAt h p) (podAt h' p)" "p' \<noteq> p \<Longrightarrow> podAt h' p' = podAt h p'"
proof -
  obtain pod w where h': "h' = h\<lparr>podAt := (podAt h)(p := pod), apiState := w\<rparr>"
    using assms by (auto simp: pod_only_def)
  show "boostAt h' = boostAt h" "metricsState h' = metricsState h" "heap.more h' = heap.more h"
    "nextBoost h' = nextBoost h" "nextPod h' = nextPod h" "p' \<noteq> p \<Longrightarrow> podAt h' p' = podAt h p'"
    by (simp_all add: h')
  show "same_key (podAt h p) (podAt h' p)" using assms by (simp add: pod_only_def)
qed

lemma pod_only_frame: "pod_only p h h' \<Longrightarrow> boost_frame r h h'"
  unfolding boost_frame_def using pod_only_boosts [of p h h'] by (metis same_identity_refl)

lemma updateBoostPod_outcome:
  assumes K: "client_laws (dK D)"
  shows "\<exists>e h'. updateBoostPod D p h = Some (e, h') \<and> pod_only p h h'"
proof -
  obtain e pod1 w1 where 1: "PatchPod (dK D) (Some ResizeSubResourceName)
      (revertBoostResourcesPatchData (dQ D) (dJ D)) (podAt h p) (apiState h) = Some (e, pod1, w1)"
    using client_laws.patch_returns [OF K data_total_resources] by blast
  note k1 = client_laws.patch_key [OF K data_total_resources 1]
  let ?h1 = "(setPod p pod1 h)\<lparr>apiState := w1\<rparr>"
  have h1: "pod_only p h ?h1" using k1 by (rule pod_only_set)
  show ?thesis
  proof (cases e)
    case None
    obtain e2 pod2 w2 where 2: "PatchPod (dK D) None (revertBoostLabelsPatchData (dJ D)) pod1 w1 =
        Some (e2, pod2, w2)"
      using client_laws.patch_returns [OF K data_total_labels] by blast
    note k2 = client_laws.patch_key [OF K data_total_labels 2]
    have "pod_only p ?h1 ((setPod p pod2 ?h1)\<lparr>apiState := w2\<rparr>)"
      by (rule pod_only_set) (simp add: setPod_def k2)
    with h1 have "pod_only p h ((setPod p pod2 ?h1)\<lparr>apiState := w2\<rparr>)" by (rule pod_only_trans)
    with 1 2 None show ?thesis by (simp add: updateBoostPod_def Let_def)
  next
    case (Some err)
    with 1 h1 show ?thesis by (simp add: updateBoostPod_def Let_def)
  qed
qed

lemma updateBoostPodLegacy_outcome:
  assumes K: "client_laws (dK D)"
  shows "\<exists>e h'. updateBoostPodLegacy D p h = Some (e, h') \<and> pod_only p h h'"
proof -
  obtain pod1 e where 1: "RevertResourceBoost (dQ D) (dJ D) (podAt h p) = Some (pod1, e)"
    and k1: "same_key (podAt h p) pod1" using RevertResourceBoost_key by blast
  obtain e2 pod2 w2 where 2: "UpdatePod (dK D) pod1 (apiState h) = (e2, pod2, w2)" by (metis prod_cases3)
  note k2 = client_laws.update_key [OF K 2]
  have h1: "pod_only p h (setPod p pod1 h)"
    using pod_only_set [OF k1, of "apiState h"] by (simp add: setPod_def)
  have "pod_only p h ((setPod p pod2 (setPod p pod1 h))\<lparr>apiState := w2\<rparr>)"
    by (rule pod_only_trans [OF h1], rule pod_only_set) (simp add: setPod_def k2)
  with 1 2 h1 show ?thesis
    by (cases e) (simp_all add: updateBoostPodLegacy_def Let_def setPod_def)
qed

text \<open>A revert fails and leaves every boost as it was, or it succeeds and untracks the pod.\<close>

lemma revertResources_outcome:
  assumes K: "client_laws (dK D)"
  obtains (failed) e h1 where "revertResources D rt r p h = Some (Some e, h1)" "pod_only p h h1"
  | (reverted) h1 where "pod_only p h h1"
      "revertResources D rt r p h = Some (None, updateStats D rt r (PodDeleteEvent p)
         (setBoost r (untrack (podName (podAt h p)) (boostAt h r)) h1))"
proof -
  obtain e h1 where u: "(if legacyRevertMode (boostAt h r) then updateBoostPodLegacy D p h
      else updateBoostPod D p h) = Some (e, h1)" and o: "pod_only p h h1"
    using updateBoostPod_outcome [OF K] updateBoostPodLegacy_outcome [OF K] by metis
  from pod_only_boosts [OF o] have b: "podName (podAt h1 p) = podName (podAt h p)" "boostAt h1 r = boostAt h r"
    by simp_all
  show thesis
  proof (cases e)
    case None
    with u b have "revertResources D rt r p h = Some (None, updateStats D rt r (PodDeleteEvent p)
         (setBoost r (untrack (podName (podAt h p)) (boostAt h r)) h1))"
      by (simp add: revertResources_def Let_def)
    with o show thesis by (rule reverted)
  next
    case (Some err)
    with u have "revertResources D rt r p h = Some (Some err, h1)" by (simp add: revertResources_def)
    then show thesis using o by (rule failed)
  qed
qed

lemma revertResources_frame:
  assumes K: "client_laws (dK D)" and r: "revertResources D rt r p h = Some (e, h')"
  shows "boost_frame r h h'"
  using K
proof (cases rule: revertResources_outcome [of D rt r p h])
  case (failed e' h1)
  with r show ?thesis by (simp add: pod_only_frame)
next
  case (reverted h1)
  let ?h2 = "setBoost r (untrack (podName (podAt h p)) (boostAt h r)) h1"
  have "boost_frame r h h1" using reverted(1) by (rule pod_only_frame)
  moreover have "boost_frame r h1 ?h2"
    by (rule boost_frame_setBoost) (simp add: pod_only_boosts [OF reverted(1)])
  moreover have "boost_frame r ?h2 (updateStats D rt r (PodDeleteEvent p) ?h2)" by (rule updateStats_frame)
  moreover have "h' = updateStats D rt r (PodDeleteEvent p) ?h2" using reverted(2) r by simp
  ultimately show ?thesis using boost_frame_trans by blast
qed

text \<open>
  The heap after \<^verbatim>\<open>UpsertPod\<close> has tracked the pod and updated the statistics, before it looks at
  the duration policy.
\<close>

definition upsert_tracked ::
  "('q, 'd, 'w) deps \<Rightarrow> go_runtime \<Rightarrow> ref \<Rightarrow> ref \<Rightarrow> ('q, 'w, 'm) heap_scheme \<Rightarrow> ('q, 'w, 'm) heap_scheme" where
  "upsert_tracked D rt r p h =
     updateStats D rt r
       (if DAList.lookup (trackedPods (boostAt h r)) (podName (podAt h p)) \<noteq> None
        then PodUpdateEvent p else PodCreateEvent p)
       (setBoost r ((boostAt h r)\<lparr>trackedPods :=
          DAList.update (podName (podAt h p)) p (trackedPods (boostAt h r))\<rparr>) h)"

definition ends_boost :: "go_runtime \<Rightarrow> 'q boost \<Rightarrow> 'q pod \<Rightarrow> bool" where
  "ends_boost rt b pod \<longleftrightarrow>
     (\<exists>policy. DAList.lookup (durationPolicies b) PodConditionPolicyName = Some policy \<and>
               \<not> validatePolicyOnPod rt policy pod)"

lemma upsert_tracked_pods:
  "podAt (upsert_tracked D rt r p h) = podAt h"
  "DAList.lookup (trackedPods (boostAt (upsert_tracked D rt r p h) r)) n =
     (if n = podName (podAt h p) then Some p else DAList.lookup (trackedPods (boostAt h r)) n)"
  by (simp_all add: upsert_tracked_def setBoost_def lookup_update)

lemma upsert_tracked_frame: "boost_frame r h (upsert_tracked D rt r p h)"
  unfolding upsert_tracked_def
  by (rule boost_frame_trans [OF boost_frame_setBoost updateStats_frame]) simp

lemma boostUpsertPod_eq:
  "boostUpsertPod D rt r p h =
     (if ends_boost rt (boostAt h r) (podAt h p) then
        map_option (map_prod (map_option (\<lambda>e. Errorf ''pod resources reversion failed'' [e])) id)
          (revertResources D rt r p (upsert_tracked D rt r p h))
      else Some (None, upsert_tracked D rt r p h))"
proof -
  have u: "boostUpsertPod D rt r p h =
     (case DAList.lookup (durationPolicies (boostAt h r)) PodConditionPolicyName of
        None \<Rightarrow> Some (None, upsert_tracked D rt r p h)
      | Some pol \<Rightarrow>
          (if \<not> validatePolicyOnPod rt pol (podAt h p) then do {
             (err, h3) \<leftarrow> revertResources D rt r p (upsert_tracked D rt r p h);
             case err of
               Some e \<Rightarrow> Some (Some (Errorf ''pod resources reversion failed'' [e]), h3)
             | None \<Rightarrow> Some (None, h3)
           }
           else Some (None, upsert_tracked D rt r p h)))"
    unfolding boostUpsertPod_def upsert_tracked_def Let_def updateStats_pods setBoost_def
    by (simp cong: option.case_cong)
  show ?thesis
  proof (cases "DAList.lookup (durationPolicies (boostAt h r)) PodConditionPolicyName")
    case None
    then show ?thesis by (simp add: u ends_boost_def)
  next
    case (Some pol)
    then show ?thesis
      by (cases "revertResources D rt r p (upsert_tracked D rt r p h)")
         (auto simp: u ends_boost_def split: option.splits)
  qed
qed

lemma boostUpsertPod_frame:
  assumes K: "client_laws (dK D)" and u: "boostUpsertPod D rt r p h = Some (e, h')"
  shows "boost_frame r h h'"
proof (cases "ends_boost rt (boostAt h r) (podAt h p)")
  case True
  with u obtain e' where "revertResources D rt r p (upsert_tracked D rt r p h) = Some (e', h')"
    by (auto simp: boostUpsertPod_eq)
  from revertResources_frame [OF K this] upsert_tracked_frame show ?thesis
    using boost_frame_trans by blast
next
  case False
  with u upsert_tracked_frame show ?thesis by (auto simp: boostUpsertPod_eq)
qed

lemma boostUpsertPod_returns:
  assumes K: "client_laws (dK D)"
  shows "\<exists>e h'. boostUpsertPod D rt r p h = Some (e, h')"
  using K
  by (cases rule: revertResources_outcome [of D rt r p "upsert_tracked D rt r p h"])
     (simp_all add: boostUpsertPod_eq)

text \<open>
  The pods tracked after an upsert: a failed revert keeps the pod, a successful one drops it;
  the other pods stay.
\<close>

lemma boostUpsertPod_tracked:
  assumes K: "client_laws (dK D)" and u: "boostUpsertPod D rt r p h = Some (e, h')"
  shows "DAList.lookup (trackedPods (boostAt h' r)) n =
     (if n = podName (podAt h p)
      then (if ends_boost rt (boostAt h r) (podAt h p) \<and> e = None then None else Some p)
      else DAList.lookup (trackedPods (boostAt h r)) n)"
proof (cases "ends_boost rt (boostAt h r) (podAt h p)")
  case True
  note pods = upsert_tracked_pods [of D rt r p h]
  from K show ?thesis
  proof (cases rule: revertResources_outcome [of D rt r p "upsert_tracked D rt r p h"])
    case (failed e' h1)
    with u True have "h' = h1" "e \<noteq> None" by (auto simp: boostUpsertPod_eq)
    with pod_only_boosts(1) [OF failed(2)] pods show ?thesis by auto
  next
    case (reverted h1)
    with u True have "e = None" and "trackedPods (boostAt h' r) =
        DAList.delete (podName (podAt h p)) (trackedPods (boostAt (upsert_tracked D rt r p h) r))"
      by (auto simp: boostUpsertPod_eq pods setBoost_def untrack_def)
    with True pods show ?thesis by simp
  qed
next
  case False
  with u upsert_tracked_pods [of D rt r p h] show ?thesis by (auto simp: boostUpsertPod_eq)
qed

text \<open>After an upsert without an error the statistics and the gauge are those of the tracked pods.\<close>

lemma revertResources_fresh:
  assumes K: "client_laws (dK D)" and o: "go_order (rangeOrder rt)"
    and r: "revertResources D rt r p h = Some (None, h')"
  shows "stats_fresh (dJ D) r h'"
  using K
proof (cases rule: revertResources_outcome [of D rt r p h])
  case (failed e h1)
  with r show ?thesis by simp
next
  case (reverted h1)
  with r have "h' = updateStats D rt r (PodDeleteEvent p)
      (setBoost r (untrack (podName (podAt h p)) (boostAt h r)) h1)" by simp
  then show ?thesis by (simp add: updateStats_fresh [OF o])
qed

lemma boostUpsertPod_fresh:
  assumes K: "client_laws (dK D)" and o: "go_order (rangeOrder rt)"
    and u: "boostUpsertPod D rt r p h = Some (None, h')"
  shows "stats_fresh (dJ D) r h'"
proof (cases "ends_boost rt (boostAt h r) (podAt h p)")
  case True
  with u have "revertResources D rt r p (upsert_tracked D rt r p h) = Some (None, h')"
    by (auto simp: boostUpsertPod_eq)
  then show ?thesis by (rule revertResources_fresh [OF K o])
next
  case False
  with u have "h' = upsert_tracked D rt r p h" by (simp add: boostUpsertPod_eq)
  then show ?thesis by (simp add: upsert_tracked_def updateStats_fresh [OF o])
qed

lemma boostDeletePod_frame: "boost_frame r h (snd (boostDeletePod D rt r p h))"
  unfolding boostDeletePod_def Let_def snd_conv
  by (rule boost_frame_trans [OF boost_frame_setBoost updateStats_frame]) simp

lemma boostDeletePod_fresh:
  "go_order (rangeOrder rt) \<Longrightarrow> stats_fresh (dJ D) r (snd (boostDeletePod D rt r p h))"
  by (simp add: boostDeletePod_def Let_def updateStats_fresh)

lemma boostDeletePod_tracked:
  "DAList.lookup (trackedPods (boostAt (snd (boostDeletePod D rt r p h)) r)) n =
     (if n = podName (podAt h p) then None else DAList.lookup (trackedPods (boostAt h r)) n)"
  by (simp add: boostDeletePod_def Let_def setBoost_def untrack_def)

lemma revertResources_total_boosts:
  assumes K: "client_laws (dK D)" and r: "revertResources D rt r p h = Some (e, h')"
  shows "TotalContainerBoosts (boostStats (boostAt h' r)) = TotalContainerBoosts (boostStats (boostAt h r))"
  using K
proof (cases rule: revertResources_outcome [of D rt r p h])
  case (failed e' h1)
  with r pod_only_boosts(1) [OF failed(2)] show ?thesis by simp
next
  case (reverted h1)
  with r have "h' = updateStats D rt r (PodDeleteEvent p)
      (setBoost r (untrack (podName (podAt h p)) (boostAt h r)) h1)" by simp
  then show ?thesis by (simp add: updateStats_total) (simp add: setBoost_def untrack_def)
qed

lemma boostUpsertPod_total_boosts:
  assumes K: "client_laws (dK D)" and u: "boostUpsertPod D rt r p h = Some (e, h')"
  shows "TotalContainerBoosts (boostStats (boostAt h' r)) =
     TotalContainerBoosts (boostStats (boostAt h r)) +
     (if DAList.lookup (trackedPods (boostAt h r)) (podName (podAt h p)) = None
      then boostContainersLen (dJ D) (podAt h p) else 0)"
proof -
  have t: "TotalContainerBoosts (boostStats (boostAt (upsert_tracked D rt r p h) r)) =
     TotalContainerBoosts (boostStats (boostAt h r)) +
     (if DAList.lookup (trackedPods (boostAt h r)) (podName (podAt h p)) = None
      then boostContainersLen (dJ D) (podAt h p) else 0)"
    by (simp add: upsert_tracked_def updateStats_total setBoost_def)
  show ?thesis
  proof (cases "ends_boost rt (boostAt h r) (podAt h p)")
    case True
    with u obtain e' where "revertResources D rt r p (upsert_tracked D rt r p h) = Some (e', h')"
      by (auto simp: boostUpsertPod_eq)
    from revertResources_total_boosts [OF K this] t show ?thesis by simp
  next
    case False
    with u t show ?thesis by (auto simp: boostUpsertPod_eq)
  qed
qed

end
