(* ===== verification/Namespaced_Objects.thy ===== *)
theory Namespaced_Objects
  imports Go_Prelude
begin

text \<open>
  \<^verbatim>\<open>internal/boost/util.go\<close>: \<^verbatim>\<open>namespacedObjects\<close>, the collection of the boost manager, a map from
  namespace to a map from name to object. The locale \<open>object_store\<close> is its contract, a map
  from pairs of name and namespace; it is interpreted on the definitions below.
\<close>

section \<open>The collection\<close>

record 't namespaced_objects =
  objects :: "(string, (string, 't) alist) alist"

definition newNamespacedObjects :: "'t namespaced_objects" where
  "newNamespacedObjects = \<lparr>objects = DAList.empty\<rparr>"

definition nsoPut :: "string \<Rightarrow> string \<Rightarrow> 't \<Rightarrow> 't namespaced_objects \<Rightarrow> 't namespaced_objects" where
  "nsoPut name namespace obj o' =
     (let namespaceObjects = (case DAList.lookup (objects o') namespace of
                                None \<Rightarrow> DAList.empty | Some m \<Rightarrow> m)
      in o'\<lparr>objects := DAList.update namespace (DAList.update name obj namespaceObjects) (objects o')\<rparr>)"

definition nsoGet :: "string \<Rightarrow> string \<Rightarrow> 't namespaced_objects \<Rightarrow> 't option" where
  "nsoGet name namespace o' =
     (case DAList.lookup (objects o') namespace of
        None \<Rightarrow> None
      | Some namespaceObjects \<Rightarrow> DAList.lookup namespaceObjects name)"

definition nsoList :: "(string list \<Rightarrow> string list) \<Rightarrow> string \<Rightarrow> 't namespaced_objects \<Rightarrow> 't list" where
  "nsoList ord namespace o' =
     (case DAList.lookup (objects o') namespace of
        None \<Rightarrow> []
      | Some namespaceObjects \<Rightarrow> map snd (alist_range ord namespaceObjects))"

definition nsoListAll :: "(string list \<Rightarrow> string list) \<Rightarrow> 't namespaced_objects \<Rightarrow> 't list" where
  "nsoListAll ord o' =
     concat (map (\<lambda>(_, namespaceObjects). map snd (alist_range ord namespaceObjects))
                 (alist_range ord (objects o')))"

definition nsoDelete :: "string \<Rightarrow> string \<Rightarrow> 't namespaced_objects \<Rightarrow> 't namespaced_objects" where
  "nsoDelete name namespace o' =
     (case DAList.lookup (objects o') namespace of
        None \<Rightarrow> o'
      | Some namespaceObjects \<Rightarrow>
          o'\<lparr>objects := DAList.update namespace (DAList.delete name namespaceObjects) (objects o')\<rparr>)"

section \<open>The contract\<close>

locale object_store =
  fixes empty :: 'o
    and put :: "string \<Rightarrow> string \<Rightarrow> 't \<Rightarrow> 'o \<Rightarrow> 'o"
    and get :: "string \<Rightarrow> string \<Rightarrow> 'o \<Rightarrow> 't option"
    and list :: "(string list \<Rightarrow> string list) \<Rightarrow> string \<Rightarrow> 'o \<Rightarrow> 't list"
    and list_all :: "(string list \<Rightarrow> string list) \<Rightarrow> 'o \<Rightarrow> 't list"
    and delete :: "string \<Rightarrow> string \<Rightarrow> 'o \<Rightarrow> 'o"
  assumes get_empty: "get n ns empty = None"
    and get_put: "get n' ns' (put n ns x s) = (if n = n' \<and> ns = ns' then Some x else get n' ns' s)"
    and get_delete: "get n' ns' (delete n ns s) = (if n = n' \<and> ns = ns' then None else get n' ns' s)"
    and list_mem: "go_order ord \<Longrightarrow> x \<in> set (list ord ns s) \<longleftrightarrow> (\<exists>n. get n ns s = Some x)"
    and list_all_mem: "go_order ord \<Longrightarrow> x \<in> set (list_all ord s) \<longleftrightarrow> (\<exists>n ns. get n ns s = Some x)"
begin

definition registered :: "'o \<Rightarrow> (string \<times> string) set" where
  "registered s = {(n, ns). get n ns s \<noteq> None}"

lemma registered_empty: "registered empty = {}"
  by (simp add: registered_def get_empty)

lemma registered_put: "registered (put n ns x s) = insert (n, ns) (registered s)"
  by (auto simp: registered_def get_put)

lemma registered_delete: "registered (delete n ns s) = registered s - {(n, ns)}"
  by (auto simp: registered_def get_delete)

lemma list_put: "go_order ord \<Longrightarrow> x \<in> set (list ord ns (put n ns x s))"
  by (auto simp: list_mem get_put)

lemma list_other_namespace:
  "go_order ord \<Longrightarrow> ns \<noteq> ns' \<Longrightarrow> set (list ord ns' (put n ns x s)) = set (list ord ns' s)"
  by (auto simp: list_mem get_put)

lemma list_sub_list_all: "go_order ord \<Longrightarrow> set (list ord ns s) \<subseteq> set (list_all ord s)"
  using list_mem list_all_mem by blast

lemma find_in_namespace:
  assumes "go_order ord"
  shows "(List.find P (list ord ns s) = None) = (\<forall>n x. get n ns s = Some x \<longrightarrow> \<not> P x)"
  using list_mem [OF assms] by (auto simp: find_None_iff)

lemma find_in_namespaceD:
  assumes "go_order ord" and "List.find P (list ord ns s) = Some x"
  shows "P x \<and> (\<exists>n. get n ns s = Some x)"
proof -
  from assms(2) have "P x \<and> x \<in> set (list ord ns s)"
    by (auto simp: find_Some_iff)
  with list_mem [OF assms(1)] show ?thesis by blast
qed

end

section \<open>The collection meets the contract\<close>

lemma nsoGet_new: "nsoGet n ns newNamespacedObjects = None"
  by (simp add: nsoGet_def newNamespacedObjects_def)

lemma nsoGet_put:
  "nsoGet n' ns' (nsoPut n ns x s) = (if n = n' \<and> ns = ns' then Some x else nsoGet n' ns' s)"
  by (auto simp: nsoGet_def nsoPut_def Let_def lookup_update split: option.splits)

lemma nsoGet_delete:
  "nsoGet n' ns' (nsoDelete n ns s) = (if n = n' \<and> ns = ns' then None else nsoGet n' ns' s)"
  by (auto simp: nsoGet_def nsoDelete_def lookup_update split: option.splits)

lemma nsoGet_iff:
  "nsoGet n ns s = Some x \<longleftrightarrow> (\<exists>m. DAList.lookup (objects s) ns = Some m \<and> DAList.lookup m n = Some x)"
  by (cases "DAList.lookup (objects s) ns") (simp_all add: nsoGet_def)

lemma nsoList_mem:
  assumes "go_order ord"
  shows "x \<in> set (nsoList ord ns s) \<longleftrightarrow> (\<exists>n. nsoGet n ns s = Some x)"
  by (cases "DAList.lookup (objects s) ns")
     (simp_all add: nsoList_def nsoGet_def alist_range_snd_mem [OF assms])

lemma nsoListAll_mem:
  assumes "go_order ord"
  shows "x \<in> set (nsoListAll ord s) \<longleftrightarrow> (\<exists>n ns. nsoGet n ns s = Some x)"
proof -
  have "x \<in> set (nsoListAll ord s) \<longleftrightarrow>
        (\<exists>(ns, m) \<in> set (alist_range ord (objects s)). x \<in> snd ` set (alist_range ord m))"
    by (simp add: nsoListAll_def case_prod_beta)
  also have "\<dots> \<longleftrightarrow> (\<exists>ns m. DAList.lookup (objects s) ns = Some m \<and> x \<in> snd ` set (alist_range ord m))"
    using alist_range_mem [OF assms, of _ _ "objects s"] by blast
  also have "\<dots> \<longleftrightarrow> (\<exists>n ns. nsoGet n ns s = Some x)"
    unfolding nsoGet_iff alist_range_snd_mem [OF assms] by blast
  finally show ?thesis .
qed

interpretation nso: object_store newNamespacedObjects nsoPut nsoGet nsoList nsoListAll nsoDelete
  by unfold_locales
     (simp_all add: nsoGet_new nsoGet_put nsoGet_delete nsoList_mem nsoListAll_mem)

end
