(* ===== verification/Boost_Manager.thy ===== *)
theory Boost_Manager
  imports Startup_Boost Namespaced_Objects
begin

text \<open>
  \<^verbatim>\<open>internal/boost/manager.go\<close>: the boost manager, which registers the boosts, finds the boost of a
  pod and keeps the pods that no boost matches. Its collections hold pointers, so the manager's
  state extends the heap of the boosts. Every exported operation holds the manager's mutex from
  its first to its last statement and is one state transformer; the time based check loop, which
  does not, is the subject of \<open>Revert_Pipeline\<close>.
\<close>

section \<open>State\<close>

record ('q, 'w) manager = "('q, 'w) heap" +
  regularBoosts :: "ref namespaced_objects"
  timedBoosts :: "ref namespaced_objects"
  orphanedPods :: "ref namespaced_objects"
  isRunning :: bool
  hasClient :: bool
  hasReconciler :: bool
  maxGoroutines :: nat

abbreviation DefaultMaxGoroutines :: nat where "DefaultMaxGoroutines \<equiv> 10"

abbreviation errStartupCPUBoostAlreadyExists :: go_error where
  "errStartupCPUBoostAlreadyExists \<equiv> OtherError ''startupCPUBoost already exists''"

text \<open>\<^verbatim>\<open>NewManagerWithTicker\<close>: the manager starts empty, on a heap and an API server.\<close>

definition NewManager :: "bool \<Rightarrow> ('q, 'w) heap \<Rightarrow> ('q, 'w) manager" where
  "NewManager client h =
     heap.extend h
       (manager.fields newNamespacedObjects newNamespacedObjects newNamespacedObjects
          False client False DefaultMaxGoroutines)"

section \<open>Finding boosts\<close>

definition GetRegularCPUBoost :: "string \<Rightarrow> string \<Rightarrow> ('q, 'w) manager \<Rightarrow> ref option" where
  "GetRegularCPUBoost name namespace m = nsoGet name namespace (regularBoosts m)"

definition getMatchingBoost :: "go_runtime \<Rightarrow> 'q pod \<Rightarrow> ('q, 'w) manager \<Rightarrow> ref option" where
  "getMatchingBoost rt pod m =
     List.find (\<lambda>r. Matches (boostAt m r) pod)
       (nsoList (rangeOrder rt) (podNamespace pod) (regularBoosts m))"

definition GetCPUBoostForPod :: "go_runtime \<Rightarrow> 'q pod \<Rightarrow> ('q, 'w) manager \<Rightarrow> ref option" where
  "GetCPUBoostForPod rt pod m = getMatchingBoost rt pod m"

section \<open>Registering pods in a new boost\<close>

text \<open>
  The loop that \<^verbatim>\<open>mapOrphanedPods\<close> and \<^verbatim>\<open>syncBoostPods\<close> share: it upserts the pods that satisfy
  \<open>cond\<close>, collects the errors and the pods that went through.
\<close>

fun upsertLoop ::
  "(ref \<Rightarrow> 'h \<Rightarrow> (go_error option \<times> 'h) option) \<Rightarrow> (ref \<Rightarrow> 'h \<Rightarrow> bool) \<Rightarrow> (go_error \<Rightarrow> go_error) \<Rightarrow>
   ref list \<Rightarrow> ref list \<Rightarrow> go_error list \<Rightarrow> 'h \<Rightarrow> (ref list \<times> go_error list \<times> 'h) option" where
  "upsertLoop upsert cond wrap [] oks errs h = Some (oks, errs, h)"
| "upsertLoop upsert cond wrap (p # ps) oks errs h =
     (if cond p h then do {
        (err, h1) \<leftarrow> upsert p h;
        case err of
          Some e \<Rightarrow> upsertLoop upsert cond wrap ps oks (errs @ [wrap e]) h1
        | None \<Rightarrow> upsertLoop upsert cond wrap ps (oks @ [p]) errs h1
      }
      else upsertLoop upsert cond wrap ps oks errs h)"

definition deleteOrphan :: "('q, 'w) manager \<Rightarrow> ref \<Rightarrow> ('q, 'w) manager" where
  "deleteOrphan m p =
     m\<lparr>orphanedPods := nsoDelete (podName (podAt m p)) (podNamespace (podAt m p)) (orphanedPods m)\<rparr>"

definition mapOrphanedPods ::
  "('q, 'd, 'w) deps \<Rightarrow> go_runtime \<Rightarrow> ref \<Rightarrow> ('q, 'w) manager \<Rightarrow>
   (go_error option \<times> ('q, 'w) manager) option" where
  "mapOrphanedPods D rt r m = do {
     let namespaceOrphanedPods =
       nsoList (rangeOrder rt) (boostNamespace (boostAt m r)) (orphanedPods m);
     (mappedOrphanedPods, errs, m1) \<leftarrow>
       upsertLoop (boostUpsertPod D rt r) (\<lambda>p h. Matches (boostAt h r) (podAt h p)) (\<lambda>e. e)
         namespaceOrphanedPods [] [] m;
     Some (errors_Join errs, foldl deleteOrphan m1 mappedOrphanedPods)
   }"

text \<open>The items of a pod list are fresh objects.\<close>

definition allocPods :: "'q pod list \<Rightarrow> ('q, 'w) manager \<Rightarrow> ref list \<times> ('q, 'w) manager" where
  "allocPods pods m =
     (let n = nextPod m
      in ([n ..< n + length pods],
          m\<lparr>podAt := (\<lambda>p. if n \<le> p \<and> p < n + length pods then pods ! (p - n) else podAt m p),
            nextPod := n + length pods\<rparr>))"

definition syncBoostPods ::
  "('q, 'd, 'w) deps \<Rightarrow> go_runtime \<Rightarrow> ref \<Rightarrow> ('q, 'w) manager \<Rightarrow>
   (go_error option \<times> ('q, 'w) manager) option" where
  "syncBoostPods D rt r m =
     (if \<not> hasClient m then Some (None, m)
      else case ListPods (dK D) (boostNamespace (boostAt m r)) BoostLabelKey (boostName (boostAt m r)) (apiState m) of
        Inl err \<Rightarrow> Some (Some (Errorf ''failed to list pods for boost'' [err]), m)
      | Inr pods \<Rightarrow>
          (if length pods = 0 then Some (None, m)
           else case allocPods pods m of
             (items, m0) \<Rightarrow> do {
               (synced, errs, m1) \<leftarrow>
                 upsertLoop (boostUpsertPod D rt r)
                   (\<lambda>p h. boostPod (boostAt h r) (podName (podAt h p)) = None)
                   (\<lambda>e. Errorf ''failed to sync pod'' [e]) items [] [] m0;
               Some (errors_Join errs, m1)
             }))"

definition postProcessNewBoost ::
  "('q, 'd, 'w) deps \<Rightarrow> go_runtime \<Rightarrow> ref \<Rightarrow> ('q, 'w) manager \<Rightarrow> ('q, 'w) manager option" where
  "postProcessNewBoost D rt r m = do {
     let b = boostAt m r;
     let m1 = (case DAList.lookup (durationPolicies b) FixedDurationPolicyName of
                 None \<Rightarrow> m
               | Some _ \<Rightarrow> m\<lparr>timedBoosts := nsoPut (boostName b) (boostNamespace b) r (timedBoosts m)\<rparr>);
     (err, m2) \<leftarrow> mapOrphanedPods D rt r m1;
     (err2, m3) \<leftarrow> syncBoostPods D rt r m2;
     Some m3
   }"

section \<open>Operations\<close>

text \<open>
  \<^verbatim>\<open>AddRegularCPUBoost\<close> calls a method of the boost first, so it panics on a nil boost. Its
  \<^verbatim>\<open>postProcessNewBoost\<close> is deferred and runs last.
\<close>

definition AddRegularCPUBoost ::
  "('q, 'd, 'w) deps \<Rightarrow> go_runtime \<Rightarrow> ref option \<Rightarrow> ('q, 'w) manager \<Rightarrow>
   (go_error option \<times> ('q, 'w) manager) option" where
  "AddRegularCPUBoost D rt boost m = do {
     r \<leftarrow> boost;
     let b = boostAt m r;
     (case nsoGet (boostName b) (boostNamespace b) (regularBoosts m) of
        Some _ \<Rightarrow> Some (Some errStartupCPUBoostAlreadyExists, m)
      | None \<Rightarrow> do {
          let m1 = m\<lparr>regularBoosts := nsoPut (boostName b) (boostNamespace b) r (regularBoosts m)\<rparr>;
          let m2 = m1\<lparr>metricsState := NewBoostConfiguration (boostNamespace b) (metricsState m1)\<rparr>;
          m3 \<leftarrow> postProcessNewBoost D rt r m2;
          Some (None, m3)
        })
   }"

definition DeleteRegularCPUBoost :: "string \<Rightarrow> string \<Rightarrow> ('q, 'w) manager \<Rightarrow> ('q, 'w) manager" where
  "DeleteRegularCPUBoost namespace name m =
     m\<lparr>regularBoosts := nsoDelete name namespace (regularBoosts m),
       timedBoosts := nsoDelete name namespace (timedBoosts m),
       metricsState := DeleteBoostConfiguration namespace (metricsState m)\<rparr>"

definition UpdateRegularCPUBoost ::
  "('q, 'd, 'w) deps \<Rightarrow> go_runtime \<Rightarrow> 'q startup_cpu_boost \<Rightarrow> ('q, 'w) manager \<Rightarrow>
   (go_error option \<times> ('q, 'w) manager) option" where
  "UpdateRegularCPUBoost D rt spec m =
     (case nsoGet (scbName spec) (scbNamespace spec) (regularBoosts m) of
        None \<Rightarrow> Some (None, m)
      | Some r \<Rightarrow>
          (case UpdateFromSpec (dSel D) r spec m of
             (Some err, m1) \<Rightarrow> Some (Some err, m1)
           | (None, m1) \<Rightarrow> do {
               m2 \<leftarrow> postProcessNewBoost D rt r m1;
               Some (None, m2)
             }))"

definition mgrUpsertPod ::
  "('q, 'd, 'w) deps \<Rightarrow> go_runtime \<Rightarrow> ref \<Rightarrow> ('q, 'w) manager \<Rightarrow>
   (ref option \<times> go_error option \<times> ('q, 'w) manager) option" where
  "mgrUpsertPod D rt p m =
     (case getMatchingBoost rt (podAt m p) m of
        Some r \<Rightarrow> do {
          (err, m1) \<leftarrow> boostUpsertPod D rt r p m;
          Some (Some r, err, (if err = None then deleteOrphan m1 p else m1))
        }
      | None \<Rightarrow>
          Some (None, None,
            m\<lparr>orphanedPods := nsoPut (podName (podAt m p)) (podNamespace (podAt m p)) p (orphanedPods m)\<rparr>))"

definition mgrDeletePod ::
  "('q, 'd, 'w) deps \<Rightarrow> go_runtime \<Rightarrow> ref \<Rightarrow> ('q, 'w) manager \<Rightarrow>
   ref option \<times> go_error option \<times> ('q, 'w) manager" where
  "mgrDeletePod D rt p m =
     (case getMatchingBoost rt (podAt m p) m of
        Some r \<Rightarrow> (case boostDeletePod D rt r p m of (err, m1) \<Rightarrow> (Some r, err, m1))
      | None \<Rightarrow> (None, None, deleteOrphan m p))"

definition SetStartupCPUBoostReconciler :: "('q, 'w) manager \<Rightarrow> ('q, 'w) manager" where
  "SetStartupCPUBoostReconciler m = m\<lparr>hasReconciler := True\<rparr>"

definition setRunning :: "bool \<Rightarrow> ('q, 'w) manager \<Rightarrow> ('q, 'w) manager" where
  "setRunning b m = m\<lparr>isRunning := b\<rparr>"

definition IsRunning :: "('q, 'w) manager \<Rightarrow> bool" where
  "IsRunning m = isRunning m"

section \<open>What the manager relies on in a boost\<close>

text \<open>
  The loops of the manager call \<^verbatim>\<open>UpsertPod\<close> of a boost. They rely on three things: the call
  returns, it stays within a frame \<open>frm\<close>, which is reflexive and transitive, and of the pods it
  changes only the one it is given.
\<close>

locale boost_api =
  fixes upsert :: "ref \<Rightarrow> ('q, 'w, 'm) heap_scheme \<Rightarrow> (go_error option \<times> ('q, 'w, 'm) heap_scheme) option"
    and frm :: "('q, 'w, 'm) heap_scheme \<Rightarrow> ('q, 'w, 'm) heap_scheme \<Rightarrow> bool"
  assumes returns: "\<exists>e h'. upsert p h = Some (e, h')"
    and keeps: "upsert p h = Some (e, h') \<Longrightarrow> frm h h'"
    and frm_refl: "frm h h"
    and frm_trans: "frm h1 h2 \<Longrightarrow> frm h2 h3 \<Longrightarrow> frm h1 h3"
    and other_pods: "upsert p h = Some (e, h') \<Longrightarrow> q \<noteq> p \<Longrightarrow> podAt h' q = podAt h q"
begin

lemma loop_returns: "\<exists>oks' errs' h'. upsertLoop upsert cond wrap ps oks errs h = Some (oks', errs', h')"
proof (induction ps arbitrary: oks errs h)
  case (Cons p ps)
  obtain e h1 where "upsert p h = Some (e, h1)" using returns by blast
  with Cons.IH show ?case by (cases "cond p h"; cases e) simp_all
qed simp

lemma loop_cases:
  assumes "upsertLoop upsert cond wrap (p # ps) oks errs h = Some R"
  obtains (skip) "\<not> cond p h" "upsertLoop upsert cond wrap ps oks errs h = Some R"
  | (ok) h1 where "cond p h" "upsert p h = Some (None, h1)"
      "upsertLoop upsert cond wrap ps (oks @ [p]) errs h1 = Some R"
  | (err) e h1 where "cond p h" "upsert p h = Some (Some e, h1)"
      "upsertLoop upsert cond wrap ps oks (errs @ [wrap e]) h1 = Some R"
proof (cases "cond p h")
  case False
  with assms show thesis by (simp add: skip)
next
  case True
  obtain e h1 where u: "upsert p h = Some (e, h1)" using returns by blast
  show thesis
  proof (cases e)
    case None
    with u True assms show thesis by (simp add: ok)
  next
    case (Some err)
    with u True assms show thesis by (simp add: err)
  qed
qed

lemma loop_frame:
  "upsertLoop upsert cond wrap ps oks errs h = Some (oks', errs', h') \<Longrightarrow> frm h h'"
proof (induction ps arbitrary: oks errs h)
  case Nil
  then show ?case by (simp add: frm_refl)
next
  case (Cons p ps)
  from Cons.prems show ?case
  proof (cases rule: loop_cases)
    case skip
    then show ?thesis using Cons.IH by blast
  next
    case (ok h1)
    then show ?thesis using Cons.IH keeps frm_trans by blast
  next
    case (err e h1)
    then show ?thesis using Cons.IH keeps frm_trans by blast
  qed
qed

lemma loop_errs_prefix:
  "upsertLoop upsert cond wrap ps oks errs h = Some (oks', errs', h') \<Longrightarrow>
   (\<exists>es. errs' = errs @ es) \<and> (\<exists>os. oks' = oks @ os \<and> set os \<subseteq> set ps)"
proof (induction ps arbitrary: oks errs h)
  case (Cons p ps)
  from Cons.prems show ?case
    by (cases rule: loop_cases) (use Cons.IH in fastforce)+
qed simp

lemma loop_other_pods:
  "upsertLoop upsert cond wrap ps oks errs h = Some (oks', errs', h') \<Longrightarrow> q \<notin> set ps \<Longrightarrow>
   podAt h' q = podAt h q"
proof (induction ps arbitrary: oks errs h)
  case (Cons p ps)
  from Cons.prems(1) show ?case
    by (cases rule: loop_cases) (use Cons.IH Cons.prems(2) other_pods in fastforce)+
qed simp

text \<open>A loop without an error has put every pod it passed over on the list or found it unfit.\<close>

lemma loop_no_error:
  assumes "upsertLoop upsert cond wrap ps oks errs h = Some (oks', [], h')" and "distinct ps"
    and "q \<in> set ps" and "q \<notin> set oks'"
  shows "\<exists>h1. frm h h1 \<and> podAt h1 q = podAt h q \<and> podAt h' q = podAt h q \<and> \<not> cond q h1"
  using assms
proof (induction ps arbitrary: oks errs h)
  case (Cons p ps)
  from Cons.prems(1) show ?case
  proof (cases rule: loop_cases)
    case skip
    show ?thesis
    proof (cases "q = p")
      case True
      with Cons.prems(2) loop_other_pods [OF skip(2)] have "podAt h' q = podAt h q" by simp
      with True skip(1) show ?thesis using frm_refl by blast
    next
      case False
      with Cons.prems skip Cons.IH show ?thesis by simp
    qed
  next
    case (ok h1)
    from loop_errs_prefix [OF ok(3)] have "p \<in> set oks'" by auto
    with Cons.prems(3,4) have q: "q \<noteq> p" "q \<in> set ps" by auto
    with Cons.IH [OF ok(3)] Cons.prems obtain h2 where
      "frm h1 h2" "podAt h2 q = podAt h1 q" "podAt h' q = podAt h1 q" "\<not> cond q h2" by auto
    moreover have "podAt h1 q = podAt h q" using other_pods [OF ok(2)] q by simp
    moreover have "frm h h2" using keeps [OF ok(2)] \<open>frm h1 h2\<close> frm_trans by blast
    ultimately show ?thesis by metis
  next
    case (err e h1)
    from loop_errs_prefix [OF err(3)] show ?thesis by simp
  qed
qed simp

end

text \<open>The boosts of this program meet the contract with every API client that keeps its own.\<close>

locale boost_client = client_laws "dK D" for D :: "('q, 'd, 'w) deps"

lemma boostUpsertPod_other_pods:
  assumes K: "client_laws (dK D)" and u: "boostUpsertPod D rt r p h = Some (e, h')" and q: "q \<noteq> p"
  shows "podAt h' q = podAt h q"
proof (cases "ends_boost rt (boostAt h r) (podAt h p)")
  case True
  have pods: "podAt (upsert_tracked D rt r p h) = podAt h" by (rule upsert_tracked_pods)
  from K show ?thesis
  proof (cases rule: revertResources_outcome [of D rt r p "upsert_tracked D rt r p h"])
    case (failed e' h1)
    with u True have "h' = h1" by (auto simp: boostUpsertPod_eq)
    with pod_only_boosts(7) [OF failed(2) q] pods show ?thesis by simp
  next
    case (reverted h1)
    with u True have "podAt h' = podAt h1" by (auto simp: boostUpsertPod_eq setBoost_def)
    with pod_only_boosts(7) [OF reverted(1) q] pods show ?thesis by simp
  qed
next
  case False
  with u upsert_tracked_pods(1) [of D rt r p h] show ?thesis by (auto simp: boostUpsertPod_eq)
qed

sublocale boost_client \<subseteq> ups: boost_api "boostUpsertPod D rt r" "boost_frame r" for rt r
proof unfold_locales
  have K: "client_laws (dK D)" by unfold_locales
  show "\<exists>e h'. boostUpsertPod D rt r p h = Some (e, h')" for p h
    by (rule boostUpsertPod_returns [OF K])
  show "boost_frame r h h'" if "boostUpsertPod D rt r p h = Some (e, h')" for p h e h'
    by (rule boostUpsertPod_frame [OF K that])
  show "podAt h' q = podAt h q" if "boostUpsertPod D rt r p h = Some (e, h')" "q \<noteq> p" for p h e h' q
    by (rule boostUpsertPod_other_pods [OF K that])
qed (auto intro: boost_frame_trans)

interpretation memb: boost_client "D\<lparr>dK := mem_client\<rparr>"
  for D :: "('q, 'd, 'q pod list) deps"
  unfolding boost_client_def by (simp add: mem.client_laws_axioms)

section \<open>The invariant of the manager\<close>

text \<open>
  A registered boost is an allocated object and is registered under its own name; a timed boost is
  the very boost that is registered under its name; every registered boost with a fixed duration
  is a timed boost; a tracked orphan is an allocated pod and stands under its own name.
\<close>

definition regular_inv :: "('q, 'w) manager \<Rightarrow> bool" where
  "regular_inv m \<longleftrightarrow> (\<forall>n ns r. nsoGet n ns (regularBoosts m) = Some r \<longrightarrow>
     boostName (boostAt m r) = n \<and> boostNamespace (boostAt m r) = ns \<and> r < nextBoost m)"

definition timed_inv :: "('q, 'w) manager \<Rightarrow> bool" where
  "timed_inv m \<longleftrightarrow> (\<forall>n ns r. nsoGet n ns (timedBoosts m) = Some r \<longrightarrow> nsoGet n ns (regularBoosts m) = Some r)"

definition fixed_timed :: "('q, 'w) manager \<Rightarrow> string \<Rightarrow> string \<Rightarrow> ref \<Rightarrow> bool" where
  "fixed_timed m n ns r \<longleftrightarrow>
     (DAList.lookup (durationPolicies (boostAt m r)) FixedDurationPolicyName \<noteq> None \<longrightarrow>
      nsoGet n ns (timedBoosts m) = Some r)"

definition orphan_inv :: "('q, 'w) manager \<Rightarrow> bool" where
  "orphan_inv m \<longleftrightarrow> (\<forall>n ns p. nsoGet n ns (orphanedPods m) = Some p \<longrightarrow>
     podName (podAt m p) = n \<and> podNamespace (podAt m p) = ns \<and> p < nextPod m)"

definition mgr_inv :: "('q, 'w) manager \<Rightarrow> bool" where
  "mgr_inv m \<longleftrightarrow> regular_inv m \<and> timed_inv m \<and> orphan_inv m \<and>
     (\<forall>n ns r. nsoGet n ns (regularBoosts m) = Some r \<longrightarrow> fixed_timed m n ns r)"

lemma more_fields:
  fixes m m' :: "('q, 'w) manager"
  assumes "heap.more m' = heap.more m"
  shows "regularBoosts m' = regularBoosts m" "timedBoosts m' = timedBoosts m"
    "orphanedPods m' = orphanedPods m" "hasClient m' = hasClient m" "isRunning m' = isRunning m"
    "hasReconciler m' = hasReconciler m" "maxGoroutines m' = maxGoroutines m"
  using assms by (cases m; cases m'; simp)+

lemma frame_identity:
  assumes "boost_frame r h h'"
  shows "same_identity (boostAt h r') (boostAt h' r')"
  using assms by (cases "r' = r") (simp_all add: boost_frame_def)

lemma boost_frame_inv:
  fixes m m' :: "('q, 'w) manager"
  assumes f: "boost_frame r m m'" and inv: "mgr_inv m"
  shows "mgr_inv m'"
proof -
  have more: "heap.more m' = heap.more m" using f by (simp add: boost_frame_def)
  have id: "boostName (boostAt m' x) = boostName (boostAt m x)"
    "boostNamespace (boostAt m' x) = boostNamespace (boostAt m x)"
    "durationPolicies (boostAt m' x) = durationPolicies (boostAt m x)" for x
    using same_identity_fields [OF frame_identity [OF f]] by simp_all
  have np: "nextBoost m' = nextBoost m" "nextPod m' = nextPod m"
    "podName (podAt m' p) = podName (podAt m p)" "podNamespace (podAt m' p) = podNamespace (podAt m p)" for p
    using f by (simp_all add: boost_frame_def)
  have "mgr_inv m' = mgr_inv m"
    unfolding mgr_inv_def regular_inv_def timed_inv_def orphan_inv_def fixed_timed_def
      more_fields [OF more] id np by (rule refl)
  with inv show ?thesis by simp
qed

lemma deleteOrphan_fields [simp]:
  "regularBoosts (deleteOrphan m p) = regularBoosts m" "timedBoosts (deleteOrphan m p) = timedBoosts m"
  "boostAt (deleteOrphan m p) = boostAt m" "nextBoost (deleteOrphan m p) = nextBoost m"
  "podAt (deleteOrphan m p) = podAt m" "nextPod (deleteOrphan m p) = nextPod m"
  "metricsState (deleteOrphan m p) = metricsState m"
  "nsoGet n ns (orphanedPods (deleteOrphan m p)) =
     (if podName (podAt m p) = n \<and> podNamespace (podAt m p) = ns then None else nsoGet n ns (orphanedPods m))"
  by (simp_all add: deleteOrphan_def nsoGet_delete)

lemma deleteOrphan_inv:
  assumes "mgr_inv m"
  shows "mgr_inv (deleteOrphan m p)"
proof -
  have "orphan_inv (deleteOrphan m p)"
    using assms unfolding mgr_inv_def orphan_inv_def deleteOrphan_fields by (metis option.distinct(1))
  with assms show ?thesis
    unfolding mgr_inv_def regular_inv_def timed_inv_def fixed_timed_def deleteOrphan_fields by blast
qed

lemma foldl_deleteOrphan_inv: "mgr_inv m \<Longrightarrow> mgr_inv (foldl deleteOrphan m ps)"
  by (induction ps arbitrary: m) (simp_all add: deleteOrphan_inv)

lemma allocPods_fields:
  "regularBoosts (snd (allocPods pods m)) = regularBoosts m"
  "timedBoosts (snd (allocPods pods m)) = timedBoosts m"
  "orphanedPods (snd (allocPods pods m)) = orphanedPods m"
  "boostAt (snd (allocPods pods m)) = boostAt m" "nextBoost (snd (allocPods pods m)) = nextBoost m"
  "metricsState (snd (allocPods pods m)) = metricsState m"
  "nextPod (snd (allocPods pods m)) = nextPod m + length pods"
  "p < nextPod m \<Longrightarrow> podAt (snd (allocPods pods m)) p = podAt m p"
  by (simp_all add: allocPods_def Let_def)

lemma allocPods_inv:
  assumes "mgr_inv m"
  shows "mgr_inv (snd (allocPods pods m))"
proof -
  have "orphan_inv (snd (allocPods pods m))"
    unfolding orphan_inv_def
  proof (intro allI impI)
    fix n ns p
    assume "nsoGet n ns (orphanedPods (snd (allocPods pods m))) = Some p"
    with assms have "podName (podAt m p) = n \<and> podNamespace (podAt m p) = ns \<and> p < nextPod m"
      by (simp add: mgr_inv_def orphan_inv_def allocPods_fields)
    then show "podName (podAt (snd (allocPods pods m)) p) = n \<and>
        podNamespace (podAt (snd (allocPods pods m)) p) = ns \<and> p < nextPod (snd (allocPods pods m))"
      by (simp add: allocPods_fields)
  qed
  with assms show ?thesis
    unfolding mgr_inv_def regular_inv_def timed_inv_def fixed_timed_def allocPods_fields by blast
qed

text \<open>The identity of the boost that a loop works on, and the collections of boosts, stay.\<close>

definition same_boosts :: "('q, 'w) manager \<Rightarrow> ('q, 'w) manager \<Rightarrow> bool" where
  "same_boosts m m' \<longleftrightarrow> (\<forall>r. same_identity (boostAt m r) (boostAt m' r)) \<and>
     regularBoosts m' = regularBoosts m \<and> timedBoosts m' = timedBoosts m \<and> nextBoost m' = nextBoost m \<and>
     (\<forall>ns. BoostConfigurations ns (metricsState m') = BoostConfigurations ns (metricsState m))"

lemma same_boosts_refl [simp]: "same_boosts m m"
  by (simp add: same_boosts_def)

lemma same_boosts_trans:
  assumes "same_boosts m1 m2" "same_boosts m2 m3"
  shows "same_boosts m1 m3"
proof -
  have "same_identity (boostAt m1 r) (boostAt m3 r)" for r
    using assms same_identity_trans unfolding same_boosts_def by blast
  with assms show ?thesis unfolding same_boosts_def by simp
qed

lemma boost_frame_same_boosts:
  fixes m m' :: "('q, 'w) manager"
  assumes "boost_frame r m m'"
  shows "same_boosts m m'"
proof -
  have "heap.more m' = heap.more m" using assms by (simp add: boost_frame_def)
  from more_fields(1,2) [OF this] frame_identity [OF assms] assms show ?thesis
    unfolding same_boosts_def boost_frame_def by blast
qed

lemma deleteOrphan_same_boosts: "same_boosts m (foldl deleteOrphan m ps)"
proof (induction ps arbitrary: m)
  case (Cons p ps)
  have "same_boosts m (deleteOrphan m p)" by (simp add: same_boosts_def deleteOrphan_def)
  with Cons show ?case using same_boosts_trans by (metis foldl_Cons)
qed simp

text \<open>
  \<^verbatim>\<open>postProcessNewBoost\<close> on a registered boost restores the one clause of the invariant that a new
  or a changed boost may break: a fixed duration makes it a timed boost.
\<close>

definition timed_put :: "ref \<Rightarrow> ('q, 'w) manager \<Rightarrow> ('q, 'w) manager" where
  "timed_put r m = (case DAList.lookup (durationPolicies (boostAt m r)) FixedDurationPolicyName of
       None \<Rightarrow> m
     | Some _ \<Rightarrow> m\<lparr>timedBoosts := nsoPut (boostName (boostAt m r)) (boostNamespace (boostAt m r)) r (timedBoosts m)\<rparr>)"

lemma timed_put_inv:
  assumes "regular_inv m" "timed_inv m" "orphan_inv m"
    and "nsoGet (boostName (boostAt m r)) (boostNamespace (boostAt m r)) (regularBoosts m) = Some r"
    and "\<And>n ns r'. nsoGet n ns (regularBoosts m) = Some r' \<Longrightarrow> r' \<noteq> r \<Longrightarrow> fixed_timed m n ns r'"
  shows "mgr_inv (timed_put r m)"
proof (cases "DAList.lookup (durationPolicies (boostAt m r)) FixedDurationPolicyName")
  case None
  have "fixed_timed m n ns r'" if "nsoGet n ns (regularBoosts m) = Some r'" for n ns r'
    using assms(5) [OF that] None by (cases "r' = r") (simp_all add: fixed_timed_def)
  with assms None show ?thesis by (simp add: mgr_inv_def timed_put_def)
next
  case (Some pol)
  have "regular_inv (timed_put r m)" "orphan_inv (timed_put r m)"
    using assms(1,3) Some by (simp_all add: timed_put_def regular_inv_def orphan_inv_def)
  moreover have "timed_inv (timed_put r m)"
    using assms(2,4) Some by (auto simp: timed_put_def timed_inv_def nsoGet_put)
  moreover have "fixed_timed (timed_put r m) n ns r'" if "nsoGet n ns (regularBoosts m) = Some r'" for n ns r'
  proof (cases "r' = r")
    case True
    with assms(1) that have "boostName (boostAt m r) = n" "boostNamespace (boostAt m r) = ns"
      by (auto simp: regular_inv_def)
    with True Some show ?thesis by (simp add: timed_put_def fixed_timed_def nsoGet_put)
  next
    case False
    have "\<not> (boostName (boostAt m r) = n \<and> boostNamespace (boostAt m r) = ns)"
      using that assms(4) False by auto
    with assms(5) [OF that False] Some show ?thesis by (auto simp: timed_put_def fixed_timed_def nsoGet_put)
  qed
  ultimately show ?thesis using Some by (simp add: mgr_inv_def timed_put_def)
qed

context boost_client
begin

lemma mapOrphanedPods_outcome:
  fixes m :: "('q, 'w) manager"
  shows "\<exists>e m'. mapOrphanedPods D rt r m = Some (e, m') \<and> same_boosts m m' \<and> (mgr_inv m \<longrightarrow> mgr_inv m')"
proof -
  obtain oks errs m1 where l: "upsertLoop (boostUpsertPod D rt r)
      (\<lambda>p h. Matches (boostAt h r) (podAt h p)) (\<lambda>e. e)
      (nsoList (rangeOrder rt) (boostNamespace (boostAt m r)) (orphanedPods m)) [] [] m = Some (oks, errs, m1)"
    using ups.loop_returns by blast
  note f = ups.loop_frame [OF l]
  have "same_boosts m (foldl deleteOrphan m1 oks)"
    using boost_frame_same_boosts [OF f] deleteOrphan_same_boosts same_boosts_trans by blast
  moreover have "mgr_inv m \<longrightarrow> mgr_inv (foldl deleteOrphan m1 oks)"
    using boost_frame_inv [OF f] foldl_deleteOrphan_inv by blast
  ultimately show ?thesis using l by (simp add: mapOrphanedPods_def Let_def)
qed

lemma syncBoostPods_outcome:
  fixes m :: "('q, 'w) manager"
  shows "\<exists>e m'. syncBoostPods D rt r m = Some (e, m') \<and> same_boosts m m' \<and> (mgr_inv m \<longrightarrow> mgr_inv m')"
proof (cases "hasClient m")
  case True
  show ?thesis
  proof (cases "ListPods (dK D) (boostNamespace (boostAt m r)) BoostLabelKey (boostName (boostAt m r)) (apiState m)")
    case (Inr pods)
    obtain items m0 where a: "allocPods pods m = (items, m0)" by fastforce
    then have m0: "m0 = snd (allocPods pods m)" by simp
    have s0: "same_boosts m m0" by (simp add: m0 allocPods_def Let_def same_boosts_def)
    obtain oks errs m1 where l: "upsertLoop (boostUpsertPod D rt r)
        (\<lambda>p h. boostPod (boostAt h r) (podName (podAt h p)) = None)
        (\<lambda>e. Errorf ''failed to sync pod'' [e]) items [] [] m0 = Some (oks, errs, m1)"
      using ups.loop_returns by blast
    note f = ups.loop_frame [OF l]
    have "same_boosts m m1" using s0 boost_frame_same_boosts [OF f] same_boosts_trans by blast
    moreover have "mgr_inv m \<longrightarrow> mgr_inv m1"
      using allocPods_inv boost_frame_inv [OF f] m0 by blast
    ultimately show ?thesis using True Inr a l by (simp add: syncBoostPods_def)
  qed (use True in \<open>simp add: syncBoostPods_def\<close>)
qed (simp add: syncBoostPods_def)

lemma postProcessNewBoost_outcome:
  "\<exists>m'. postProcessNewBoost D rt r m = Some m' \<and> same_boosts (timed_put r m) m' \<and>
        (mgr_inv (timed_put r m) \<longrightarrow> mgr_inv m')"
proof -
  obtain e m2 where 2: "mapOrphanedPods D rt r (timed_put r m) = Some (e, m2)"
    "same_boosts (timed_put r m) m2" "mgr_inv (timed_put r m) \<longrightarrow> mgr_inv m2"
    using mapOrphanedPods_outcome by blast
  obtain e' m3 where 3: "syncBoostPods D rt r m2 = Some (e', m3)" "same_boosts m2 m3"
    "mgr_inv m2 \<longrightarrow> mgr_inv m3" using syncBoostPods_outcome by blast
  from 2(1) 3(1) have "postProcessNewBoost D rt r m = Some m3"
    by (simp add: postProcessNewBoost_def Let_def timed_put_def)
  with 2 3 same_boosts_trans show ?thesis by blast
qed

end

end
