(* ===== verification/Manager_Invariant.thy ===== *)
theory Manager_Invariant
  imports Boost_Manager
begin

text \<open>
  The operations of the boost manager: what each does on every branch, that each returns and keeps
  the invariant \<open>mgr_inv\<close>, and the states that sequences of operations reach.
\<close>

section \<open>The operations keep the invariant\<close>

lemma same_boosts_get:
  "same_boosts m m' \<Longrightarrow> nsoGet n ns (regularBoosts m') = nsoGet n ns (regularBoosts m)"
  by (simp add: same_boosts_def)

lemma NewStartupCPUBoost_inv:
  fixes m :: "('q, 'w) manager"
  assumes "mgr_inv m" and n: "NewStartupCPUBoost asSel spec legacy m = (res, m')"
  shows "mgr_inv m'"
proof (cases "\<exists>r. res = Inr r")
  case True
  then obtain b where m': "m' = m\<lparr>boostAt := (boostAt m)(nextBoost m := b), nextBoost := nextBoost m + 1\<rparr>"
    using n by (auto simp: NewStartupCPUBoost_def Let_def split: sum.splits)
  have f: "regularBoosts m' = regularBoosts m" "timedBoosts m' = timedBoosts m"
    "orphanedPods m' = orphanedPods m" "podAt m' = podAt m" "nextPod m' = nextPod m"
    "nextBoost m' = nextBoost m + 1" "\<And>r. r < nextBoost m \<Longrightarrow> boostAt m' r = boostAt m r"
    by (simp_all add: m')
  have old: "r < nextBoost m" if "nsoGet x ns (regularBoosts m) = Some r" for x ns r
    using assms(1) that by (auto simp: mgr_inv_def regular_inv_def)
  have "regular_inv m'"
    using assms(1) old f(6,7) unfolding mgr_inv_def regular_inv_def f(1) by (metis less_Suc_eq Suc_eq_plus1)
  moreover have "fixed_timed m' x ns r" if "nsoGet x ns (regularBoosts m) = Some r" for x ns r
    using assms(1) that old [OF that] unfolding mgr_inv_def fixed_timed_def f(2) by (simp add: f(7))
  moreover have "timed_inv m'" "orphan_inv m'"
    using assms(1) unfolding mgr_inv_def timed_inv_def orphan_inv_def f(1-5) by blast+
  ultimately show ?thesis by (simp add: mgr_inv_def f(1))
next
  case False
  then have "m' = m" using n by (auto simp: NewStartupCPUBoost_def Let_def split: sum.splits)
  with assms(1) show ?thesis by simp
qed

lemma DeleteRegularCPUBoost_inv:
  assumes "mgr_inv m"
  shows "mgr_inv (DeleteRegularCPUBoost ns n m)"
proof -
  let ?m' = "DeleteRegularCPUBoost ns n m"
  have f: "boostAt ?m' = boostAt m" "nextBoost ?m' = nextBoost m" "orphanedPods ?m' = orphanedPods m"
    "podAt ?m' = podAt m" "nextPod ?m' = nextPod m"
    "\<And>n' ns'. nsoGet n' ns' (regularBoosts ?m') = (if n = n' \<and> ns = ns' then None else nsoGet n' ns' (regularBoosts m))"
    "\<And>n' ns'. nsoGet n' ns' (timedBoosts ?m') = (if n = n' \<and> ns = ns' then None else nsoGet n' ns' (timedBoosts m))"
    by (simp_all add: DeleteRegularCPUBoost_def nsoGet_delete)
  have reg: "nsoGet n' ns' (regularBoosts m) = Some r" if "nsoGet n' ns' (regularBoosts ?m') = Some r" for n' ns' r
    using that by (simp add: f(6) split: if_splits)
  have "regular_inv ?m'"
    using assms reg unfolding mgr_inv_def regular_inv_def f(1,2) by blast
  moreover have "timed_inv ?m'"
    using assms unfolding mgr_inv_def timed_inv_def f(6,7) by simp
  moreover have "orphan_inv ?m'"
    using assms unfolding mgr_inv_def orphan_inv_def f(3-5) by blast
  moreover have "fixed_timed ?m' n' ns' r" if "nsoGet n' ns' (regularBoosts ?m') = Some r" for n' ns' r
    using assms reg [OF that] that unfolding mgr_inv_def fixed_timed_def f(1,6,7) by (metis option.distinct(1))
  ultimately show ?thesis unfolding mgr_inv_def by blast
qed

lemma put_orphan_inv:
  assumes "mgr_inv m" and "p < nextPod m"
  shows "mgr_inv (m\<lparr>orphanedPods := nsoPut (podName (podAt m p)) (podNamespace (podAt m p)) p (orphanedPods m)\<rparr>)"
proof -
  let ?m' = "m\<lparr>orphanedPods := nsoPut (podName (podAt m p)) (podNamespace (podAt m p)) p (orphanedPods m)\<rparr>"
  have f: "boostAt ?m' = boostAt m" "nextBoost ?m' = nextBoost m" "regularBoosts ?m' = regularBoosts m"
    "timedBoosts ?m' = timedBoosts m" "podAt ?m' = podAt m" "nextPod ?m' = nextPod m"
    by simp_all
  have "orphan_inv ?m'"
    using assms by (auto simp: mgr_inv_def orphan_inv_def nsoGet_put)
  with assms(1) show ?thesis
    unfolding mgr_inv_def regular_inv_def timed_inv_def fixed_timed_def f by blast
qed

lemma UpdateFromSpec_effect:
  assumes "UpdateFromSpec asSel r spec h = (None, h')"
  obtains sel rp where "asSel (scbSelector spec) = Inr sel" "mapResourcePolicy (bsResourcePolicy (scbSpec spec)) = Inr rp"
    "h' = setBoost r ((boostAt h r)\<lparr>boostSelector := sel, resourcePolicies := rp,
            durationPolicies := mapDurationPolicy (bsDurationPolicy (scbSpec spec))\<rparr>) h"
  using assms by (auto simp: UpdateFromSpec_def split: sum.splits)

lemma UpdateFromSpec_error: "UpdateFromSpec asSel r spec h = (Some e, h') \<Longrightarrow> h' = h"
  by (auto simp: UpdateFromSpec_def split: sum.splits)

lemma update_timed_put_inv:
  fixes m :: "('q, 'w) manager"
  assumes inv: "mgr_inv m" and r: "nsoGet n ns (regularBoosts m) = Some r"
    and m1: "m1 = setBoost r ((boostAt m r)\<lparr>boostSelector := sel, resourcePolicies := rp, durationPolicies := dp\<rparr>) m"
  shows "mgr_inv (timed_put r m1)"
proof (rule timed_put_inv)
  have f: "nextBoost m1 = nextBoost m" "regularBoosts m1 = regularBoosts m" "timedBoosts m1 = timedBoosts m"
    "orphanedPods m1 = orphanedPods m" "podAt m1 = podAt m" "nextPod m1 = nextPod m"
    "\<And>r'. boostName (boostAt m1 r') = boostName (boostAt m r')"
    "\<And>r'. boostNamespace (boostAt m1 r') = boostNamespace (boostAt m r')"
    "\<And>r'. r' \<noteq> r \<Longrightarrow> boostAt m1 r' = boostAt m r'"
    by (simp_all add: m1 setBoost_def)
  show "regular_inv m1" "timed_inv m1" "orphan_inv m1"
    using inv unfolding mgr_inv_def regular_inv_def timed_inv_def orphan_inv_def f(1-8) by blast+
  show "nsoGet (boostName (boostAt m1 r)) (boostNamespace (boostAt m1 r)) (regularBoosts m1) = Some r"
    using inv r unfolding mgr_inv_def regular_inv_def f(1-8) by blast
  show "fixed_timed m1 n' ns' r'" if "nsoGet n' ns' (regularBoosts m1) = Some r'" "r' \<noteq> r" for n' ns' r'
    using inv that unfolding mgr_inv_def fixed_timed_def f(2,3) by (simp add: f(9))
qed

context boost_client
begin

text \<open>Registration: an error and no change for a taken name, otherwise the boost is registered.\<close>

text \<open>Registering a boost under a free name keeps the invariant.\<close>

lemma register_inv:
  fixes m :: "('q, 'w) manager"
  assumes inv: "mgr_inv m" and "r < nextBoost m"
    and free: "nsoGet (boostName (boostAt m r)) (boostNamespace (boostAt m r)) (regularBoosts m) = None"
  shows "mgr_inv (timed_put r (m\<lparr>regularBoosts :=
     nsoPut (boostName (boostAt m r)) (boostNamespace (boostAt m r)) r (regularBoosts m), metricsState := ms\<rparr>))"
    (is "mgr_inv (timed_put r ?m2)")
proof (rule timed_put_inv)
  have reg: "nsoGet n' ns' (regularBoosts ?m2) = (if boostName (boostAt m r) = n' \<and> boostNamespace (boostAt m r) = ns'
      then Some r else nsoGet n' ns' (regularBoosts m))" for n' ns'
    by (simp add: nsoGet_put)
  have f: "boostAt ?m2 = boostAt m" "nextBoost ?m2 = nextBoost m" "timedBoosts ?m2 = timedBoosts m"
    "orphanedPods ?m2 = orphanedPods m" "podAt ?m2 = podAt m" "nextPod ?m2 = nextPod m" by simp_all
  show "regular_inv ?m2" using inv assms(2) unfolding mgr_inv_def regular_inv_def reg f by auto
  show "timed_inv ?m2"
    using inv free unfolding mgr_inv_def timed_inv_def reg f by (metis option.distinct(1))
  show "orphan_inv ?m2" using inv unfolding mgr_inv_def orphan_inv_def f by blast
  show "nsoGet (boostName (boostAt ?m2 r)) (boostNamespace (boostAt ?m2 r)) (regularBoosts ?m2) = Some r"
    unfolding reg f by simp
  show "fixed_timed ?m2 n' ns' r'" if "nsoGet n' ns' (regularBoosts ?m2) = Some r'" "r' \<noteq> r" for n' ns' r'
  proof -
    from that have "nsoGet n' ns' (regularBoosts m) = Some r'" unfolding reg by (simp split: if_splits)
    with inv show ?thesis unfolding mgr_inv_def fixed_timed_def f by blast
  qed
qed

lemma AddRegularCPUBoost_outcome:
  fixes m :: "('q, 'w) manager"
  assumes "r < nextBoost m"
  defines "n \<equiv> boostName (boostAt m r)" and "ns \<equiv> boostNamespace (boostAt m r)"
  obtains (taken) r' where "nsoGet n ns (regularBoosts m) = Some r'"
      "AddRegularCPUBoost D rt (Some r) m = Some (Some errStartupCPUBoostAlreadyExists, m)"
  | (added) m' where "nsoGet n ns (regularBoosts m) = None"
      "AddRegularCPUBoost D rt (Some r) m = Some (None, m')"
      "\<And>n' ns'. nsoGet n' ns' (regularBoosts m') =
         (if n' = n \<and> ns' = ns then Some r else nsoGet n' ns' (regularBoosts m))"
      "\<And>ns'. BoostConfigurations ns' (metricsState m') =
         BoostConfigurations ns' (metricsState m) + (if ns' = ns then 1 else 0)"
      "\<And>r'. same_identity (boostAt m r') (boostAt m' r')"
      "mgr_inv m \<Longrightarrow> mgr_inv m'"
proof (cases "nsoGet n ns (regularBoosts m)")
  case (Some r')
  then show thesis by (intro taken) (simp_all add: AddRegularCPUBoost_def n_def ns_def)
next
  case None
  define m2 where "m2 = m\<lparr>regularBoosts := nsoPut n ns r (regularBoosts m),
    metricsState := NewBoostConfiguration ns (metricsState m)\<rparr>"
  obtain m' where p: "postProcessNewBoost D rt r m2 = Some m'" "same_boosts (timed_put r m2) m'"
    "mgr_inv (timed_put r m2) \<longrightarrow> mgr_inv m'" using postProcessNewBoost_outcome by blast
  have tp: "boostAt (timed_put r m2) = boostAt m" "regularBoosts (timed_put r m2) = nsoPut n ns r (regularBoosts m)"
    "metricsState (timed_put r m2) = NewBoostConfiguration ns (metricsState m)"
    by (simp_all add: timed_put_def m2_def split: option.splits)
  show thesis
  proof (rule added)
    show "nsoGet n ns (regularBoosts m) = None" by (rule None)
    show "AddRegularCPUBoost D rt (Some r) m = Some (None, m')"
      using None p(1) by (simp add: AddRegularCPUBoost_def n_def ns_def m2_def Let_def)
    show "nsoGet n' ns' (regularBoosts m') =
        (if n' = n \<and> ns' = ns then Some r else nsoGet n' ns' (regularBoosts m))" for n' ns'
      using same_boosts_get [OF p(2)] by (auto simp: tp nsoGet_put)
    show "BoostConfigurations ns' (metricsState m') =
        BoostConfigurations ns' (metricsState m) + (if ns' = ns then 1 else 0)" for ns'
      using p(2) unfolding same_boosts_def tp by simp
    show "same_identity (boostAt m r') (boostAt m' r')" for r'
      using p(2) unfolding same_boosts_def tp by blast
    assume "mgr_inv m"
    then have "mgr_inv (timed_put r m2)"
      unfolding m2_def n_def ns_def by (rule register_inv [OF _ assms(1) None [unfolded n_def ns_def]])
    with p(3) show "mgr_inv m'" by blast
  qed
qed

text \<open>An update: nothing for an unknown boost, an error and no change for an invalid one.\<close>

lemma UpdateRegularCPUBoost_outcome:
  fixes m :: "('q, 'w) manager"
  obtains (unknown) "nsoGet (scbName spec) (scbNamespace spec) (regularBoosts m) = None"
      "UpdateRegularCPUBoost D rt spec m = Some (None, m)"
  | (invalid) r e where "nsoGet (scbName spec) (scbNamespace spec) (regularBoosts m) = Some r"
      "UpdateRegularCPUBoost D rt spec m = Some (Some e, m)"
  | (updated) r sel rp m' where "nsoGet (scbName spec) (scbNamespace spec) (regularBoosts m) = Some r"
      "dSel D (scbSelector spec) = Inr sel" "mapResourcePolicy (bsResourcePolicy (scbSpec spec)) = Inr rp"
      "UpdateRegularCPUBoost D rt spec m = Some (None, m')"
      "same_boosts (timed_put r (setBoost r ((boostAt m r)\<lparr>boostSelector := sel, resourcePolicies := rp,
            durationPolicies := mapDurationPolicy (bsDurationPolicy (scbSpec spec))\<rparr>) m)) m'"
      "mgr_inv m \<Longrightarrow> mgr_inv m'"
proof (cases "nsoGet (scbName spec) (scbNamespace spec) (regularBoosts m)")
  case None
  then show thesis by (intro unknown) (simp_all add: UpdateRegularCPUBoost_def)
next
  case (Some r)
  obtain e m1 where u: "UpdateFromSpec (dSel D) r spec m = (e, m1)" by fastforce
  show thesis
  proof (cases e)
    case (Some e')
    with u have "m1 = m" by (simp add: UpdateFromSpec_error)
    with Some u \<open>nsoGet _ _ _ = Some r\<close> show thesis
      by (intro invalid [of r e']) (simp_all add: UpdateRegularCPUBoost_def)
  next
    case None
    with u obtain sel rp where s: "dSel D (scbSelector spec) = Inr sel"
      "mapResourcePolicy (bsResourcePolicy (scbSpec spec)) = Inr rp"
      "m1 = setBoost r ((boostAt m r)\<lparr>boostSelector := sel, resourcePolicies := rp,
            durationPolicies := mapDurationPolicy (bsDurationPolicy (scbSpec spec))\<rparr>) m"
      using UpdateFromSpec_effect by blast
    obtain m' where p: "postProcessNewBoost D rt r m1 = Some m'" "same_boosts (timed_put r m1) m'"
      "mgr_inv (timed_put r m1) \<longrightarrow> mgr_inv m'" using postProcessNewBoost_outcome by blast
    show thesis
    proof (rule updated)
      show "UpdateRegularCPUBoost D rt spec m = Some (None, m')"
        using u None Some p(1) by (simp add: UpdateRegularCPUBoost_def)
      show "mgr_inv m'" if "mgr_inv m"
        using p(3) update_timed_put_inv [OF that _ s(3)] Some by blast
    qed (use Some s p(2) in auto)
  qed
qed

lemma mgrUpsertPod_outcome:
  fixes m :: "('q, 'w) manager"
  obtains (orphan) "getMatchingBoost rt (podAt m p) m = None"
      "mgrUpsertPod D rt p m = Some (None, None,
         m\<lparr>orphanedPods := nsoPut (podName (podAt m p)) (podNamespace (podAt m p)) p (orphanedPods m)\<rparr>)"
  | (failed) r e m1 where "getMatchingBoost rt (podAt m p) m = Some r"
      "boostUpsertPod D rt r p m = Some (Some e, m1)" "mgrUpsertPod D rt p m = Some (Some r, Some e, m1)"
  | (tracked) r m1 where "getMatchingBoost rt (podAt m p) m = Some r"
      "boostUpsertPod D rt r p m = Some (None, m1)" "mgrUpsertPod D rt p m = Some (Some r, None, deleteOrphan m1 p)"
proof (cases "getMatchingBoost rt (podAt m p) m")
  case None
  then show thesis by (intro orphan) (simp_all add: mgrUpsertPod_def)
next
  case (Some r)
  obtain e m1 where u: "boostUpsertPod D rt r p m = Some (e, m1)" using ups.returns by blast
  with Some have "mgrUpsertPod D rt p m = Some (Some r, e, (if e = None then deleteOrphan m1 p else m1))"
    by (simp add: mgrUpsertPod_def)
  with Some u show thesis by (cases e) (simp_all add: failed tracked)
qed

lemma mgrUpsertPod_inv:
  assumes "mgr_inv m" and "p < nextPod m" and "mgrUpsertPod D rt p m = Some (b, e, m')"
  shows "mgr_inv m'"
proof (cases rule: mgrUpsertPod_outcome [of rt m p])
  case orphan
  with assms(3) put_orphan_inv [OF assms(1,2)] show ?thesis by auto
next
  case (failed r e' m1)
  with assms boost_frame_inv [OF ups.keeps [OF failed(2)]] show ?thesis by simp
next
  case (tracked r m1)
  with assms boost_frame_inv [OF ups.keeps [OF tracked(2)]] deleteOrphan_inv show ?thesis by auto
qed

lemma RevertResources_inv:
  fixes m :: "('q, 'w) manager"
  assumes "mgr_inv m" and "RevertResources D rt r p m = Some (e, m')"
  shows "mgr_inv m'"
proof -
  have "client_laws (dK D)" by unfold_locales
  from revertResources_frame [OF this] assms show ?thesis
    using boost_frame_inv unfolding RevertResources_def by blast
qed

end

lemma mgrDeletePod_inv:
  assumes "mgr_inv m" and "mgrDeletePod D rt p m = (b, e, m')"
  shows "mgr_inv m'"
proof (cases "getMatchingBoost rt (podAt m p) m")
  case None
  with assms deleteOrphan_inv show ?thesis by (auto simp: mgrDeletePod_def)
next
  case (Some r)
  with assms have "m' = snd (boostDeletePod D rt r p m)" by (auto simp: mgrDeletePod_def split: prod.splits)
  with boost_frame_inv [OF boostDeletePod_frame assms(1)] show ?thesis by simp
qed

section \<open>Reachable states\<close>

text \<open>
  The steps of the manager: the operations its callers run under the mutex, the revert that the
  check loop runs, the arrival of new boost and pod objects from the API, and changes of the API
  server by others. Every step takes the choices of the runtime at the time it runs.
\<close>

inductive mgr_step :: "('q, 'd, 'w) deps \<Rightarrow> ('q, 'w) manager \<Rightarrow> ('q, 'w) manager \<Rightarrow> bool"
  for D :: "('q, 'd, 'w) deps" where
  new_boost: "NewStartupCPUBoost (dSel D) spec legacy m = (res, m') \<Longrightarrow> mgr_step D m m'"
| new_pods: "mgr_step D m (snd (allocPods pods m))"
| add_boost: "r < nextBoost m \<Longrightarrow> AddRegularCPUBoost D rt (Some r) m = Some (e, m') \<Longrightarrow> mgr_step D m m'"
| update_boost: "UpdateRegularCPUBoost D rt spec m = Some (e, m') \<Longrightarrow> mgr_step D m m'"
| delete_boost: "mgr_step D m (DeleteRegularCPUBoost ns n m)"
| upsert_pod: "p < nextPod m \<Longrightarrow> mgrUpsertPod D rt p m = Some (b, e, m') \<Longrightarrow> mgr_step D m m'"
| delete_pod: "mgrDeletePod D rt p m = (b, e, m') \<Longrightarrow> mgr_step D m m'"
| revert_pod: "RevertResources D rt r p m = Some (e, m') \<Longrightarrow> mgr_step D m m'"
| set_reconciler: "mgr_step D m (SetStartupCPUBoostReconciler m)"
| set_running: "mgr_step D m (setRunning b m)"
| outside_world: "mgr_step D m (m\<lparr>apiState := w\<rparr>)"

inductive mgr_reachable :: "('q, 'd, 'w) deps \<Rightarrow> ('q, 'w) manager \<Rightarrow> bool"
  for D :: "('q, 'd, 'w) deps" where
  start: "mgr_reachable D (NewManager client h)"
| step: "mgr_reachable D m \<Longrightarrow> mgr_step D m m' \<Longrightarrow> mgr_reachable D m'"

lemma NewManager_fields [simp]:
  "regularBoosts (NewManager client h) = newNamespacedObjects"
  "timedBoosts (NewManager client h) = newNamespacedObjects"
  "orphanedPods (NewManager client h) = newNamespacedObjects"
  by (simp_all add: NewManager_def heap.defs manager.defs)

lemma NewManager_inv: "mgr_inv (NewManager client h)"
  by (simp add: mgr_inv_def regular_inv_def timed_inv_def orphan_inv_def nsoGet_new)

lemma running_fields:
  "regularBoosts (setRunning b m) = regularBoosts m" "timedBoosts (setRunning b m) = timedBoosts m"
  "orphanedPods (setRunning b m) = orphanedPods m" "boostAt (setRunning b m) = boostAt m"
  "nextBoost (setRunning b m) = nextBoost m" "podAt (setRunning b m) = podAt m"
  "nextPod (setRunning b m) = nextPod m"
  "regularBoosts (SetStartupCPUBoostReconciler m) = regularBoosts m"
  "timedBoosts (SetStartupCPUBoostReconciler m) = timedBoosts m"
  "orphanedPods (SetStartupCPUBoostReconciler m) = orphanedPods m"
  "boostAt (SetStartupCPUBoostReconciler m) = boostAt m"
  "nextBoost (SetStartupCPUBoostReconciler m) = nextBoost m"
  "podAt (SetStartupCPUBoostReconciler m) = podAt m"
  "nextPod (SetStartupCPUBoostReconciler m) = nextPod m"
  by (simp_all add: setRunning_def SetStartupCPUBoostReconciler_def)

lemma running_inv:
  "mgr_inv (setRunning b m) = mgr_inv m" "mgr_inv (SetStartupCPUBoostReconciler m) = mgr_inv m"
  unfolding mgr_inv_def regular_inv_def timed_inv_def orphan_inv_def fixed_timed_def running_fields
  by (rule refl)+

lemma world_inv: "mgr_inv (m\<lparr>apiState := w\<rparr>) = mgr_inv m"
proof -
  have f: "regularBoosts (m\<lparr>apiState := w\<rparr>) = regularBoosts m" "timedBoosts (m\<lparr>apiState := w\<rparr>) = timedBoosts m"
    "orphanedPods (m\<lparr>apiState := w\<rparr>) = orphanedPods m" "boostAt (m\<lparr>apiState := w\<rparr>) = boostAt m"
    "nextBoost (m\<lparr>apiState := w\<rparr>) = nextBoost m" "podAt (m\<lparr>apiState := w\<rparr>) = podAt m"
    "nextPod (m\<lparr>apiState := w\<rparr>) = nextPod m" by simp_all
  show ?thesis
    unfolding mgr_inv_def regular_inv_def timed_inv_def orphan_inv_def fixed_timed_def f by (rule refl)
qed

context boost_client
begin

lemma mgr_step_inv: "mgr_step D m m' \<Longrightarrow> mgr_inv m \<Longrightarrow> mgr_inv m'"
proof (induction rule: mgr_step.induct)
  case (add_boost r m rt e m')
  from add_boost(1) show ?case
    by (cases rule: AddRegularCPUBoost_outcome [of r m rt]) (use add_boost(2,3) in auto)
next
  case (update_boost rt spec m e m')
  show ?case by (cases rule: UpdateRegularCPUBoost_outcome [of spec m rt]) (use update_boost in auto)
qed (auto intro: NewStartupCPUBoost_inv allocPods_inv DeleteRegularCPUBoost_inv mgrUpsertPod_inv
       mgrDeletePod_inv RevertResources_inv simp: running_inv world_inv)

lemma mgr_reachable_mgr_inv: "mgr_reachable D m \<Longrightarrow> mgr_inv m"
  by (induction rule: mgr_reachable.induct) (auto intro: NewManager_inv mgr_step_inv)

end

end
