(* ===== verification/Sample_Pods.thy ===== *)
theory Sample_Pods
  imports K8s_Api
begin

text \<open>
  A pod with one container, on which theorems are instantiated. Nothing here models code of the
  repository.
\<close>

definition sample_labels :: "string gomap" where
  "sample_labels = Some (DAList.update ''app'' ''web'' DAList.empty)"

definition sample_container :: "int container" where
  "sample_container = \<lparr>ctrName = ''app'',
     ctrResources = \<lparr>Requests = Some (DAList.update ''cpu'' 10 DAList.empty),
                      Limits = Some (DAList.update ''cpu'' 20 DAList.empty)\<rparr>,
     ctrResizePolicy = []\<rparr>"

definition sample_pod :: "int pod" where
  "sample_pod = \<lparr>podName = ''web-1'', podNamespace = ''prod'', podLabels = sample_labels,
     podAnnotations = nil_map, podContainers = [sample_container], podInitContainers = [],
     podSpecResources = None, podConditions = []\<rparr>"

end
