(* ===== verification/Sample_Deps.thy ===== *)
theory Sample_Deps
  imports Startup_Boost Sample_Pods
begin

text \<open>
  Concrete libraries and objects on which the theorems are instantiated: quantities in nanocores, an
  API server that keeps its pods in a list, selectors that compare labels, and one boost object. Nothing here models code of the repository.
\<close>

definition sample_json :: "'q json_api" where
  "sample_json = \<lparr>
     MarshalAnnotation = (\<lambda>a. Inr ''{}''),
     UnmarshalAnnotation = (\<lambda>s. if s = ''{}'' then Inr \<lparr>BoostTimestamp = 0, InitCPURequests = nil_map, InitCPULimits = nil_map\<rparr>
                                 else Inl (OtherError ''unexpected input'')),
     MarshalPod = (\<lambda>p. Inr ''{}''),
     CreateMergePatch = (\<lambda>a b. Inr ''{}'') \<rparr>"

definition label_selector_matches :: "label_selector \<Rightarrow> string gomap \<Rightarrow> bool" where
  "label_selector_matches s labels =
     list_all (\<lambda>k. map_get labels k = map_get (matchLabels s) k)
       (case matchLabels s of None \<Rightarrow> [] | Some al \<Rightarrow> alist_keys al)"

definition sample_selector :: as_selector where
  "sample_selector s =
     (if matchExpressions s = [] then Inr (label_selector_matches s)
      else Inl (OtherError ''match expressions''))"

definition sample_deps :: "(int, int \<times> nat, int pod list) deps" where
  "sample_deps = \<lparr>dQ = nano_quantity, dJ = sample_json, dK = mem_client, dSel = sample_selector\<rparr>"

definition sample_rt :: go_runtime where
  "sample_rt = \<lparr>rangeOrder = (\<lambda>ks. ks), timeNow = 0\<rparr>"

definition sample_spec :: "int boost_spec" where
  "sample_spec = \<lparr>
     bsResourcePolicy = \<lparr>rpContainerPolicies = [\<lparr>cpContainerName = ''app'',
       cpPercentageIncrease = Some \<lparr>piValue = 50\<rparr>, cpFixedResources = None\<rparr>]\<rparr>,
     bsDurationPolicy = \<lparr>dpFixed = Some \<lparr>fdUnit = ''Seconds'', fdValue = 60\<rparr>, dpPodCondition = None\<rparr>\<rparr>"

definition sample_scb :: "int startup_cpu_boost" where
  "sample_scb = \<lparr>scbName = ''boost'', scbNamespace = ''prod'', scbLabels = nil_map, scbAnnotations = nil_map,
     scbSelector = \<lparr>matchLabels = sample_labels, matchExpressions = []\<rparr>,
     scbSpec = sample_spec,
     scbStatus = \<lparr>stActiveContainerBoosts = 0, stTotalContainerBoosts = 0, stConditions = []\<rparr>\<rparr>"

definition sample_boost :: "int boost" where
  "sample_boost = \<lparr>boostName = ''boost'', boostNamespace = ''prod'',
     boostSelector = label_selector_matches (scbSelector sample_scb),
     durationPolicies = mapDurationPolicy (bsDurationPolicy sample_spec),
     resourcePolicies = DAList.update ''app'' (NewPercentageContainerPolicy 50) DAList.empty,
     trackedPods = DAList.empty,
     boostStats = \<lparr>ActiveContainerBoosts = 0, TotalContainerBoosts = 0\<rparr>, legacyRevertMode = False\<rparr>"

text \<open>A heap with one pod and one boost, and the pod on the API server.\<close>

definition sample_heap :: "(int, int pod list) heap" where
  "sample_heap = \<lparr>podAt = (\<lambda>_. sample_pod), nextPod = 1, boostAt = (\<lambda>_. sample_boost), nextBoost = 1,
     metricsState = initMetrics, apiState = [sample_pod]\<rparr>"

lemma sample_client [simp]: "client_laws (dK sample_deps)"
  using mem.client_laws_axioms by (simp add: sample_deps_def)

lemma sample_order [simp]: "go_order (rangeOrder sample_rt)"
  by (simp add: sample_rt_def go_order_id)

end
