(* ===== verification/Manager_Operations.thy ===== *)
theory Manager_Operations
  imports Manager_Invariant Sample_Deps
begin

text \<open>
  What the operations of the boost manager achieve: which boost a pod gets, what registering,
  updating and deleting a boost change, and that a new boost takes over the pods that waited for it.
\<close>

section \<open>The pods a new boost takes over\<close>

lemma boost_frame_matches:
  assumes "boost_frame r h h'"
  shows "Matches (boostAt h' r') pod = Matches (boostAt h r') pod"
    "ends_boost rt (boostAt h' r') pod = ends_boost rt (boostAt h r') pod"
  using same_identity_fields [OF frame_identity [OF assms, of r']]
  by (simp_all add: Matches_def ends_boost_def)

lemma boost_frame_podName: "boost_frame r h h' \<Longrightarrow> podName (podAt h' p) = podName (podAt h p)"
  by (simp add: boost_frame_def)

context boost_client
begin

lemma loop_untouched:
  "upsertLoop (boostUpsertPod D rt r) cond wrap ps oks errs h = Some (oks', errs', h') \<Longrightarrow>
   n \<notin> (\<lambda>p. podName (podAt h p)) ` set ps \<Longrightarrow>
   DAList.lookup (trackedPods (boostAt h' r)) n = DAList.lookup (trackedPods (boostAt h r)) n"
proof (induction ps arbitrary: oks errs h)
  case (Cons p ps)
  have K: "client_laws (dK D)" by unfold_locales
  have step: "DAList.lookup (trackedPods (boostAt h1 r)) n = DAList.lookup (trackedPods (boostAt h r)) n \<and>
      n \<notin> (\<lambda>p. podName (podAt h1 p)) ` set ps" if u: "boostUpsertPod D rt r p h = Some (e, h1)" for e h1
  proof -
    have "podName (podAt h1 q) = podName (podAt h q)" for q
      using boost_frame_podName [OF ups.keeps [OF u]] by blast
    with Cons.prems(2) boostUpsertPod_tracked [OF K u, of n] show ?thesis by auto
  qed
  from Cons.prems(1) show ?case
  proof (cases rule: ups.loop_cases)
    case skip
    with Cons show ?thesis by simp
  next
    case (ok h1)
    with step [OF ok(2)] Cons.IH [OF ok(3)] show ?thesis by simp
  next
    case (err e h1)
    with step [OF err(2)] Cons.IH [OF err(3)] show ?thesis by simp
  qed
qed simp

text \<open>A loop over the pods that match: the ones it takes are tracked, unless they were due at once.\<close>

lemma loop_tracked:
  assumes "upsertLoop (boostUpsertPod D rt r) (\<lambda>p h. Matches (boostAt h r) (podAt h p)) wrap ps oks errs h =
             Some (oks', errs', h')"
    and "errs' = []" and "distinct (map (\<lambda>p. podName (podAt h p)) ps)" and "q \<in> set ps"
  shows "DAList.lookup (trackedPods (boostAt h' r)) (podName (podAt h q)) =
     (if Matches (boostAt h r) (podAt h q)
      then (if ends_boost rt (boostAt h r) (podAt h q) then None else Some q)
      else DAList.lookup (trackedPods (boostAt h r)) (podName (podAt h q)))"
  using assms
proof (induction ps arbitrary: oks errs h)
  case (Cons p ps)
  have K: "client_laws (dK D)" by unfold_locales
  from Cons.prems(1) show ?case
  proof (cases rule: ups.loop_cases)
    case skip
    show ?thesis
    proof (cases "q = p")
      case True
      with skip(1) loop_untouched [OF skip(2), of "podName (podAt h p)"] Cons.prems(3) show ?thesis by auto
    next
      case False
      with Cons.IH [OF skip(2)] Cons.prems show ?thesis by auto
    qed
  next
    case (ok h1)
    note fr = ups.keeps [OF ok(2)]
    have names: "podName (podAt h1 x) = podName (podAt h x)" for x using boost_frame_podName [OF fr] .
    show ?thesis
    proof (cases "q = p")
      case True
      have "podName (podAt h p) \<notin> (\<lambda>x. podName (podAt h1 x)) ` set ps"
        using Cons.prems(3) by (auto simp: names)
      from loop_untouched [OF ok(3) this] boostUpsertPod_tracked [OF K ok(2), of "podName (podAt h p)"] True ok(1)
      show ?thesis by simp
    next
      case False
      then have q: "q \<in> set ps" "podName (podAt h q) \<noteq> podName (podAt h p)"
        using Cons.prems(3,4) by (auto simp: image_iff)
      have "podAt h1 q = podAt h q" using ups.other_pods [OF ok(2)] False .
      with Cons.IH [OF ok(3) Cons.prems(2)] q Cons.prems(3) boost_frame_matches [OF fr]
        boostUpsertPod_tracked [OF K ok(2), of "podName (podAt h q)"]
      show ?thesis by (simp add: names)
    qed
  next
    case (err e h1)
    from ups.loop_errs_prefix [OF err(3)] Cons.prems(2) show ?thesis by simp
  qed
qed simp

end

context boost_api
begin

lemma loop_taken:
  assumes "upsertLoop upsert cond wrap ps oks errs h = Some (oks', errs', h')" and "distinct ps"
    and "q \<in> set oks'"
  shows "q \<in> set oks \<or> (\<exists>h1. q \<in> set ps \<and> frm h h1 \<and> podAt h1 q = podAt h q \<and> cond q h1)"
  using assms
proof (induction ps arbitrary: oks errs h)
  case (Cons p ps)
  have step: "q \<in> set oks2 \<or> (\<exists>h2. q \<in> set ps \<and> frm h h2 \<and> podAt h2 q = podAt h q \<and> cond q h2)"
    if u: "upsert p h = Some (e, h1)"
      and l: "upsertLoop upsert cond wrap ps oks2 errs2 h1 = Some (oks', errs', h')" for e h1 oks2 errs2
  proof (cases "q \<in> set oks2")
    case False
    with Cons.IH [OF l] Cons.prems(2,3) obtain h2 where
      "q \<in> set ps" "frm h1 h2" "podAt h2 q = podAt h1 q" "cond q h2" by auto
    moreover have "q \<noteq> p" using \<open>q \<in> set ps\<close> Cons.prems(2) by auto
    ultimately show ?thesis using other_pods [OF u] keeps [OF u] frm_trans by metis
  qed simp
  from Cons.prems(1) show ?case
  proof (cases rule: loop_cases)
    case skip
    with Cons.IH [OF skip(2)] Cons.prems(2,3) show ?thesis by auto
  next
    case (ok h1)
    with step [OF ok(2,3)] frm_refl show ?thesis by auto
  next
    case (err e h1)
    with step [OF err(2,3)] show ?thesis by auto
  qed
qed simp

end

lemma foldl_deleteOrphan_get:
  "nsoGet n ns (orphanedPods (foldl deleteOrphan m ps)) =
     (if \<exists>p \<in> set ps. podName (podAt m p) = n \<and> podNamespace (podAt m p) = ns then None
      else nsoGet n ns (orphanedPods m))"
  by (induction ps arbitrary: m) auto

lemma foldl_deleteOrphan_boostAt: "boostAt (foldl deleteOrphan m ps) = boostAt m"
  by (induction ps arbitrary: m) simp_all

lemma mgr_inv_orphan:
  "mgr_inv m \<Longrightarrow> nsoGet n ns (orphanedPods m) = Some p \<Longrightarrow> podName (podAt m p) = n \<and> podNamespace (podAt m p) = ns"
  unfolding mgr_inv_def orphan_inv_def by blast

lemma mgr_inv_regular:
  "mgr_inv m \<Longrightarrow> nsoGet n ns (regularBoosts m) = Some r \<Longrightarrow>
   boostName (boostAt m r) = n \<and> boostNamespace (boostAt m r) = ns \<and> r < nextBoost m"
  unfolding mgr_inv_def regular_inv_def by blast

lemma boost_frame_key:
  "boost_frame r h h' \<Longrightarrow> podName (podAt h' p) = podName (podAt h p) \<and> podNamespace (podAt h' p) = podNamespace (podAt h p)"
  by (simp add: boost_frame_def)

lemma boost_frame_orphans:
  fixes m m' :: "('q, 'w) manager"
  shows "boost_frame r m m' \<Longrightarrow> orphanedPods m' = orphanedPods m"
  by (rule more_fields(3)) (simp add: boost_frame_def)

lemma orphans_distinct:
  assumes "mgr_inv m" and "go_order ord"
  shows "distinct (map (\<lambda>p. podName (podAt m p)) (nsoList ord ns (orphanedPods m)))"
proof (cases "DAList.lookup (objects (orphanedPods m)) ns")
  case None
  then show ?thesis by (simp add: nsoList_def)
next
  case (Some al)
  have "podName (podAt m (snd x)) = fst x" if "x \<in> set (alist_range ord al)" for x
  proof -
    have "nsoGet (fst x) ns (orphanedPods m) = Some (snd x)"
      using that Some alist_range_mem [OF assms(2), of "fst x" "snd x" al] by (simp add: nsoGet_def)
    with mgr_inv_orphan [OF assms(1)] show ?thesis by blast
  qed
  then have "map (\<lambda>p. podName (podAt m p)) (nsoList ord ns (orphanedPods m)) = map fst (alist_range ord al)"
    using Some by (simp add: nsoList_def)
  with distinct_fst_alist_range [OF assms(2)] show ?thesis by simp
qed

context boost_client
begin

lemma orphans_matched:
  fixes m :: "('q, 'w) manager"
  assumes l: "upsertLoop (boostUpsertPod D rt r) (\<lambda>p h. Matches (boostAt h r) (podAt h p)) (\<lambda>e. e) ps [] [] m = Some (oks, [], m1)"
    and d: "distinct ps" and mem: "p \<in> set ps"
  shows "p \<in> set oks \<longleftrightarrow> Matches (boostAt m r) (podAt m p)"
proof
  assume "p \<in> set oks"
  from ups.loop_taken [OF l d this] obtain h1 where
    "boost_frame r m h1" "podAt h1 p = podAt m p" "Matches (boostAt h1 r) (podAt h1 p)" by auto
  with boost_frame_matches(1) [of r m h1] show "Matches (boostAt m r) (podAt m p)" by simp
next
  assume mt: "Matches (boostAt m r) (podAt m p)"
  show "p \<in> set oks"
  proof (rule ccontr)
    assume "p \<notin> set oks"
    from ups.loop_no_error [OF l d mem this] obtain h1 where
      "boost_frame r m h1" "podAt h1 p = podAt m p" "\<not> Matches (boostAt h1 r) (podAt h1 p)" by auto
    with boost_frame_matches(1) [of r m h1] mt show False by simp
  qed
qed

lemma mapOrphanedPods_takes_over:
  fixes m :: "('q, 'w) manager"
  assumes inv: "mgr_inv m" and o: "go_order (rangeOrder rt)"
    and s: "mapOrphanedPods D rt r m = Some (None, m')"
    and p: "nsoGet n (boostNamespace (boostAt m r)) (orphanedPods m) = Some p"
  shows "if Matches (boostAt m r) (podAt m p)
     then nsoGet n (boostNamespace (boostAt m r)) (orphanedPods m') = None \<and>
          boostPod (boostAt m' r) n = (if ends_boost rt (boostAt m r) (podAt m p) then None else Some p)
     else nsoGet n (boostNamespace (boostAt m r)) (orphanedPods m') = Some p \<and>
          boostPod (boostAt m' r) n = boostPod (boostAt m r) n"
proof -
  let ?ns = "boostNamespace (boostAt m r)" and ?ps = "nsoList (rangeOrder rt) (boostNamespace (boostAt m r)) (orphanedPods m)"
  let ?cond = "\<lambda>p h. Matches (boostAt h r) (podAt h p)"
  obtain oks errs m1 where l: "upsertLoop (boostUpsertPod D rt r) ?cond (\<lambda>e. e) ?ps [] [] m = Some (oks, errs, m1)"
    using ups.loop_returns by blast
  have "errors_Join errs = None" and m': "m' = foldl deleteOrphan m1 oks"
    using s l by (simp_all add: mapOrphanedPods_def Let_def)
  then have e: "errs = []" by (simp add: errors_Join_def split: if_splits)
  have dn: "distinct (map (\<lambda>p. podName (podAt m p)) ?ps)" by (rule orphans_distinct [OF inv o])
  then have d: "distinct ?ps" by (simp add: distinct_map)
  have own: "podName (podAt m q) = k \<and> podNamespace (podAt m q) = ?ns" if "nsoGet k ?ns (orphanedPods m) = Some q" for k q
    using mgr_inv_orphan [OF inv that] .
  have mem: "p \<in> set ?ps" using p by (auto simp: nsoList_mem [OF o])
  note fr = ups.loop_frame [OF l]
  have key: "podName (podAt m1 q) = podName (podAt m q)" "podNamespace (podAt m1 q) = podNamespace (podAt m q)" for q
    using boost_frame_key [OF fr] by simp_all
  have orph: "orphanedPods m1 = orphanedPods m"
    by (rule boost_frame_orphans [OF fr])
  have taken: "p \<in> set oks \<longleftrightarrow> Matches (boostAt m r) (podAt m p)"
    by (rule orphans_matched [OF l [unfolded e] d mem])
  have same: "q = p" if "q \<in> set oks" "podName (podAt m q) = n" for q
  proof -
    have "q \<in> set ?ps" using ups.loop_errs_prefix [OF l] that(1) by auto
    with that(2) dn mem own [OF p] show ?thesis by (auto simp: distinct_map inj_on_def)
  qed
  have "nsoGet n ?ns (orphanedPods m') = (if p \<in> set oks then None else Some p)"
  proof -
    have "(\<exists>q \<in> set oks. podName (podAt m q) = n \<and> podNamespace (podAt m q) = ?ns) \<longleftrightarrow> p \<in> set oks"
      using same own [OF p] by blast
    then show ?thesis unfolding m' foldl_deleteOrphan_get key orph p by presburger
  qed
  moreover have "boostPod (boostAt m' r) n = (if Matches (boostAt m r) (podAt m p)
      then (if ends_boost rt (boostAt m r) (podAt m p) then None else Some p) else boostPod (boostAt m r) n)"
    using loop_tracked [OF l e dn mem] own [OF p] by (simp add: m' foldl_deleteOrphan_boostAt boostPod_def)
  ultimately show ?thesis using taken by simp
qed

end

context boost_client
begin

lemma mgrUpsertPod_places:
  fixes m :: "('q, 'w) manager"
  shows "\<exists>b e m'. mgrUpsertPod D rt p m = Some (b, e, m') \<and> b = GetCPUBoostForPod rt (podAt m p) m \<and>
    (case b of
       None \<Rightarrow> e = None \<and> nsoGet (podName (podAt m p)) (podNamespace (podAt m p)) (orphanedPods m') = Some p
     | Some r \<Rightarrow>
         boostPod (boostAt m' r) (podName (podAt m p)) =
           (if ends_boost rt (boostAt m r) (podAt m p) \<and> e = None then None else Some p) \<and>
         nsoGet (podName (podAt m p)) (podNamespace (podAt m p)) (orphanedPods m') = (if e = None then None else nsoGet (podName (podAt m p)) (podNamespace (podAt m p)) (orphanedPods m)))"
proof -
  have K: "client_laws (dK D)" by unfold_locales
  show ?thesis
  proof (cases rule: mgrUpsertPod_outcome [of rt m p])
    case orphan
    then show ?thesis by (simp add: GetCPUBoostForPod_def nsoGet_put)
  next
    case (failed r e m1)
    have "orphanedPods m1 = orphanedPods m" using boost_frame_orphans [OF boostUpsertPod_frame [OF K failed(2)]] .
    with failed boostUpsertPod_tracked [OF K failed(2), of "podName (podAt m p)"] show ?thesis
      by (simp add: GetCPUBoostForPod_def boostPod_def)
  next
    case (tracked r m1)
    note fr = boostUpsertPod_frame [OF K tracked(2)]
    from tracked boostUpsertPod_tracked [OF K tracked(2), of "podName (podAt m p)"] boost_frame_key [OF fr, of p] show ?thesis
      by (simp add: GetCPUBoostForPod_def boostPod_def)
  qed
qed

end

context boost_client
begin

lemma UpdateRegularCPUBoost_places:
  fixes m :: "('q, 'w) manager"
  assumes inv: "mgr_inv m"
  shows "\<exists>e m'. UpdateRegularCPUBoost D rt spec m = Some (e, m') \<and>
    (case GetRegularCPUBoost (scbName spec) (scbNamespace spec) m of
       None \<Rightarrow> e = None \<and> m' = m
     | Some r \<Rightarrow>
         (case (dSel D (scbSelector spec), mapResourcePolicy (bsResourcePolicy (scbSpec spec))) of
            (Inr sel, Inr rp) \<Rightarrow>
              e = None \<and> boostSelector (boostAt m' r) = sel \<and> resourcePolicies (boostAt m' r) = rp \<and>
              durationPolicies (boostAt m' r) = mapDurationPolicy (bsDurationPolicy (scbSpec spec)) \<and>
              (dpFixed (bsDurationPolicy (scbSpec spec)) \<noteq> None \<longrightarrow>
                 nsoGet (scbName spec) (scbNamespace spec) (timedBoosts m') = Some r)
          | _ \<Rightarrow> e \<noteq> None \<and> m' = m))"
proof (cases rule: UpdateRegularCPUBoost_outcome [of spec m rt])
  case unknown
  then show ?thesis by (simp add: GetRegularCPUBoost_def)
next
  case (invalid r e)
  then have "UpdateFromSpec (dSel D) r spec m = (None, m1) \<Longrightarrow> False" for m1
    using postProcessNewBoost_outcome [of rt r m1] by (auto simp: UpdateRegularCPUBoost_def)
  then consider e1 where "dSel D (scbSelector spec) = Inl e1"
    | e1 where "mapResourcePolicy (bsResourcePolicy (scbSpec spec)) = Inl e1"
    unfolding UpdateFromSpec_def
    by (cases "dSel D (scbSelector spec)"; cases "mapResourcePolicy (bsResourcePolicy (scbSpec spec))") auto
  then show ?thesis
  proof cases
    case 1
    with invalid show ?thesis by (simp add: GetRegularCPUBoost_def)
  next
    case 2
    with invalid show ?thesis by (cases "dSel D (scbSelector spec)") (simp_all add: GetRegularCPUBoost_def)
  qed
next
  case (updated r sel rp m')
  let ?b = "(boostAt m r)\<lparr>boostSelector := sel, resourcePolicies := rp,
              durationPolicies := mapDurationPolicy (bsDurationPolicy (scbSpec spec))\<rparr>"
  let ?m1 = "timed_put r (setBoost r ?b m)"
  have b: "boostAt ?m1 r = ?b" by (simp add: timed_put_def setBoost_def split: option.splits)
  have s: "same_identity ?b (boostAt m' r)" "timedBoosts m' = timedBoosts ?m1"
    using updated(5) b unfolding same_boosts_def by metis+
  have "nsoGet (scbName spec) (scbNamespace spec) (timedBoosts m') = Some r"
    if "dpFixed (bsDurationPolicy (scbSpec spec)) \<noteq> None"
    using that mgr_inv_regular [OF inv updated(1)]
    by (auto simp: s(2) timed_put_def setBoost_def nsoGet_put mapDurationPolicy_lookup)
  with updated(1-4) same_identity_fields [OF s(1)] show ?thesis by (simp add: GetRegularCPUBoost_def)
qed

end

section \<open>The gauge of boost configurations\<close>

definition registered_count :: "string \<Rightarrow> ('q, 'w) manager \<Rightarrow> nat" where
  "registered_count ns m = card {n. GetRegularCPUBoost n ns m \<noteq> None}"

lemma finite_registered: "finite {n. GetRegularCPUBoost n ns m \<noteq> None}"
proof (cases "DAList.lookup (objects (regularBoosts m)) ns")
  case None
  then show ?thesis by (simp add: GetRegularCPUBoost_def nsoGet_def)
next
  case (Some al)
  have "finite (dom (DAList.lookup al))" by (simp add: lookup.rep_eq finite_dom_map_of)
  with Some show ?thesis by (simp add: GetRegularCPUBoost_def nsoGet_def dom_def)
qed

lemma registered_count_delete:
  "int (registered_count ns (DeleteRegularCPUBoost ns n m)) =
     int (registered_count ns m) - (if GetRegularCPUBoost n ns m = None then 0 else 1)"
proof -
  let ?R = "{n. GetRegularCPUBoost n ns m \<noteq> None}"
  have "{n'. GetRegularCPUBoost n' ns (DeleteRegularCPUBoost ns n m) \<noteq> None} = ?R - {n}"
    by (auto simp: GetRegularCPUBoost_def DeleteRegularCPUBoost_def nsoGet_delete)
  moreover have "0 < card ?R" if "n \<in> ?R"
    using that finite_registered card_gt_0_iff by blast
  ultimately show ?thesis
    using finite_registered [of ns m] by (auto simp: registered_count_def card_Diff_singleton_if of_nat_diff)
qed

lemma registered_count_put:
  assumes "GetRegularCPUBoost n ns m = None"
    and "\<And>n' ns'. GetRegularCPUBoost n' ns' m' = (if n' = n \<and> ns' = ns then Some r else GetRegularCPUBoost n' ns' m)"
  shows "registered_count ns' m' = registered_count ns' m + (if ns' = ns then 1 else 0)"
proof -
  have "{n'. GetRegularCPUBoost n' ns' m' \<noteq> None} =
      (if ns' = ns then insert n {n'. GetRegularCPUBoost n' ns' m \<noteq> None} else {n'. GetRegularCPUBoost n' ns' m \<noteq> None})"
    by (auto simp: assms(2))
  with assms(1) finite_registered [of ns m] show ?thesis by (auto simp: registered_count_def)
qed

text \<open>A manager with one registered boost and one pod that waits for a boost.\<close>

definition sample_mgr :: "(int, int pod list) manager" where
  "sample_mgr = (NewManager True sample_heap)\<lparr>
     regularBoosts := nsoPut ''boost'' ''prod'' 0 newNamespacedObjects,
     timedBoosts := nsoPut ''boost'' ''prod'' 0 newNamespacedObjects,
     orphanedPods := nsoPut ''web-1'' ''prod'' 0 newNamespacedObjects\<rparr>"

lemma sample_mgr_fields [simp]:
  "regularBoosts sample_mgr = nsoPut ''boost'' ''prod'' 0 newNamespacedObjects"
  "timedBoosts sample_mgr = nsoPut ''boost'' ''prod'' 0 newNamespacedObjects"
  "orphanedPods sample_mgr = nsoPut ''web-1'' ''prod'' 0 newNamespacedObjects"
  "boostAt sample_mgr = (\<lambda>_. sample_boost)" "podAt sample_mgr = (\<lambda>_. sample_pod)"
  "nextBoost sample_mgr = 1" "nextPod sample_mgr = 1"
  by (simp_all add: sample_mgr_def NewManager_def heap.defs manager.defs sample_heap_def)

lemma sample_names [simp]:
  "boostName sample_boost = ''boost''" "boostNamespace sample_boost = ''prod''"
  "podName sample_pod = ''web-1''" "podNamespace sample_pod = ''prod''"
  "podLabels sample_pod = sample_labels" "trackedPods sample_boost = DAList.empty"
  by (simp_all add: sample_boost_def sample_pod_def)

lemma sample_mgr_inv: "mgr_inv sample_mgr"
  by (auto simp: mgr_inv_def regular_inv_def timed_inv_def orphan_inv_def fixed_timed_def nsoGet_put nsoGet_new
        split: if_splits)

lemma sample_matches: "Matches sample_boost sample_pod"
  by (simp add: Matches_def sample_boost_def sample_pod_def sample_scb_def label_selector_matches_def list_all_iff)

lemma sample_nsoList: "nsoList (rangeOrder sample_rt) ''prod'' (nsoPut n ''prod'' x newNamespacedObjects) = [x]"
  by (simp add: nsoList_def nsoPut_def newNamespacedObjects_def sample_rt_def alist_range_def alist_keys_def
        update.rep_eq lookup_update empty.rep_eq List.map_filter_simps)

lemma sample_matching: "getMatchingBoost sample_rt sample_pod sample_mgr = Some 0"
  by (simp add: getMatchingBoost_def sample_nsoList sample_matches)

section \<open>Properties\<close>

text \<open>
  C11. In every state that the manager reaches through its operations, the reverts of the check loop
  and the arrival of new objects, the collections are consistent: a registered boost stands under its
  own name and namespace, a timed boost is the registered boost of its name, every registered boost
  with a fixed duration policy is a timed boost, and an orphaned pod stands under its own name.
\<close>

theorem manager_invariant:
  assumes "client_laws (dK D)" and "mgr_reachable D m"
  shows "mgr_inv m"
  using boost_client.mgr_reachable_mgr_inv [OF boost_client.intro] assms by blast

theorem manager_invariant_witness:
  "client_laws (dK sample_deps) \<and>
   mgr_reachable sample_deps (DeleteRegularCPUBoost ''prod'' ''boost'' (snd (allocPods [sample_pod] (NewManager True sample_heap)))) \<and>
   mgr_inv (DeleteRegularCPUBoost ''prod'' ''boost'' (snd (allocPods [sample_pod] (NewManager True sample_heap))))"
proof -
  let ?m = "DeleteRegularCPUBoost ''prod'' ''boost'' (snd (allocPods [sample_pod] (NewManager True sample_heap)))"
  have "mgr_reachable sample_deps ?m"
    by (rule mgr_reachable.step [OF mgr_reachable.step [OF mgr_reachable.start new_pods] delete_boost])
  with manager_invariant [OF sample_client this] show ?thesis by simp
qed

text \<open>
  C24. Registering an allocated boost returns. When a boost of that name is registered in the
  namespace, the call gives the error and changes nothing; otherwise the boost is registered under
  its name, every other registration stays and the gauge of the namespace goes up by one.
\<close>

theorem add_boost:
  fixes m :: "('q, 'w) manager"
  assumes "client_laws (dK D)" and "r < nextBoost m"
  shows "\<exists>e m'. AddRegularCPUBoost D rt (Some r) m = Some (e, m') \<and>
    (if GetRegularCPUBoost (boostName (boostAt m r)) (boostNamespace (boostAt m r)) m \<noteq> None
     then e = Some errStartupCPUBoostAlreadyExists \<and> m' = m
     else e = None \<and>
       (\<forall>n ns. GetRegularCPUBoost n ns m' =
          (if n = boostName (boostAt m r) \<and> ns = boostNamespace (boostAt m r) then Some r
           else GetRegularCPUBoost n ns m)) \<and>
       (\<forall>ns. BoostConfigurations ns (metricsState m') =
          BoostConfigurations ns (metricsState m) + (if ns = boostNamespace (boostAt m r) then 1 else 0)))"
proof -
  have "boost_client D" using assms(1) by (simp add: boost_client_def)
  from boost_client.AddRegularCPUBoost_outcome [OF this assms(2), of rt] show ?thesis
    unfolding GetRegularCPUBoost_def by (metis option.distinct(1))
qed

theorem add_boost_witness:
  "\<exists>e m'. AddRegularCPUBoost sample_deps sample_rt (Some 0) (NewManager True sample_heap) = Some (e, m') \<and>
     e = None \<and> GetRegularCPUBoost ''boost'' ''prod'' m' = Some 0"
proof -
  have m: "nextBoost (NewManager True sample_heap) = 1" "boostAt (NewManager True sample_heap) 0 = sample_boost"
    by (simp_all add: NewManager_def heap.defs manager.defs sample_heap_def)
  have s: "boostName sample_boost = ''boost''" "boostNamespace sample_boost = ''prod''"
    by (simp_all add: sample_boost_def)
  from add_boost [OF sample_client, of 0 "NewManager True sample_heap" sample_rt] show ?thesis
    by (auto simp: m s GetRegularCPUBoost_def nsoGet_new)
qed

text \<open>
  The gauge of boost configurations. Where it equals the number of boosts registered in the
  namespace, it still does after the deletion of a registered boost; the deletion of a boost that is
  not registered leaves the registrations as they are and the gauge one too low.
\<close>

lemma delete_boost_gauge:
  assumes "BoostConfigurations ns (metricsState m) = int (registered_count ns m)"
  shows "BoostConfigurations ns (metricsState (DeleteRegularCPUBoost ns n m)) =
     int (registered_count ns (DeleteRegularCPUBoost ns n m)) -
     (if GetRegularCPUBoost n ns m = None then 1 else 0)"
  using assms by (simp add: registered_count_delete) (simp add: DeleteRegularCPUBoost_def)

lemma GetCPUBoostForPod_spec:
  assumes "go_order (rangeOrder rt)"
  shows "case GetCPUBoostForPod rt pod m of
      None \<Rightarrow> (\<forall>n r. GetRegularCPUBoost n (podNamespace pod) m = Some r \<longrightarrow> \<not> Matches (boostAt m r) pod)
    | Some r \<Rightarrow> Matches (boostAt m r) pod \<and> (\<exists>n. GetRegularCPUBoost n (podNamespace pod) m = Some r)"
proof (cases "GetCPUBoostForPod rt pod m")
  case None
  then show ?thesis
    unfolding GetCPUBoostForPod_def getMatchingBoost_def nso.find_in_namespace [OF assms]
    by (simp add: None [unfolded GetCPUBoostForPod_def getMatchingBoost_def] GetRegularCPUBoost_def)
next
  case (Some r)
  then have "List.find (\<lambda>r. Matches (boostAt m r) pod) (nsoList (rangeOrder rt) (podNamespace pod) (regularBoosts m)) = Some r"
    by (simp add: GetCPUBoostForPod_def getMatchingBoost_def)
  from nso.find_in_namespaceD [OF assms this] Some show ?thesis by (simp add: GetRegularCPUBoost_def)
qed



text \<open>
  A deleted pod is no longer tracked by the boost that matches it; when no boost matches, it is no
  longer an orphan. With a matching boost the orphans stay as they are, so a pod that waited as an
  orphan when its boost appeared and could not be taken over is kept after its deletion.
\<close>

lemma delete_pod_outcome:
  "case mgrDeletePod D rt p m of (b, e, m') \<Rightarrow>
     e = None \<and> b = GetCPUBoostForPod rt (podAt m p) m \<and>
     (case b of
        None \<Rightarrow> nsoGet (podName (podAt m p)) (podNamespace (podAt m p)) (orphanedPods m') = None
      | Some r \<Rightarrow> boostPod (boostAt m' r) (podName (podAt m p)) = None \<and> orphanedPods m' = orphanedPods m)"
proof (cases "getMatchingBoost rt (podAt m p) m")
  case None
  then show ?thesis by (simp add: mgrDeletePod_def GetCPUBoostForPod_def)
next
  case (Some r)
  obtain e m1 where d: "boostDeletePod D rt r p m = (e, m1)" by fastforce
  then have m1: "m1 = snd (boostDeletePod D rt r p m)" and e: "e = None"
    by (simp_all add: boostDeletePod_def Let_def)
  have "orphanedPods m1 = orphanedPods m" using boost_frame_orphans [OF boostDeletePod_frame] m1 by blast
  with Some d e boostDeletePod_tracked [of D rt r p m "podName (podAt m p)"] show ?thesis
    by (simp add: mgrDeletePod_def GetCPUBoostForPod_def boostPod_def)
qed

text \<open>
  C15. A boost that is registered or updated takes over the pods that waited for it: when
  \<^verbatim>\<open>mapOrphanedPods\<close> reports no error, every orphan of its namespace that its selector matches has
  left the orphans and is tracked by the boost, unless its condition policy had ended already; every
  other orphan of the namespace stays one and the tracking of its name does not change.
\<close>

theorem orphans_taken_over:
  fixes m :: "('q, 'w) manager"
  assumes "client_laws (dK D)" and "mgr_inv m" and "go_order (rangeOrder rt)"
    and "mapOrphanedPods D rt r m = Some (None, m')"
    and "nsoGet n (boostNamespace (boostAt m r)) (orphanedPods m) = Some p"
  shows "if Matches (boostAt m r) (podAt m p)
     then nsoGet n (boostNamespace (boostAt m r)) (orphanedPods m') = None \<and>
          boostPod (boostAt m' r) n = (if ends_boost rt (boostAt m r) (podAt m p) then None else Some p)
     else nsoGet n (boostNamespace (boostAt m r)) (orphanedPods m') = Some p \<and>
          boostPod (boostAt m' r) n = boostPod (boostAt m r) n"
proof -
  have "boost_client D" using assms(1) by (simp add: boost_client_def)
  from boost_client.mapOrphanedPods_takes_over [OF this assms(2-)] show ?thesis .
qed

theorem orphans_taken_over_witness:
  "\<exists>m'. mapOrphanedPods sample_deps sample_rt 0 sample_mgr = Some (None, m') \<and>
     nsoGet ''web-1'' ''prod'' (orphanedPods m') = None \<and> boostPod (boostAt m' 0) ''web-1'' = Some 0"
proof -
  have e: "\<not> ends_boost sample_rt sample_boost sample_pod"
    by (simp add: ends_boost_def sample_boost_def sample_spec_def mapDurationPolicy_def lookup_update)
  then have "\<exists>m'. mapOrphanedPods sample_deps sample_rt 0 sample_mgr = Some (None, m')"
    by (simp add: mapOrphanedPods_def sample_nsoList sample_matches boostUpsertPod_eq)
  then obtain m' where "mapOrphanedPods sample_deps sample_rt 0 sample_mgr = Some (None, m')" by blast
  with orphans_taken_over [OF sample_client sample_mgr_inv sample_order this, of "''web-1''" 0] e sample_matches
  show ?thesis by (simp add: nsoGet_put)
qed

text \<open>
  C25. An update of a boost returns. It does nothing for a boost that is not registered; it gives an
  error and changes nothing when the selector or the resource policies are invalid; otherwise the
  boost has the selector, the resource policies and the duration policies of the new specification,
  and it is a timed boost when that specification has a fixed duration.
\<close>

theorem update_boost:
  fixes m :: "('q, 'w) manager"
  assumes "client_laws (dK D)" and "mgr_inv m"
  shows "\<exists>e m'. UpdateRegularCPUBoost D rt spec m = Some (e, m') \<and>
    (case GetRegularCPUBoost (scbName spec) (scbNamespace spec) m of
       None \<Rightarrow> e = None \<and> m' = m
     | Some r \<Rightarrow>
         (case (dSel D (scbSelector spec), mapResourcePolicy (bsResourcePolicy (scbSpec spec))) of
            (Inr sel, Inr rp) \<Rightarrow>
              e = None \<and> boostSelector (boostAt m' r) = sel \<and> resourcePolicies (boostAt m' r) = rp \<and>
              durationPolicies (boostAt m' r) = mapDurationPolicy (bsDurationPolicy (scbSpec spec)) \<and>
              (dpFixed (bsDurationPolicy (scbSpec spec)) \<noteq> None \<longrightarrow>
                 nsoGet (scbName spec) (scbNamespace spec) (timedBoosts m') = Some r)
          | _ \<Rightarrow> e \<noteq> None \<and> m' = m))"
  by (rule boost_client.UpdateRegularCPUBoost_places [OF boost_client.intro [OF assms(1)] assms(2)])

theorem update_boost_witness:
  "\<exists>e m'. UpdateRegularCPUBoost sample_deps sample_rt sample_scb sample_mgr = Some (e, m') \<and> e = None \<and>
     nsoGet ''boost'' ''prod'' (timedBoosts m') = Some 0"
proof -
  have "dSel sample_deps (scbSelector sample_scb) = Inr (label_selector_matches (scbSelector sample_scb))"
    by (simp add: sample_deps_def sample_selector_def sample_scb_def)
  moreover have "\<exists>rp. mapResourcePolicy (bsResourcePolicy (scbSpec sample_scb)) = Inr rp"
    by (simp add: sample_scb_def sample_spec_def mapResourcePolicy_def policyOfSpec_def errors_Join_def)
  moreover have "scbName sample_scb = ''boost''" "scbNamespace sample_scb = ''prod''"
    "dpFixed (bsDurationPolicy (scbSpec sample_scb)) \<noteq> None"
    by (simp_all add: sample_scb_def sample_spec_def)
  ultimately show ?thesis
    using update_boost [OF sample_client sample_mgr_inv, of sample_rt sample_scb]
    by (auto simp: GetRegularCPUBoost_def nsoGet_put)
qed

end
