(* ===== verification/Pod_QoS.thy ===== *)
theory Pod_QoS
  imports Sample_Pods
begin

text \<open>
  \<^verbatim>\<open>internal/webhook/qos.go\<close>: the quality of service class of a pod. The resource lists that the
  function builds are made by a composite literal and never nil; a loop over a map takes the order
  \<open>ord\<close> of the runtime. The class is then given by a closed formula over the numbers that the
  quantities denote.
\<close>

section \<open>The computation\<close>

datatype qos_class = BestEffort | Burstable | Guaranteed

text \<open>The classes in the order in which a node under pressure spares their pods.\<close>

fun qos_rank :: "qos_class \<Rightarrow> nat" where
  "qos_rank BestEffort = 0"
| "qos_rank Burstable = 1"
| "qos_rank Guaranteed = 2"

instantiation qos_class :: linorder
begin

definition less_eq_qos_class :: "qos_class \<Rightarrow> qos_class \<Rightarrow> bool" where
  "less_eq_qos_class a b \<longleftrightarrow> qos_rank a \<le> qos_rank b"

definition less_qos_class :: "qos_class \<Rightarrow> qos_class \<Rightarrow> bool" where
  "less_qos_class a b \<longleftrightarrow> qos_rank a < qos_rank b"

instance
proof
  fix a b :: qos_class
  show "a \<le> b \<Longrightarrow> b \<le> a \<Longrightarrow> a = b"
    by (cases a; cases b) (simp_all add: less_eq_qos_class_def)
qed (auto simp: less_eq_qos_class_def less_qos_class_def)

end

definition isSupportedQoSComputeResource :: "string \<Rightarrow> bool" where
  "isSupportedQoSComputeResource name \<longleftrightarrow> name \<in> {ResourceCPU, ResourceMemory}"

definition zeroQuantity :: "('q, 'd) quantity_api \<Rightarrow> 'q" where
  "zeroQuantity Q = MustParse Q ''0''"

text \<open>The entries that count: a supported resource with a positive quantity.\<close>

definition qosCounts :: "('q, 'd) quantity_api \<Rightarrow> string \<times> 'q \<Rightarrow> bool" where
  "qosCounts Q e = (isSupportedQoSComputeResource (fst e) \<and> Cmp Q (snd e) (zeroQuantity Q) = 1)"

definition addQuantity :: "('q, 'd) quantity_api \<Rightarrow> string \<times> 'q \<Rightarrow> (string, 'q) alist \<Rightarrow> (string, 'q) alist" where
  "addQuantity Q e list =
     (case DAList.lookup list (fst e) of
        None \<Rightarrow> DAList.update (fst e) (snd e) list
      | Some q \<Rightarrow> DAList.update (fst e) (Add Q (snd e) q) list)"

definition processResourceList ::
  "('q, 'd) quantity_api \<Rightarrow> (string list \<Rightarrow> string list) \<Rightarrow> (string, 'q) alist \<Rightarrow> 'q gomap \<Rightarrow> (string, 'q) alist" where
  "processResourceList Q ord list newList =
     foldl (\<lambda>l e. if qosCounts Q e then addQuantity Q e l else l) list (map_range ord newList)"

definition getQOSResources ::
  "('q, 'd) quantity_api \<Rightarrow> (string list \<Rightarrow> string list) \<Rightarrow> 'q gomap \<Rightarrow> string set" where
  "getQOSResources Q ord list =
     foldl (\<lambda>s e. if qosCounts Q e then insert (fst e) s else s) {} (map_range ord list)"

text \<open>The loop over the limits of a container fills the limits and the set of the names it found.\<close>

definition qosLimits ::
  "('q, 'd) quantity_api \<Rightarrow> (string list \<Rightarrow> string list) \<Rightarrow> (string, 'q) alist \<Rightarrow> 'q gomap \<Rightarrow>
   (string, 'q) alist \<times> string set" where
  "qosLimits Q ord limits m =
     foldl (\<lambda>(l, found) e. if qosCounts Q e then (addQuantity Q e l, insert (fst e) found) else (l, found))
       (limits, {}) (map_range ord m)"

definition hasAll :: "string set \<Rightarrow> bool" where
  "hasAll found \<longleftrightarrow> ResourceMemory \<in> found \<and> ResourceCPU \<in> found"

fun qosContainers ::
  "('q, 'd) quantity_api \<Rightarrow> (string list \<Rightarrow> string list) \<Rightarrow> 'q container list \<Rightarrow>
   (string, 'q) alist \<times> (string, 'q) alist \<times> bool \<Rightarrow> (string, 'q) alist \<times> (string, 'q) alist \<times> bool" where
  "qosContainers Q ord [] st = st"
| "qosContainers Q ord (ctr # ctrs) (requests, limits, isGuaranteed) =
     (let requests' = processResourceList Q ord requests (Requests (ctrResources ctr));
          (limits', qosLimitsFound) = qosLimits Q ord limits (Limits (ctrResources ctr))
      in qosContainers Q ord ctrs
           (requests', limits', if \<not> hasAll qosLimitsFound then False else isGuaranteed))"

definition qosPodLevel ::
  "('q, 'd) quantity_api \<Rightarrow> (string list \<Rightarrow> string list) \<Rightarrow> 'q resource_requirements \<Rightarrow>
   (string, 'q) alist \<times> (string, 'q) alist \<times> bool" where
  "qosPodLevel Q ord res =
     (let requests = (if map_len (Requests res) > 0
                      then processResourceList Q ord DAList.empty (Requests res) else DAList.empty)
      in if map_len (Limits res) > 0
         then (requests, processResourceList Q ord DAList.empty (Limits res),
               if \<not> hasAll (getQOSResources Q ord (Limits res)) then False else True)
         else (requests, DAList.empty, True))"

definition requestsMatchLimits ::
  "('q, 'd) quantity_api \<Rightarrow> (string list \<Rightarrow> string list) \<Rightarrow> (string, 'q) alist \<Rightarrow> (string, 'q) alist \<Rightarrow> bool" where
  "requestsMatchLimits Q ord requests limits =
     list_all (\<lambda>(name, req). case DAList.lookup limits name of None \<Rightarrow> False | Some lmt \<Rightarrow> Cmp Q lmt req = 0)
       (alist_range ord requests)"

definition computePodQOS ::
  "('q, 'd) quantity_api \<Rightarrow> (string list \<Rightarrow> string list) \<Rightarrow> 'q pod \<Rightarrow> bool \<Rightarrow> qos_class" where
  "computePodQOS Q ord pod podLevelResourcesEnabled =
     (let (requests, limits, isGuaranteed) =
            (case podSpecResources pod of
               Some res \<Rightarrow>
                 (if podLevelResourcesEnabled then qosPodLevel Q ord res
                  else qosContainers Q ord (podContainers pod @ podInitContainers pod) (DAList.empty, DAList.empty, True))
             | None \<Rightarrow> qosContainers Q ord (podContainers pod @ podInitContainers pod) (DAList.empty, DAList.empty, True))
      in if alist_len requests = 0 \<and> alist_len limits = 0 then BestEffort
         else (let isGuaranteed = (isGuaranteed \<and> requestsMatchLimits Q ord requests limits)
               in if isGuaranteed \<and> alist_len requests = alist_len limits then Guaranteed else Burstable))"

section \<open>The class as a formula\<close>

text \<open>What an entry of a resource list counts for.\<close>

definition qos_amount :: "('q \<Rightarrow> rat) \<Rightarrow> 'q gomap \<Rightarrow> string \<Rightarrow> rat" where
  "qos_amount val m name =
     (if isSupportedQoSComputeResource name
      then (case map_get m name of None \<Rightarrow> 0 | Some q \<Rightarrow> max 0 (val q)) else 0)"

definition qos_formula :: "(string \<Rightarrow> rat) \<Rightarrow> (string \<Rightarrow> rat) \<Rightarrow> bool \<Rightarrow> qos_class" where
  "qos_formula req lmt g =
     (if \<forall>n \<in> {ResourceCPU, ResourceMemory}. req n = 0 \<and> lmt n = 0 then BestEffort
      else if g \<and> (\<forall>n \<in> {ResourceCPU, ResourceMemory}. req n = lmt n) then Guaranteed
      else Burstable)"

definition total_amount :: "('q \<Rightarrow> rat) \<Rightarrow> ('q resource_requirements \<Rightarrow> 'q gomap) \<Rightarrow> 'q container list \<Rightarrow> string \<Rightarrow> rat" where
  "total_amount val sel cs name = (\<Sum>c\<leftarrow>cs. qos_amount val (sel (ctrResources c)) name)"

definition has_limits :: "('q \<Rightarrow> rat) \<Rightarrow> 'q resource_requirements \<Rightarrow> bool" where
  "has_limits val res \<longleftrightarrow> (\<forall>n \<in> {ResourceCPU, ResourceMemory}. 0 < qos_amount val (Limits res) n)"

definition pod_qos :: "('q \<Rightarrow> rat) \<Rightarrow> 'q pod \<Rightarrow> bool \<Rightarrow> qos_class" where
  "pod_qos val pod podLevel =
     (case (podLevel, podSpecResources pod) of
        (True, Some res) \<Rightarrow>
          qos_formula (qos_amount val (Requests res)) (qos_amount val (Limits res)) (has_limits val res)
      | _ \<Rightarrow>
          (let cs = podContainers pod @ podInitContainers pod
           in qos_formula (total_amount val Requests cs) (total_amount val Limits cs)
                (list_all (\<lambda>c. has_limits val (ctrResources c)) cs)))"

section \<open>The computation meets the formula\<close>

lemma foldl_pair:
  "foldl (\<lambda>(a, b) e. if P e then (f e a, g e b) else (a, b)) (a, b) es =
     (foldl (\<lambda>a e. if P e then f e a else a) a es, foldl (\<lambda>b e. if P e then g e b else b) b es)"
  by (induction es arbitrary: a b) auto

lemma qosLimits_eq:
  "qosLimits Q ord l m = (processResourceList Q ord l m, getQOSResources Q ord m)"
  unfolding qosLimits_def processResourceList_def getQOSResources_def
  using foldl_pair [of "qosCounts Q" "addQuantity Q" "\<lambda>e. insert (fst e)" l "{}" "map_range ord m"] by simp

lemma foldl_insert: "foldl (\<lambda>s e. if P e then insert (fst e) s else s) s es = s \<union> fst ` {e \<in> set es. P e}"
  by (induction es arbitrary: s) auto

lemma alist_len_card: "alist_len al = card (dom (DAList.lookup al))"
  using distinct_card [OF impl_of_distinct [of al]]
  by (simp add: alist_len_def lookup.rep_eq dom_map_of_conv_image_fst)

lemma map_range_empty:
  assumes "map_len m = 0" and "go_order ord"
  shows "map_range ord m = []"
proof (rule ccontr)
  assume "map_range ord m \<noteq> []"
  then obtain k v where "(k, v) \<in> set (map_range ord m)" by (metis list.set_intros(1) neq_Nil_conv surj_pair)
  then have "map_get m k = Some v" by (simp add: map_range_mem [OF assms(2)])
  with assms(1) show False
    by (cases m) (auto simp: map_len_def alist_len_def map_get_def lookup.rep_eq)
qed

context quantity_laws
begin

definition represents :: "(string, 'q) alist \<Rightarrow> (string \<Rightarrow> rat) \<Rightarrow> bool" where
  "represents al f \<longleftrightarrow>
     (\<forall>n. 0 \<le> f n \<and> (f n \<noteq> 0 \<longrightarrow> isSupportedQoSComputeResource n) \<and>
        (case DAList.lookup al n of None \<Rightarrow> f n = 0 | Some q \<Rightarrow> val q = f n \<and> f n \<noteq> 0))"

lemma qosCounts_iff: "qosCounts Q (n, q) \<longleftrightarrow> isSupportedQoSComputeResource n \<and> 0 < val q"
  by (simp add: qosCounts_def zeroQuantity_def must_parse_0)

lemma fold_addQuantity:
  assumes "distinct (map fst es)"
  shows "DAList.lookup (foldl (\<lambda>l e. if qosCounts Q e then addQuantity Q e l else l) l es) n =
     (case map_of es n of
        None \<Rightarrow> DAList.lookup l n
      | Some q \<Rightarrow> if qosCounts Q (n, q)
                   then Some (case DAList.lookup l n of None \<Rightarrow> q | Some r \<Rightarrow> Add Q q r)
                   else DAList.lookup l n)"
  using assms
proof (induction es arbitrary: l)
  case (Cons e es)
  obtain k q where e: "e = (k, q)" by fastforce
  have no: "map_of es k = None" using Cons.prems by (simp add: e map_of_eq_None_iff)
  show ?case
  proof (cases "k = n")
    case True
    with no Cons.IH Cons.prems show ?thesis
      by (simp add: e addQuantity_def lookup_update split: option.splits)
  next
    case False
    then have "DAList.lookup (addQuantity Q (k, q) l) n = DAList.lookup l n"
      by (simp add: addQuantity_def lookup_update split: option.splits)
    with False Cons.IH Cons.prems show ?thesis by (cases "map_of es n") (simp_all add: e)
  qed
qed simp

lemma processResourceList_lookup:
  assumes "go_order ord"
  shows "DAList.lookup (processResourceList Q ord l m) n =
     (case map_get m n of
        None \<Rightarrow> DAList.lookup l n
      | Some q \<Rightarrow> if qosCounts Q (n, q)
                   then Some (case DAList.lookup l n of None \<Rightarrow> q | Some r \<Rightarrow> Add Q q r)
                   else DAList.lookup l n)"
  using fold_addQuantity [OF distinct_fst_map_range [OF assms, of m], of l n]
  by (simp add: processResourceList_def map_of_map_range [OF assms])

lemma represents_process:
  assumes "go_order ord" and "represents l f"
  shows "represents (processResourceList Q ord l m) (\<lambda>n. f n + qos_amount val m n)"
  unfolding represents_def
proof
  fix n
  have f: "0 \<le> f n" "f n \<noteq> 0 \<longrightarrow> isSupportedQoSComputeResource n"
    "case DAList.lookup l n of None \<Rightarrow> f n = 0 | Some q \<Rightarrow> val q = f n \<and> f n \<noteq> 0"
    using assms(2) by (simp_all add: represents_def)
  then show "0 \<le> f n + qos_amount val m n \<and> (f n + qos_amount val m n \<noteq> 0 \<longrightarrow> isSupportedQoSComputeResource n) \<and>
      (case DAList.lookup (processResourceList Q ord l m) n of
         None \<Rightarrow> f n + qos_amount val m n = 0
       | Some q \<Rightarrow> val q = f n + qos_amount val m n \<and> f n + qos_amount val m n \<noteq> 0)"
    by (cases "map_get m n"; cases "DAList.lookup l n")
       (auto simp: processResourceList_lookup [OF assms(1)] qos_amount_def qosCounts_iff add add.commute)
qed

lemma represents_empty: "represents DAList.empty (\<lambda>_. 0)"
  by (simp add: represents_def)

lemma getQOSResources_iff:
  assumes "go_order ord"
  shows "n \<in> getQOSResources Q ord m \<longleftrightarrow> 0 < qos_amount val m n"
proof -
  have "n \<in> getQOSResources Q ord m \<longleftrightarrow> (\<exists>q. (n, q) \<in> set (map_range ord m) \<and> qosCounts Q (n, q))"
    unfolding getQOSResources_def foldl_insert by force
  then show ?thesis
    by (auto simp: map_range_mem [OF assms] qosCounts_iff qos_amount_def split: option.splits)
qed

lemma hasAll_iff: "go_order ord \<Longrightarrow> hasAll (getQOSResources Q ord (Limits res)) \<longleftrightarrow> has_limits val res"
  by (auto simp: hasAll_def has_limits_def getQOSResources_iff)

lemma qosContainers_represents:
  assumes "go_order ord" and "represents rq f" and "represents lm g"
    and "qosContainers Q ord cs (rq, lm, b) = (rq', lm', b')"
  shows "represents rq' (\<lambda>n. f n + total_amount val Requests cs n) \<and>
         represents lm' (\<lambda>n. g n + total_amount val Limits cs n) \<and>
         b' = (b \<and> list_all (\<lambda>c. has_limits val (ctrResources c)) cs)"
  using assms(2-)
proof (induction cs arbitrary: rq lm b f g)
  case Nil
  then show ?case by (simp add: total_amount_def)
next
  case (Cons c cs)
  let ?f = "\<lambda>n. f n + qos_amount val (Requests (ctrResources c)) n"
  let ?g = "\<lambda>n. g n + qos_amount val (Limits (ctrResources c)) n"
  let ?b = "if \<not> hasAll (getQOSResources Q ord (Limits (ctrResources c))) then False else b"
  have "qosContainers Q ord cs (processResourceList Q ord rq (Requests (ctrResources c)),
      processResourceList Q ord lm (Limits (ctrResources c)), ?b) = (rq', lm', b')"
    using Cons.prems(3) by (simp add: qosLimits_eq Let_def)
  from Cons.IH [OF represents_process [OF assms(1) Cons.prems(1)] represents_process [OF assms(1) Cons.prems(2)] this]
  show ?case by (auto simp: total_amount_def add.assoc hasAll_iff [OF assms(1)])
qed

lemma represents_len:
  assumes r: "represents al f"
  shows "alist_len al = card {n. f n \<noteq> 0}"
proof -
  have "n \<in> dom (DAList.lookup al) \<longleftrightarrow> f n \<noteq> 0" for n
  proof -
    have "case DAList.lookup al n of None \<Rightarrow> f n = 0 | Some q \<Rightarrow> val q = f n \<and> f n \<noteq> 0"
      using r by (simp add: represents_def)
    then show ?thesis by (cases "DAList.lookup al n") (simp_all add: domIff)
  qed
  then have "dom (DAList.lookup al) = {n. f n \<noteq> 0}" by blast
  then show ?thesis by (simp add: alist_len_card)
qed

lemma represents_support:
  assumes "represents al f"
  shows "{n. f n \<noteq> 0} \<subseteq> {ResourceCPU, ResourceMemory}"
  using assms by (auto simp: represents_def isSupportedQoSComputeResource_def)

lemma requestsMatchLimits_iff:
  assumes "go_order ord" and "represents rq f" and "represents lm g"
  shows "requestsMatchLimits Q ord rq lm \<longleftrightarrow> (\<forall>n. f n \<noteq> 0 \<longrightarrow> g n = f n)"
proof -
  have rq: "case DAList.lookup rq n of None \<Rightarrow> f n = 0 | Some q \<Rightarrow> val q = f n \<and> f n \<noteq> 0" for n
    using assms(2) by (simp add: represents_def)
  have lm: "case DAList.lookup lm n of None \<Rightarrow> g n = 0 | Some q \<Rightarrow> val q = g n \<and> g n \<noteq> 0" for n
    using assms(3) by (simp add: represents_def)
  have "requestsMatchLimits Q ord rq lm \<longleftrightarrow>
      (\<forall>n r. DAList.lookup rq n = Some r \<longrightarrow>
         (case DAList.lookup lm n of None \<Rightarrow> False | Some l \<Rightarrow> val l = val r))"
  proof -
    have "(case DAList.lookup lm n of None \<Rightarrow> False | Some l \<Rightarrow> Cmp Q l r = 0) =
        (case DAList.lookup lm n of None \<Rightarrow> False | Some l \<Rightarrow> val l = val r)" for n r
      by (cases "DAList.lookup lm n") simp_all
    then show ?thesis
      unfolding requestsMatchLimits_def list_all_iff alist_range_mem [OF assms(1), symmetric] by fast
  qed
  also have "\<dots> \<longleftrightarrow> (\<forall>n. f n \<noteq> 0 \<longrightarrow> g n = f n)"
  proof (intro iff_allI)
    fix n
    show "(\<forall>r. DAList.lookup rq n = Some r \<longrightarrow>
         (case DAList.lookup lm n of None \<Rightarrow> False | Some l \<Rightarrow> val l = val r)) \<longleftrightarrow> (f n \<noteq> 0 \<longrightarrow> g n = f n)"
      using rq [of n] lm [of n] by (cases "DAList.lookup rq n"; cases "DAList.lookup lm n") auto
  qed
  finally show ?thesis .
qed

text \<open>The last part of \<^verbatim>\<open>computePodQOS\<close>, on lists that stand for the amounts \<open>f\<close> and \<open>g\<close>.\<close>

lemma qos_decision:
  assumes "go_order ord" and rq: "represents rq f" and lm: "represents lm g"
  shows "(if alist_len rq = 0 \<and> alist_len lm = 0 then BestEffort
      else if (b \<and> requestsMatchLimits Q ord rq lm) \<and> alist_len rq = alist_len lm then Guaranteed else Burstable) =
     qos_formula f g b"
proof -
  let ?F = "{n. f n \<noteq> 0}" and ?G = "{n. g n \<noteq> 0}"
  have fin: "finite ?F" "finite ?G"
    using represents_support [OF rq] represents_support [OF lm] finite_subset by blast+
  have zero: "f n = 0 \<and> g n = 0" if "n \<notin> {ResourceCPU, ResourceMemory}" for n
    using represents_support [OF rq] represents_support [OF lm] that by blast
  have "alist_len rq = 0 \<longleftrightarrow> ?F = {}" "alist_len lm = 0 \<longleftrightarrow> ?G = {}"
    unfolding represents_len [OF rq] represents_len [OF lm] using fin card_0_eq by blast+
  then have best: "(alist_len rq = 0 \<and> alist_len lm = 0) = (\<forall>n \<in> {ResourceCPU, ResourceMemory}. f n = 0 \<and> g n = 0)"
    using zero by blast
  have "(requestsMatchLimits Q ord rq lm \<and> alist_len rq = alist_len lm) = (\<forall>n. f n = g n)"
  proof
    assume a: "requestsMatchLimits Q ord rq lm \<and> alist_len rq = alist_len lm"
    then have m: "\<forall>n. f n \<noteq> 0 \<longrightarrow> g n = f n" using requestsMatchLimits_iff [OF assms] by blast
    then have "?F \<subseteq> ?G" by auto
    moreover have "card ?F = card ?G" using a by (simp add: represents_len [OF rq] represents_len [OF lm])
    ultimately have "?F = ?G" using card_subset_eq [OF fin(2)] by blast
    with m show "\<forall>n. f n = g n" by (metis (mono_tags, lifting) mem_Collect_eq)
  next
    assume "\<forall>n. f n = g n"
    then have "f = g" by blast
    then show "requestsMatchLimits Q ord rq lm \<and> alist_len rq = alist_len lm"
      using requestsMatchLimits_iff [OF assms] by (simp add: represents_len [OF rq] represents_len [OF lm])
  qed
  moreover have "(\<forall>n. f n = g n) = (\<forall>n \<in> {ResourceCPU, ResourceMemory}. f n = g n)"
    using zero by metis
  ultimately have "(b \<and> requestsMatchLimits Q ord rq lm) \<and> alist_len rq = alist_len lm \<longleftrightarrow>
      b \<and> (\<forall>n \<in> {ResourceCPU, ResourceMemory}. f n = g n)" by blast
  then show ?thesis unfolding qos_formula_def best by presburger
qed

lemma represents_amount:
  assumes "go_order ord"
  shows "represents (if map_len m > 0 then processResourceList Q ord DAList.empty m else DAList.empty) (qos_amount val m)"
proof -
  have "processResourceList Q ord DAList.empty m = DAList.empty" if "\<not> map_len m > 0"
    using that map_range_empty [OF _ assms, of m] by (simp add: processResourceList_def)
  then show ?thesis using represents_process [OF assms represents_empty, of m] by auto
qed

lemma qos_formula_no_limits: "(\<And>n. lmt n = 0) \<Longrightarrow> qos_formula req lmt g = qos_formula req lmt g'"
  by (auto simp: qos_formula_def)

lemma qosPodLevel_represents:
  assumes "go_order ord" and "qosPodLevel Q ord res = (rq, lm, b)"
  shows "represents rq (qos_amount val (Requests res))" "represents lm (qos_amount val (Limits res))"
    "qos_formula f (qos_amount val (Limits res)) b = qos_formula f (qos_amount val (Limits res)) (has_limits val res)"
proof -
  show "represents rq (qos_amount val (Requests res))"
    using represents_amount [OF assms(1), of "Requests res"] assms(2)
    by (auto simp: qosPodLevel_def Let_def split: if_splits)
  show "represents lm (qos_amount val (Limits res))"
    using represents_amount [OF assms(1), of "Limits res"] assms(2)
    by (auto simp: qosPodLevel_def Let_def split: if_splits)
  show "qos_formula f (qos_amount val (Limits res)) b = qos_formula f (qos_amount val (Limits res)) (has_limits val res)"
  proof (cases "map_len (Limits res) > 0")
    case True
    with assms have "b = has_limits val res" by (auto simp: qosPodLevel_def Let_def hasAll_iff split: if_splits)
    then show ?thesis by simp
  next
    case False
    then have "map_range ord (Limits res) = []" using map_range_empty [OF _ assms(1)] by simp
    then have "qos_amount val (Limits res) n = 0" for n
      using map_of_map_range [OF assms(1), of "Limits res" n] by (simp add: qos_amount_def)
    then show ?thesis by (rule qos_formula_no_limits)
  qed
qed

lemma computePodQOS_formula:
  assumes "go_order ord"
  shows "computePodQOS Q ord pod lvl = pod_qos val pod lvl"
proof (cases "lvl \<and> podSpecResources pod \<noteq> None")
  case True
  then obtain res where res: "podSpecResources pod = Some res" and lvl: "lvl" by auto
  obtain rq lm b where q: "qosPodLevel Q ord res = (rq, lm, b)" by (metis prod_cases3)
  note r = qosPodLevel_represents [OF assms q]
  have "computePodQOS Q ord pod lvl = qos_formula (qos_amount val (Requests res)) (qos_amount val (Limits res)) b"
    by (simp add: computePodQOS_def Let_def res lvl q qos_decision [OF assms r(1,2), of b, symmetric])
  with r(3) show ?thesis by (simp add: pod_qos_def res lvl)
next
  case False
  let ?cs = "podContainers pod @ podInitContainers pod"
  obtain rq lm b where q: "qosContainers Q ord ?cs (DAList.empty, DAList.empty, True) = (rq, lm, b)"
    by (metis prod_cases3)
  from qosContainers_represents [OF assms represents_empty represents_empty q]
  have r: "represents rq (total_amount val Requests ?cs)" "represents lm (total_amount val Limits ?cs)"
    "b = list_all (\<lambda>c. has_limits val (ctrResources c)) ?cs" by simp_all
  have "computePodQOS Q ord pod lvl =
      qos_formula (total_amount val Requests ?cs) (total_amount val Limits ?cs) b"
    using False
    by (cases "podSpecResources pod")
       (simp_all add: computePodQOS_def Let_def q qos_decision [OF assms r(1,2), of b, symmetric])
  with False r(3) show ?thesis
    by (cases "podSpecResources pod"; cases lvl) (simp_all add: pod_qos_def Let_def)
qed

end

section \<open>Properties\<close>

text \<open>
  C23. The quality of service class does not depend on the order of the map iterations and is the one
  of the Kubernetes rules: best effort without any positive CPU or memory amount, guaranteed when
  every container has a positive CPU and memory limit and the requests add up to the limits,
  burstable otherwise; with pod level resources, the same on the resources of the pod.
\<close>

theorem qos_class:
  assumes "quantity_laws Q val dval" and "go_order ord"
  shows "computePodQOS Q ord pod podLevel = pod_qos val pod podLevel"
  by (rule quantity_laws.computePodQOS_formula [OF assms])

theorem qos_class_witness:
  "quantity_laws nano_quantity nano_val dec_val \<and> go_order (\<lambda>ks. ks) \<and>
   computePodQOS nano_quantity (\<lambda>ks. ks) sample_pod False = Burstable"
proof -
  have "pod_qos nano_val sample_pod False = Burstable"
    by (simp add: pod_qos_def qos_formula_def total_amount_def qos_amount_def has_limits_def sample_pod_def
          sample_container_def isSupportedQoSComputeResource_def map_get_def lookup_update nano_val_def)
  with qos_class [OF nano.quantity_laws_axioms go_order_id, of sample_pod False] show ?thesis
    by (simp add: nano.quantity_laws_axioms go_order_id)
qed

end
