(* ===== verification/Pod_Webhook.thy ===== *)
theory Pod_Webhook
  imports Manager_Operations Pod_QoS
begin

text \<open>
  \<^verbatim>\<open>internal/webhook/podcpuboost_webhook.go\<close>: the mutating admission webhook, which raises the CPU
  resources of the containers of a new pod and records the original values in an annotation. The
  decoder and the construction of the JSON patch belong to the controller runtime library. A failed
  \<^verbatim>\<open>ToJSON\<close> and an assignment to a nil map panic, which is the value \<open>None\<close>.
\<close>

section \<open>The handler\<close>

record pod_handler =
  removeLimits :: bool
  podLevelResourcesEnabled :: bool

fun resizeRequires :: "resize_policy list \<Rightarrow> string \<Rightarrow> bool" where
  "resizeRequires [] r = False"
| "resizeRequires (p # ps) r =
     (if rpResourceName p \<noteq> r then resizeRequires ps r else rpRestartPolicy p = RestartContainer)"

definition resizeRequiresRestart :: "'q container \<Rightarrow> string \<Rightarrow> bool" where
  "resizeRequiresRestart c r = resizeRequires (ctrResizePolicy c) r"

definition hasResourcesToIncrease :: "('q, 'd) quantity_api \<Rightarrow> 'q container \<Rightarrow> bool" where
  "hasResourcesToIncrease Q c =
     (\<not> IsZero Q (Cpu Q (Requests (ctrResources c))) \<or> \<not> IsZero Q (Cpu Q (Limits (ctrResources c))))"

definition canRemoveLimit :: "pod_handler \<Rightarrow> qos_class \<Rightarrow> bool" where
  "canRemoveLimit h qosClass =
     (if \<not> removeLimits h then False
      else if qosClass \<noteq> Burstable \<and> qosClass \<noteq> BestEffort then False
      else True)"

definition setContainerResources :: "nat \<Rightarrow> 'q resource_requirements \<Rightarrow> 'q pod \<Rightarrow> 'q pod" where
  "setContainerResources i res pod =
     pod\<lparr>podContainers := (podContainers pod)[i := (podContainers pod ! i)\<lparr>ctrResources := res\<rparr>]\<rparr>"

definition containerResizeChangesQosClass ::
  "('q, 'd) quantity_api \<Rightarrow> (string list \<Rightarrow> string list) \<Rightarrow> pod_handler \<Rightarrow> qos_class \<Rightarrow> 'q pod \<Rightarrow> nat \<Rightarrow>
   'q resource_requirements \<Rightarrow> bool" where
  "containerResizeChangesQosClass Q ord h initQosClass initPod containerIdx newContainerRes =
     (let podCopy = setContainerResources containerIdx newContainerRes initPod;
          newQos = computePodQOS Q ord podCopy (podLevelResourcesEnabled h)
      in newQos \<noteq> initQosClass)"

definition updateBoostAnnotation ::
  "('q, 'd) quantity_api \<Rightarrow> boost_annotation \<Rightarrow> string \<Rightarrow> 'q resource_requirements \<Rightarrow> boost_annotation option" where
  "updateBoostAnnotation Q annot containerName resources = do {
     annot1 \<leftarrow> (case map_get (Requests resources) ResourceCPU of
                  None \<Rightarrow> Some annot
                | Some cpuRequests \<Rightarrow> do {
                    m \<leftarrow> map_assign containerName (QString Q cpuRequests) (InitCPURequests annot);
                    Some (annot\<lparr>InitCPURequests := m\<rparr>)
                  });
     case map_get (Limits resources) ResourceCPU of
       None \<Rightarrow> Some annot1
     | Some cpuLimits \<Rightarrow> do {
         m \<leftarrow> map_assign containerName (QString Q cpuLimits) (InitCPULimits annot1);
         Some (annot1\<lparr>InitCPULimits := m\<rparr>)
       }
   }"

text \<open>The limits that the webhook sets: it removes the CPU limit where the handler may do so.\<close>

definition finalResources ::
  "('q, 'd) quantity_api \<Rightarrow> pod_handler \<Rightarrow> qos_class \<Rightarrow> 'q resource_requirements \<Rightarrow> 'q resource_requirements" where
  "finalResources Q h originalQosClass resources =
     (if \<not> IsZero Q (Cpu Q (Limits resources)) then
        (if canRemoveLimit h originalQosClass
         then resources\<lparr>Limits := map_delete ResourceCPU (Limits resources)\<rparr>
         else resources)
      else resources)"

text \<open>One round of the loop over the containers, for the container with index \<open>i\<close>.\<close>

definition boostContainer ::
  "('q, 'd) quantity_api \<Rightarrow> (string list \<Rightarrow> string list) \<Rightarrow> pod_handler \<Rightarrow> 'q boost \<Rightarrow> qos_class \<Rightarrow> nat \<Rightarrow>
   'q pod \<times> boost_annotation \<Rightarrow> ('q pod \<times> boost_annotation) option" where
  "boostContainer Q ord h b originalQosClass i st =
     (case st of (pod, annotation) \<Rightarrow>
       (let container = podContainers pod ! i
        in case ResourcePolicy b (ctrName container) of
             None \<Rightarrow> Some st
           | Some policy \<Rightarrow>
               (if resizeRequiresRestart container ResourceCPU then Some st
                else if \<not> hasResourcesToIncrease Q container then Some st
                else do {
                  resources \<leftarrow> NewResources Q policy container;
                  if containerResizeChangesQosClass Q ord h originalQosClass pod i resources then Some st
                  else do {
                    let resources' = finalResources Q h originalQosClass resources;
                    annotation' \<leftarrow> updateBoostAnnotation Q annotation (ctrName container) (ctrResources container);
                    Some (setContainerResources i resources' pod, annotation')
                  }
                })))"

fun boostLoop ::
  "('q, 'd) quantity_api \<Rightarrow> (string list \<Rightarrow> string list) \<Rightarrow> pod_handler \<Rightarrow> 'q boost \<Rightarrow> qos_class \<Rightarrow> nat list \<Rightarrow>
   'q pod \<times> boost_annotation \<Rightarrow> ('q pod \<times> boost_annotation) option" where
  "boostLoop Q ord h b cls [] st = Some st"
| "boostLoop Q ord h b cls (i # is) st = do {
     st' \<leftarrow> boostContainer Q ord h b cls i st;
     boostLoop Q ord h b cls is st'
   }"

definition annotatePod :: "'q json_api \<Rightarrow> string \<Rightarrow> boost_annotation \<Rightarrow> 'q pod \<Rightarrow> 'q pod option" where
  "annotatePod J name annotation pod = do {
     json \<leftarrow> ToJSON J annotation;
     annotations \<leftarrow> map_assign BoostAnnotationKey json
        (if is_nil (podAnnotations pod) then make_map else podAnnotations pod);
     labels \<leftarrow> map_assign BoostLabelKey name (if is_nil (podLabels pod) then make_map else podLabels pod);
     Some (pod\<lparr>podAnnotations := annotations, podLabels := labels\<rparr>)
   }"

definition boostContainerResources ::
  "('q, 'd) quantity_api \<Rightarrow> 'q json_api \<Rightarrow> go_runtime \<Rightarrow> pod_handler \<Rightarrow> 'q boost \<Rightarrow> 'q pod \<Rightarrow> 'q pod option" where
  "boostContainerResources Q J rt h b pod = do {
     let originalQosClass = computePodQOS Q (rangeOrder rt) pod (podLevelResourcesEnabled h);
     (pod', annotation) \<leftarrow> boostLoop Q (rangeOrder rt) h b originalQosClass
        [0 ..< length (podContainers pod)] (pod, NewBoostAnnotation (timeNow rt));
     if map_len (InitCPULimits annotation) > 0 \<or> map_len (InitCPURequests annotation) > 0
     then annotatePod J (boostName b) annotation pod'
     else Some pod'
   }"

datatype admission_response =
    Errored nat go_error
  | Allowed string
  | PatchResponseFromRaw string string

abbreviation StatusBadRequest :: nat where "StatusBadRequest \<equiv> 400"
abbreviation StatusInternalServerError :: nat where "StatusInternalServerError \<equiv> 500"

definition Handle ::
  "('q, 'd, 'w) deps \<Rightarrow> go_runtime \<Rightarrow> ('r \<Rightarrow> go_error + 'q pod) \<Rightarrow> ('r \<Rightarrow> string) \<Rightarrow> pod_handler \<Rightarrow> 'r \<Rightarrow>
   ('q, 'w) manager \<Rightarrow> admission_response option" where
  "Handle D rt decode raw h req m =
     (case decode req of
        Inl err \<Rightarrow> Some (Errored StatusBadRequest err)
      | Inr pod \<Rightarrow>
          (case GetCPUBoostForPod rt pod m of
             None \<Rightarrow> Some (Allowed ''no boost matched'')
           | Some r \<Rightarrow> do {
               pod' \<leftarrow> boostContainerResources (dQ D) (dJ D) rt h (boostAt m r) pod;
               case MarshalPod (dJ D) pod' of
                 Inl err \<Rightarrow> Some (Errored StatusInternalServerError err)
               | Inr marshaledPod \<Rightarrow> Some (PatchResponseFromRaw (raw req) marshaledPod)
             }))"

section \<open>One container\<close>

definition made :: "boost_annotation \<Rightarrow> bool" where
  "made a \<longleftrightarrow> InitCPURequests a \<noteq> None \<and> InitCPULimits a \<noteq> None"

text \<open>The string that the annotation keeps for the CPU entry of a resource list.\<close>

definition cpu_string :: "('q, 'd) quantity_api \<Rightarrow> 'q gomap \<Rightarrow> string option" where
  "cpu_string Q m = map_option (QString Q) (map_get m ResourceCPU)"

lemma updateBoostAnnotation_made:
  assumes "made a"
  shows "\<exists>a'. updateBoostAnnotation Q a n res = Some a' \<and> made a' \<and> BoostTimestamp a' = BoostTimestamp a \<and>
    (\<forall>k. map_get (InitCPURequests a') k =
       (if k = n \<and> cpu_string Q (Requests res) \<noteq> None then cpu_string Q (Requests res) else map_get (InitCPURequests a) k)) \<and>
    (\<forall>k. map_get (InitCPULimits a') k =
       (if k = n \<and> cpu_string Q (Limits res) \<noteq> None then cpu_string Q (Limits res) else map_get (InitCPULimits a) k))"
proof -
  obtain rq lm where a: "InitCPURequests a = Some rq" "InitCPULimits a = Some lm"
    using assms by (auto simp: made_def)
  show ?thesis
    by (cases "map_get (Requests res) ResourceCPU"; cases "map_get (Limits res) ResourceCPU")
       (simp_all add: updateBoostAnnotation_def a made_def cpu_string_def map_assign_def map_get_def lookup_update)
qed

lemma boostContainer_outcome:
  assumes "made a"
  obtains (skip) "boostContainer Q ord h b cls i (pod, a) = Some (pod, a)"
  | (boost) policy res a' where "ResourcePolicy b (ctrName (podContainers pod ! i)) = Some policy"
      "hasResourcesToIncrease Q (podContainers pod ! i)"
      "NewResources Q policy (podContainers pod ! i) = Some res"
      "computePodQOS Q ord (setContainerResources i res pod) (podLevelResourcesEnabled h) = cls"
      "updateBoostAnnotation Q a (ctrName (podContainers pod ! i)) (ctrResources (podContainers pod ! i)) = Some a'"
      "boostContainer Q ord h b cls i (pod, a) = Some (setContainerResources i (finalResources Q h cls res) pod, a')"
proof -
  let ?c = "podContainers pod ! i"
  obtain a' where a': "updateBoostAnnotation Q a (ctrName ?c) (ctrResources ?c) = Some a'"
    using updateBoostAnnotation_made [OF assms] by blast
  show thesis
  proof (cases "ResourcePolicy b (ctrName ?c)")
    case None
    then show thesis by (intro skip) (simp add: boostContainer_def Let_def)
  next
    case (Some policy)
    obtain res where r: "NewResources Q policy ?c = Some res" using rpol.returns by blast
    show thesis
    proof (cases "resizeRequiresRestart ?c ResourceCPU \<or> \<not> hasResourcesToIncrease Q ?c \<or>
        containerResizeChangesQosClass Q ord h cls pod i res")
      case True
      with Some r show thesis by (intro skip) (auto simp: boostContainer_def Let_def)
    next
      case False
      with Some r a' show thesis
        by (intro boost [OF Some _ r _ a'])
           (simp_all add: boostContainer_def Let_def containerResizeChangesQosClass_def)
    qed
  qed
qed

lemma setContainerResources_fields [simp]:
  "podInitContainers (setContainerResources i res pod) = podInitContainers pod"
  "podSpecResources (setContainerResources i res pod) = podSpecResources pod"
  "podName (setContainerResources i res pod) = podName pod"
  "podNamespace (setContainerResources i res pod) = podNamespace pod"
  "podLabels (setContainerResources i res pod) = podLabels pod"
  "podAnnotations (setContainerResources i res pod) = podAnnotations pod"
  "podConditions (setContainerResources i res pod) = podConditions pod"
  "length (podContainers (setContainerResources i res pod)) = length (podContainers pod)"
  "j < length (podContainers pod) \<Longrightarrow> podContainers (setContainerResources i res pod) ! j =
     (if j = i then (podContainers pod ! i)\<lparr>ctrResources := res\<rparr> else podContainers pod ! j)"
  by (simp_all add: setContainerResources_def nth_list_update)

section \<open>The quality of service class\<close>

text \<open>Only the containers and the pod level resources determine the class.\<close>

lemma computePodQOS_cong:
  assumes "podContainers p = podContainers p'" "podInitContainers p = podInitContainers p'"
    "podSpecResources p = podSpecResources p'"
  shows "computePodQOS Q ord p lvl = computePodQOS Q ord p' lvl"
  by (simp only: computePodQOS_def assms)

text \<open>
  The class that a boosted pod may have: that of the original pod, but where limits are removed a burstable
  pod may lose the only amount that counted.
\<close>

definition class_kept :: "pod_handler \<Rightarrow> qos_class \<Rightarrow> qos_class \<Rightarrow> bool" where
  "class_kept h cls c \<longleftrightarrow> c = cls \<or> removeLimits h \<and> cls = Burstable \<and> c = BestEffort"

lemma total_amount_zero: "total_amount val sel cs n = 0 \<longleftrightarrow> (\<forall>c \<in> set cs. qos_amount val (sel (ctrResources c)) n = 0)"
proof -
  have "0 \<le> qos_amount val (sel (ctrResources c)) n" for c by (simp add: qos_amount_def split: option.splits)
  then show ?thesis unfolding total_amount_def by (subst sum_list_nonneg_eq_0_iff) auto
qed

lemma set_containers:
  "i < length (podContainers p) \<Longrightarrow> set (podContainers (setContainerResources i res p)) =
     insert ((podContainers p ! i)\<lparr>ctrResources := res\<rparr>) {podContainers p ! j | j. j < length (podContainers p) \<and> j \<noteq> i}"
  unfolding setContainerResources_def by (auto simp: set_conv_nth nth_list_update)

context quantity_laws
begin

text \<open>A best effort pod stays one when a limit is removed.\<close>

lemma best_effort_without_limit:
  assumes "i < length (podContainers p)" and "\<not> (lvl \<and> podSpecResources p \<noteq> None)"
    and "pod_qos val (setContainerResources i res p) lvl = BestEffort"
  shows "pod_qos val (setContainerResources i (res\<lparr>Limits := map_delete ResourceCPU (Limits res)\<rparr>) p) lvl = BestEffort"
proof -
  have formula: "pod_qos val q lvl = BestEffort \<longleftrightarrow> (\<forall>n \<in> {ResourceCPU, ResourceMemory}. \<forall>c \<in> set (podContainers q @ podInitContainers q).
      qos_amount val (Requests (ctrResources c)) n = 0 \<and> qos_amount val (Limits (ctrResources c)) n = 0)"
    if "podSpecResources q = podSpecResources p" for q :: "'q pod"
    using assms(2) that
    by (cases lvl; cases "podSpecResources p")
       (auto simp: pod_qos_def Let_def qos_formula_def total_amount_zero split: if_splits)
  have amount: "qos_amount val (Limits res) n = 0 \<Longrightarrow> qos_amount val (map_delete ResourceCPU (Limits res)) n = 0" for n
    by (auto simp: qos_amount_def map_get_delete split: option.splits if_splits)
  from assms(3) show ?thesis
    unfolding formula [OF setContainerResources_fields(2)] by (auto simp: set_containers [OF assms(1)] amount)
qed

lemma pod_qos_pod_level:
  "lvl \<Longrightarrow> podSpecResources p = Some res \<Longrightarrow> podSpecResources p' = Some res \<Longrightarrow> pod_qos val p lvl = pod_qos val p' lvl"
  by (simp add: pod_qos_def)

lemma no_cpu_limit_not_guaranteed:
  assumes "c \<in> set (podContainers p)" and "map_get (Limits (ctrResources c)) ResourceCPU = None"
    and "\<not> (lvl \<and> podSpecResources p \<noteq> None)"
  shows "pod_qos val p lvl \<noteq> Guaranteed"
proof -
  have "\<not> list_all (\<lambda>c. has_limits val (ctrResources c)) (podContainers p @ podInitContainers p)"
  proof -
    have "\<not> has_limits val (ctrResources c)" using assms(2) by (simp add: has_limits_def qos_amount_def)
    with assms(1) show ?thesis by (auto simp: list_all_iff)
  qed
  with assms(3) show ?thesis
    by (cases lvl; cases "podSpecResources p") (simp_all add: pod_qos_def Let_def qos_formula_def del: list_all_append)
qed

lemma boostContainer_qos:
  assumes o: "go_order ord" and "i < length (podContainers pod)" and "made a"
    and r: "boostContainer Q ord h b cls i (pod, a) = Some (pod', a')"
    and inv: "class_kept h cls (computePodQOS Q ord pod (podLevelResourcesEnabled h))"
  shows "class_kept h cls (computePodQOS Q ord pod' (podLevelResourcesEnabled h))"
  using assms(3)
proof (cases rule: boostContainer_outcome [of a Q ord h b cls i pod])
  case skip
  with r inv show ?thesis by simp
next
  case (boost policy res a2)
  then have pod': "pod' = setContainerResources i (finalResources Q h cls res) pod" using r by simp
  let ?lvl = "podLevelResourcesEnabled h"
  show ?thesis
  proof (cases "finalResources Q h cls res = res")
    case True
    with pod' boost(4) show ?thesis by (simp add: class_kept_def)
  next
    case False
    then have rem: "canRemoveLimit h cls"
      and fin: "finalResources Q h cls res = res\<lparr>Limits := map_delete ResourceCPU (Limits res)\<rparr>"
      by (auto simp: finalResources_def split: if_splits)
    from rem have h: "removeLimits h" "cls \<noteq> Guaranteed" by (auto simp: canRemoveLimit_def split: if_splits)
    show ?thesis
    proof (cases "?lvl \<and> podSpecResources pod \<noteq> None")
      case True
      then have "computePodQOS Q ord pod' ?lvl = computePodQOS Q ord (setContainerResources i res pod) ?lvl"
        by (auto simp: computePodQOS_formula [OF o] pod' intro: pod_qos_pod_level)
      with boost(4) show ?thesis by (simp add: class_kept_def)
    next
      case False
      have "podContainers pod' ! i \<in> set (podContainers pod')" using assms(2) pod' by (intro nth_mem) simp
      moreover have "map_get (Limits (ctrResources (podContainers pod' ! i))) ResourceCPU = None"
        using assms(2) by (simp add: pod' fin)
      ultimately have "computePodQOS Q ord pod' ?lvl \<noteq> Guaranteed"
        using no_cpu_limit_not_guaranteed [of "podContainers pod' ! i" pod' ?lvl] False
        by (simp add: computePodQOS_formula [OF o] pod')
      moreover have "computePodQOS Q ord pod' ?lvl = BestEffort" if "cls = BestEffort"
        using best_effort_without_limit [OF assms(2) False, of res] boost(4) that
        unfolding pod' fin computePodQOS_formula [OF o] by simp
      ultimately show ?thesis using h
        by (cases cls; cases "computePodQOS Q ord pod' ?lvl") (simp_all add: class_kept_def)
    qed
  qed
qed

lemma boostContainer_keeps:
  assumes "made a" and r: "boostContainer Q ord h b cls i (pod, a) = Some (pod', a')"
  shows "made a' \<and> length (podContainers pod') = length (podContainers pod)"
  using assms(1)
proof (cases rule: boostContainer_outcome [of a Q ord h b cls i pod])
  case skip
  with assms show ?thesis by simp
next
  case (boost policy res a2)
  with updateBoostAnnotation_made [OF assms(1), of Q "ctrName (podContainers pod ! i)" "ctrResources (podContainers pod ! i)"] r
  show ?thesis by auto
qed

lemma boostLoop_qos:
  assumes o: "go_order ord"
  shows "boostLoop Q ord h b cls is (pod, a) = Some (pod', a') \<Longrightarrow> made a \<Longrightarrow>
    \<forall>i \<in> set is. i < length (podContainers pod) \<Longrightarrow>
    class_kept h cls (computePodQOS Q ord pod (podLevelResourcesEnabled h)) \<Longrightarrow>
    class_kept h cls (computePodQOS Q ord pod' (podLevelResourcesEnabled h))"
proof (induction "is" arbitrary: pod a)
  case (Cons i rest)
  then obtain pod1 a1 where s: "boostContainer Q ord h b cls i (pod, a) = Some (pod1, a1)"
    "boostLoop Q ord h b cls rest (pod1, a1) = Some (pod', a')" by (auto simp: bind_eq_Some_conv)
  have i: "i < length (podContainers pod)" using Cons.prems(3) by simp
  note k = boostContainer_keeps [OF Cons.prems(2) s(1)]
  note q = boostContainer_qos [OF o i Cons.prems(2) s(1) Cons.prems(4)]
  show ?case by (rule Cons.IH [OF s(2) _ _ q]) (use k Cons.prems(3) in auto)
qed simp

end

section \<open>The loop over the containers\<close>

text \<open>
  How the annotation relates a container before and after the loop: a container that was not boosted
  is as it was and has no entry; for a boosted one the entries keep the original CPU values, and
  the CPU entries are the only ones that changed.
\<close>

definition recorded :: "('q, 'd) quantity_api \<Rightarrow> boost_annotation \<Rightarrow> 'q container \<Rightarrow> 'q container \<Rightarrow> bool" where
  "recorded Q a c c' \<longleftrightarrow>
     ctrName c' = ctrName c \<and> ctrResizePolicy c' = ctrResizePolicy c \<and>
     (c' = c \<and> map_get (InitCPURequests a) (ctrName c) = None \<and> map_get (InitCPULimits a) (ctrName c) = None \<or>
      hasResourcesToIncrease Q c \<and>
      map_get (InitCPURequests a) (ctrName c) = cpu_string Q (Requests (ctrResources c)) \<and>
      map_get (InitCPULimits a) (ctrName c) = cpu_string Q (Limits (ctrResources c)) \<and>
      same_entries_but_cpu (Requests (ctrResources c)) (Requests (ctrResources c')) \<and>
      (\<forall>k. k \<noteq> ResourceCPU \<longrightarrow> map_get (Limits (ctrResources c')) k = map_get (Limits (ctrResources c)) k) \<and>
      (map_get (Limits (ctrResources c)) ResourceCPU = None \<longrightarrow> map_get (Limits (ctrResources c')) ResourceCPU = None))"

definition unrecorded :: "boost_annotation \<Rightarrow> string \<Rightarrow> bool" where
  "unrecorded a n \<longleftrightarrow> map_get (InitCPURequests a) n = None \<and> map_get (InitCPULimits a) n = None"

definition agree :: "boost_annotation \<Rightarrow> boost_annotation \<Rightarrow> string \<Rightarrow> bool" where
  "agree a a' n \<longleftrightarrow> map_get (InitCPURequests a') n = map_get (InitCPURequests a) n \<and>
     map_get (InitCPULimits a') n = map_get (InitCPULimits a) n"

text \<open>The effect of the rounds for the indices \<open>is\<close>.\<close>

definition loop_effect ::
  "('q, 'd) quantity_api \<Rightarrow> nat list \<Rightarrow> 'q pod \<Rightarrow> boost_annotation \<Rightarrow> 'q pod \<Rightarrow> boost_annotation \<Rightarrow> bool" where
  "loop_effect Q is pod a pod' a' \<longleftrightarrow>
     made a' \<and> BoostTimestamp a' = BoostTimestamp a \<and> pod' = pod\<lparr>podContainers := podContainers pod'\<rparr> \<and>
     map ctrName (podContainers pod') = map ctrName (podContainers pod) \<and>
     (\<forall>k. k \<notin> ctrName ` set (podContainers pod) \<longrightarrow> agree a a' k) \<and>
     (\<forall>j < length (podContainers pod).
        if j \<in> set is then recorded Q a' (podContainers pod ! j) (podContainers pod' ! j)
        else podContainers pod' ! j = podContainers pod ! j \<and> agree a a' (ctrName (podContainers pod ! j)))"

lemma loop_effect_Nil: "made a \<Longrightarrow> loop_effect Q [] pod a pod a"
  by (simp add: loop_effect_def agree_def)

lemma loop_effect_Cons:
  assumes 1: "loop_effect Q [i] pod a pod1 a1" and 2: "loop_effect Q rest pod1 a1 pod' a'" and "i \<notin> set rest"
  shows "loop_effect Q (i # rest) pod a pod' a'"
proof -
  have len: "length (podContainers pod1) = length (podContainers pod)"
    using 1 map_eq_imp_length_eq unfolding loop_effect_def by blast
  have "if j \<in> set (i # rest) then recorded Q a' (podContainers pod ! j) (podContainers pod' ! j)
      else podContainers pod' ! j = podContainers pod ! j \<and> agree a a' (ctrName (podContainers pod ! j))"
    if j: "j < length (podContainers pod)" for j
  proof -
    have e1: "if j = i then recorded Q a1 (podContainers pod ! j) (podContainers pod1 ! j)
        else podContainers pod1 ! j = podContainers pod ! j \<and> agree a a1 (ctrName (podContainers pod ! j))"
      using 1 j by (auto simp: loop_effect_def)
    have e2: "if j \<in> set rest then recorded Q a' (podContainers pod1 ! j) (podContainers pod' ! j)
        else podContainers pod' ! j = podContainers pod1 ! j \<and> agree a1 a' (ctrName (podContainers pod1 ! j))"
      using 2 j len by (simp add: loop_effect_def)
    show ?thesis
    proof (cases "j = i")
      case True
      with e1 e2 assms(3) have r: "recorded Q a1 (podContainers pod ! i) (podContainers pod1 ! i)"
        "podContainers pod' ! i = podContainers pod1 ! i" "agree a1 a' (ctrName (podContainers pod1 ! i))" by auto
      then have "ctrName (podContainers pod1 ! i) = ctrName (podContainers pod ! i)" by (simp add: recorded_def)
      with r have "recorded Q a' (podContainers pod ! i) (podContainers pod' ! i)"
        by (simp add: recorded_def agree_def)
      with True show ?thesis by simp
    next
      case False
      with e1 e2 show ?thesis by (auto simp: agree_def)
    qed
  qed
  moreover have "pod' = pod\<lparr>podContainers := podContainers pod'\<rparr>"
    using 1 2 by (cases pod; cases pod1; cases pod') (simp add: loop_effect_def)
  moreover have "agree a a' k" if "k \<notin> ctrName ` set (podContainers pod)" for k
  proof -
    have "ctrName ` set (podContainers pod1) = ctrName ` set (podContainers pod)"
      using 1 by (metis list.set_map loop_effect_def)
    with 1 2 that show ?thesis by (simp add: loop_effect_def agree_def)
  qed
  ultimately show ?thesis using 1 2 unfolding loop_effect_def by simp
qed

lemma finalResources_entries:
  "Requests (finalResources Q h cls res) = Requests res"
  "k \<noteq> ResourceCPU \<Longrightarrow> map_get (Limits (finalResources Q h cls res)) k = map_get (Limits res) k"
  "map_get (Limits res) ResourceCPU = None \<Longrightarrow> map_get (Limits (finalResources Q h cls res)) ResourceCPU = None"
  by (simp_all add: finalResources_def go_map)

lemma boostContainer_effect:
  assumes "made a" and "i < length (podContainers pod)" and "unrecorded a (ctrName (podContainers pod ! i))"
    and d: "distinct (map ctrName (podContainers pod))"
  shows "\<exists>pod' a'. boostContainer Q ord h b cls i (pod, a) = Some (pod', a') \<and> loop_effect Q [i] pod a pod' a'"
  using assms(1)
proof (cases rule: boostContainer_outcome [of a Q ord h b cls i pod])
  case skip
  moreover have "loop_effect Q [i] pod a pod a"
    using assms(1,3) by (simp add: loop_effect_def recorded_def unrecorded_def agree_def)
  ultimately show ?thesis by blast
next
  case (boost policy res a')
  let ?c = "podContainers pod ! i" and ?r = "finalResources Q h cls res"
  obtain a2 where a2: "updateBoostAnnotation Q a (ctrName ?c) (ctrResources ?c) = Some a2" "made a2"
    "BoostTimestamp a2 = BoostTimestamp a"
    "\<And>k. map_get (InitCPURequests a2) k = (if k = ctrName ?c \<and> cpu_string Q (Requests (ctrResources ?c)) \<noteq> None
       then cpu_string Q (Requests (ctrResources ?c)) else map_get (InitCPURequests a) k)"
    "\<And>k. map_get (InitCPULimits a2) k = (if k = ctrName ?c \<and> cpu_string Q (Limits (ctrResources ?c)) \<noteq> None
       then cpu_string Q (Limits (ctrResources ?c)) else map_get (InitCPULimits a) k)"
    using updateBoostAnnotation_made [OF assms(1), of Q "ctrName ?c" "ctrResources ?c"] by blast
  have eq: "a2 = a'" using a2(1) boost(5) by simp
  have ent: "same_entries_but_cpu (Requests (ctrResources ?c)) (Requests res)"
    "same_entries_but_cpu (Limits (ctrResources ?c)) (Limits res)"
    using rpol.requests_entries [OF boost(3)] rpol.limits_entries [OF boost(3)] .
  have "map_get (InitCPURequests a') (ctrName ?c) = cpu_string Q (Requests (ctrResources ?c))"
    "map_get (InitCPULimits a') (ctrName ?c) = cpu_string Q (Limits (ctrResources ?c))"
    using a2(4,5) assms(3) by (auto simp: eq unrecorded_def)
  then have rec: "recorded Q a' ?c (?c\<lparr>ctrResources := ?r\<rparr>)"
    using ent boost(2) by (simp add: recorded_def finalResources_entries same_entries_but_cpu_def)
  have "agree a a' (ctrName (podContainers pod ! j))" if "j < length (podContainers pod)" "j \<noteq> i" for j
    using d assms(2) that a2(4,5) by (simp add: agree_def eq distinct_conv_nth)
  moreover have "agree a a' k" if "k \<notin> ctrName ` set (podContainers pod)" for k
  proof -
    have "k \<noteq> ctrName ?c" using that assms(2) by auto
    with a2(4,5) show ?thesis by (simp add: agree_def eq)
  qed
  ultimately have "loop_effect Q [i] pod a (setContainerResources i ?r pod) a'" using rec a2(2,3) assms(2)
    by (auto simp: loop_effect_def eq setContainerResources_def map_update list_update_same_conv nth_list_update)
  with boost(6) show ?thesis by blast
qed

lemma boostLoop_effect:
  assumes "made a" and "distinct is" and "\<forall>i \<in> set is. i < length (podContainers pod)"
    and "distinct (map ctrName (podContainers pod))"
    and "\<forall>i \<in> set is. unrecorded a (ctrName (podContainers pod ! i))"
  shows "\<exists>pod' a'. boostLoop Q ord h b cls is (pod, a) = Some (pod', a') \<and> loop_effect Q is pod a pod' a'"
  using assms
proof (induction "is" arbitrary: pod a)
  case Nil
  then show ?case by (simp add: loop_effect_Nil)
next
  case (Cons i rest)
  have i: "i < length (podContainers pod)" "i \<notin> set rest" using Cons.prems by auto
  from boostContainer_effect [OF Cons.prems(1) i(1) _ Cons.prems(4), of Q ord h b cls] Cons.prems(5)
  obtain pod1 a1 where s: "boostContainer Q ord h b cls i (pod, a) = Some (pod1, a1)" "loop_effect Q [i] pod a pod1 a1"
    by auto
  have e: "made a1" "map ctrName (podContainers pod1) = map ctrName (podContainers pod)"
    using s(2) by (simp_all add: loop_effect_def)
  from e(2) have len: "length (podContainers pod1) = length (podContainers pod)" by (rule map_eq_imp_length_eq)
  have "unrecorded a1 (ctrName (podContainers pod1 ! j))" if "j \<in> set rest" for j
  proof -
    have "j < length (podContainers pod)" "j \<noteq> i" using Cons.prems(3) that i(2) by auto
    with s(2) have "podContainers pod1 ! j = podContainers pod ! j" "agree a a1 (ctrName (podContainers pod ! j))"
      by (simp_all add: loop_effect_def)
    with Cons.prems(5) that show ?thesis by (simp add: unrecorded_def agree_def)
  qed
  with Cons.IH [OF e(1), of pod1] Cons.prems(2,3,4) e(2) len
  obtain pod' a' where l: "boostLoop Q ord h b cls rest (pod1, a1) = Some (pod', a')" "loop_effect Q rest pod1 a1 pod' a'"
    by auto
  from loop_effect_Cons [OF s(2) l(2) i(2)] s(1) l(1) show ?case by simp
qed

section \<open>The annotation as JSON\<close>

text \<open>
  What the webhook and the revert rely on in the encoding of the annotation: an annotation with a
  time that RFC 3339 can express (years 0 to 9999) and ASCII names and values can be encoded, and
  decoding gives the same entries.
\<close>

definition rfc3339_time :: "int \<Rightarrow> bool" where
  "rfc3339_time t \<longleftrightarrow> - 62167219200000000000 \<le> t \<and> t < 253402300800000000000"

definition ascii_entries :: "string gomap \<Rightarrow> bool" where
  "ascii_entries m \<longleftrightarrow> (\<forall>k v. map_get m k = Some v \<longrightarrow> ascii_string k \<and> ascii_string v)"

locale annotation_codec =
  fixes J :: "'q json_api"
  assumes codec: "rfc3339_time (BoostTimestamp a) \<Longrightarrow> ascii_entries (InitCPURequests a) \<Longrightarrow>
    ascii_entries (InitCPULimits a) \<Longrightarrow>
    \<exists>s b. MarshalAnnotation J a = Inr s \<and> UnmarshalAnnotation J s = Inr b \<and>
      BoostTimestamp b = BoostTimestamp a \<and>
      (\<forall>n. map_get (InitCPURequests b) n = map_get (InitCPURequests a) n) \<and>
      (\<forall>n. map_get (InitCPULimits b) n = map_get (InitCPULimits a) n)"

section \<open>Reverting a boosted container\<close>

definition same_resources :: "('q \<Rightarrow> rat) \<Rightarrow> 'q gomap \<Rightarrow> 'q gomap \<Rightarrow> bool" where
  "same_resources val m m' \<longleftrightarrow>
     (\<forall>k. k \<noteq> ResourceCPU \<longrightarrow> map_get m' k = map_get m k) \<and>
     map_option val (map_get m' ResourceCPU) = map_option val (map_get m ResourceCPU)"

definition restored :: "('q \<Rightarrow> rat) \<Rightarrow> 'q container \<Rightarrow> 'q container \<Rightarrow> bool" where
  "restored val c c' \<longleftrightarrow> ctrName c' = ctrName c \<and> ctrResizePolicy c' = ctrResizePolicy c \<and>
     same_resources val (Requests (ctrResources c)) (Requests (ctrResources c')) \<and>
     same_resources val (Limits (ctrResources c)) (Limits (ctrResources c'))"

locale boosting = quantity_laws Q val dval + annotation_codec J
  for Q :: "('q, 'd) quantity_api" and val dval and J :: "'q json_api"
begin

lemma revertResourceList_restores:
  assumes "\<forall>k. k \<noteq> ResourceCPU \<longrightarrow> map_get m' k = map_get m k"
    and "map_get m ResourceCPU = None \<longrightarrow> map_get m' ResourceCPU = None"
  shows "\<exists>m''. revertResourceList Q what (cpu_string Q m) m' = Some (m'', None) \<and> same_resources val m m''"
proof (cases "map_get m ResourceCPU")
  case None
  with assms show ?thesis by (simp add: cpu_string_def same_resources_def)
next
  case (Some q)
  obtain q' where q': "ParseQuantity Q (QString Q q) = Inr q'" "val q' = val q" using parse_stringE .
  obtain m'' where m'': "map_assign ResourceCPU q' (if is_nil m' then make_map else m') = Some m''"
    using assign_made_total by metis
  then have r: "revertResourceList Q what (cpu_string Q m) m' = Some (m'', None)"
    using Some q'(1) by (simp add: cpu_string_def revertResourceList_ok)
  have "map_get m'' k = map_get m k" if "k \<noteq> ResourceCPU" for k
    using revertResourceList_other [OF r that] assms(1) that by simp
  moreover have "map_get m'' ResourceCPU = Some q'" using map_get_assign [OF m''] by simp
  ultimately show ?thesis using r Some q'(2) by (auto simp: same_resources_def)
qed

lemma revertResourceList_recorded:
  assumes "m' = m \<and> orig = None \<or> orig = cpu_string Q m \<and>
    (\<forall>k. k \<noteq> ResourceCPU \<longrightarrow> map_get m' k = map_get m k) \<and>
    (map_get m ResourceCPU = None \<longrightarrow> map_get m' ResourceCPU = None)"
  obtains m'' where "revertResourceList Q what orig m' = Some (m'', None)" "same_resources val m m''"
  using assms
proof
  assume "m' = m \<and> orig = None"
  then show thesis using that by (simp add: same_resources_def)
next
  assume r: "orig = cpu_string Q m \<and> (\<forall>k. k \<noteq> ResourceCPU \<longrightarrow> map_get m' k = map_get m k) \<and>
    (map_get m ResourceCPU = None \<longrightarrow> map_get m' ResourceCPU = None)"
  with revertResourceList_restores [of m' m what] that show thesis by blast
qed

lemma revertContainer_restores:
  assumes rec: "recorded Q a c c'"
    and "map_get (InitCPURequests b) (ctrName c) = map_get (InitCPURequests a) (ctrName c)"
    and "map_get (InitCPULimits b) (ctrName c) = map_get (InitCPULimits a) (ctrName c)"
  shows "\<exists>c''. revertContainer Q b c' = Some (c'', None) \<and> restored val c c''"
proof -
  have n: "ctrName c' = ctrName c" "ctrResizePolicy c' = ctrResizePolicy c" using rec by (simp_all add: recorded_def)
  obtain rq where rq: "revertResourceList Q ''failed to parse CPU request''
      (map_get (InitCPURequests b) (ctrName c)) (Requests (ctrResources c')) = Some (rq, None)"
      "same_resources val (Requests (ctrResources c)) rq"
    by (rule revertResourceList_recorded [of "Requests (ctrResources c')" "Requests (ctrResources c)"
         "map_get (InitCPURequests b) (ctrName c)"])
       (use rec in \<open>auto simp: recorded_def assms(2) same_entries_but_cpu_def\<close>)
  obtain lm where lm: "revertResourceList Q ''failed to parse CPU limit''
      (map_get (InitCPULimits b) (ctrName c)) (Limits (ctrResources c')) = Some (lm, None)"
      "same_resources val (Limits (ctrResources c)) lm"
    by (rule revertResourceList_recorded [of "Limits (ctrResources c')" "Limits (ctrResources c)"
         "map_get (InitCPULimits b) (ctrName c)"])
       (use rec in \<open>auto simp: recorded_def assms(3)\<close>)
  from rq lm show ?thesis by (simp add: revertContainer_def Let_def n restored_def)
qed

lemma revertContainers_restores:
  assumes "list_all2 (recorded Q a) cs cs'"
    and "\<And>n. map_get (InitCPURequests b) n = map_get (InitCPURequests a) n"
    and "\<And>n. map_get (InitCPULimits b) n = map_get (InitCPULimits a) n"
  shows "\<exists>cs''. revertContainers Q b cs' = Some (cs'', None) \<and> list_all2 (restored val) cs cs''"
  using assms(1)
proof (induction rule: list_all2_induct)
  case (Cons c cs c' cs')
  from revertContainer_restores [OF Cons.hyps(1) assms(2,3)] Cons.IH show ?case by auto
qed simp

lemma boosted_has_entry:
  assumes "hasResourcesToIncrease Q c"
  shows "cpu_string Q (Requests (ctrResources c)) \<noteq> None \<or> cpu_string Q (Limits (ctrResources c)) \<noteq> None"
  using assms
  by (cases "map_get (Requests (ctrResources c)) ResourceCPU"; cases "map_get (Limits (ctrResources c)) ResourceCPU")
     (simp_all add: hasResourcesToIncrease_def is_zero cpu_val cpu_string_def)

end

section \<open>The webhook on a pod\<close>

lemma map_len_0: "map_len m = 0 \<Longrightarrow> map_get m k = None"
  by (cases m) (auto simp: map_len_def alist_len_def map_get_def lookup.rep_eq)

lemma NewBoostAnnotation_made [simp]: "made (NewBoostAnnotation t)" "unrecorded (NewBoostAnnotation t) n"
  by (simp_all add: made_def unrecorded_def NewBoostAnnotation_def make_map_def map_get_def)

lemma boostLoop_all:
  assumes "distinct (map ctrName (podContainers pod))"
  obtains pod' a where "boostLoop Q ord h b cls [0 ..< length (podContainers pod)] (pod, NewBoostAnnotation t) = Some (pod', a)"
    "BoostTimestamp a = t" "pod' = pod\<lparr>podContainers := podContainers pod'\<rparr>"
    "list_all2 (recorded Q a) (podContainers pod) (podContainers pod')"
    "\<And>k. k \<notin> ctrName ` set (podContainers pod) \<Longrightarrow> unrecorded a k"
proof -
  let ?a = "NewBoostAnnotation t" and ?is = "[0 ..< length (podContainers pod)]"
  obtain pod' a where l: "boostLoop Q ord h b cls ?is (pod, ?a) = Some (pod', a)" "loop_effect Q ?is pod ?a pod' a"
    using boostLoop_effect [of ?a ?is pod Q ord h b cls] assms by auto
  note e = l(2) [unfolded loop_effect_def]
  have "length (podContainers pod') = length (podContainers pod)" using e map_eq_imp_length_eq by blast
  moreover have "recorded Q a (podContainers pod ! j) (podContainers pod' ! j)" if "j < length (podContainers pod)" for j
    using e that by auto
  ultimately have "list_all2 (recorded Q a) (podContainers pod) (podContainers pod')"
    by (simp add: list_all2_conv_all_nth)
  moreover have "unrecorded a k" if "k \<notin> ctrName ` set (podContainers pod)" for k
    using e that NewBoostAnnotation_made(2) [of t k] by (simp add: agree_def unrecorded_def)
  moreover have "BoostTimestamp a = t" using e by (simp add: NewBoostAnnotation_def)
  ultimately show thesis using that l(1) e by blast
qed

text \<open>A pod that the webhook boosted, and the pod that the revert of it gives.\<close>

definition reverts_to :: "('q \<Rightarrow> rat) \<Rightarrow> 'q pod \<Rightarrow> 'q pod \<Rightarrow> bool" where
  "reverts_to val pod pod'' \<longleftrightarrow>
     list_all2 (restored val) (podContainers pod) (podContainers pod'') \<and>
     pod'' = pod\<lparr>podContainers := podContainers pod'', podLabels := podLabels pod'',
                 podAnnotations := podAnnotations pod''\<rparr> \<and>
     (\<forall>k. map_get (podLabels pod'') k = (if k = BoostLabelKey then None else map_get (podLabels pod) k)) \<and>
     (\<forall>k. map_get (podAnnotations pod'') k = (if k = BoostAnnotationKey then None else map_get (podAnnotations pod) k))"

context boosting
begin

lemma recorded_ascii:
  assumes rec: "list_all2 (recorded Q a) cs cs'" and "\<And>k. k \<notin> ctrName ` set cs \<Longrightarrow> unrecorded a k"
    and "\<forall>c \<in> set cs. ascii_string (ctrName c)"
  shows "ascii_entries (InitCPURequests a)" "ascii_entries (InitCPULimits a)"
proof -
  have e: "ascii_string k \<and> ascii_string v"
    if "map_get (InitCPURequests a) k = Some v \<or> map_get (InitCPULimits a) k = Some v" for k v
  proof -
    from that have "\<not> unrecorded a k" by (auto simp: unrecorded_def)
    then have "k \<in> ctrName ` set cs" using assms(2) [of k] by (rule contrapos_np)
    then obtain c where c: "c \<in> set cs" "ctrName c = k" by blast
    from c(1) obtain i where i: "i < length cs" "cs ! i = c" by (auto simp: in_set_conv_nth)
    have "recorded Q a c (cs' ! i)" using list_all2_nthD [OF rec i(1)] i(2) by simp
    then have "map_get (InitCPURequests a) k \<in> {None, cpu_string Q (Requests (ctrResources c))} \<and>
        map_get (InitCPULimits a) k \<in> {None, cpu_string Q (Limits (ctrResources c))}"
      using c(2) unfolding recorded_def by blast
    with that obtain q where "v = QString Q q" by (auto simp: cpu_string_def)
    moreover have "ascii_string k" using assms(3) c by blast
    ultimately show ?thesis using string_ascii by blast
  qed
  then show "ascii_entries (InitCPURequests a)" "ascii_entries (InitCPULimits a)"
    unfolding ascii_entries_def by blast+
qed

lemma nothing_recorded:
  assumes "list_all2 (recorded Q a) cs cs'" and "map_len (InitCPULimits a) = 0" "map_len (InitCPURequests a) = 0"
  shows "cs' = cs"
  using assms(1)
proof (induction rule: list_all2_induct)
  case (Cons c cs c' cs')
  have "map_get (InitCPULimits a) k = None" "map_get (InitCPURequests a) k = None" for k
    using map_len_0 [OF assms(2)] map_len_0 [OF assms(3)] by simp_all
  with Cons.hyps(1) boosted_has_entry [of c] have "c' = c" unfolding recorded_def by metis
  with Cons.IH show ?case by simp
qed simp

lemma annotatePod_fields:
  assumes "MarshalAnnotation J a = Inr s"
  obtains pod' where "annotatePod J name a pod = Some pod'"
    "pod' = pod\<lparr>podLabels := podLabels pod', podAnnotations := podAnnotations pod'\<rparr>"
    "\<And>k. map_get (podLabels pod') k = (if k = BoostLabelKey then Some name else map_get (podLabels pod) k)"
    "\<And>k. map_get (podAnnotations pod') k = (if k = BoostAnnotationKey then Some s else map_get (podAnnotations pod) k)"
proof -
  obtain an lb where a: "map_assign BoostAnnotationKey s (if is_nil (podAnnotations pod) then make_map else podAnnotations pod) = Some an"
    "map_assign BoostLabelKey name (if is_nil (podLabels pod) then make_map else podLabels pod) = Some lb"
    using assign_made_total by metis
  have nil: "map_get (if is_nil m then make_map else m) k = map_get m k" for m :: "string gomap" and k
    by (cases m) (simp_all add: is_nil_def make_map_def map_get_def)
  show thesis
    by (rule that [of "pod\<lparr>podAnnotations := an, podLabels := lb\<rparr>"])
       (simp_all add: annotatePod_def ToJSON_def assms a map_get_assign [OF a(1)] map_get_assign [OF a(2)] nil)
qed

lemma same_pod:
  "pod1 = pod\<lparr>podContainers := podContainers pod1\<rparr> \<Longrightarrow> podContainers pod1 = podContainers pod \<Longrightarrow> pod1 = pod"
  by (cases pod; cases pod1) simp

lemma updated_pod:
  assumes "pod1 = pod\<lparr>podContainers := podContainers pod1\<rparr>"
    and "pod' = pod1\<lparr>podLabels := podLabels pod', podAnnotations := podAnnotations pod'\<rparr>"
  shows "pod'\<lparr>podContainers := cs, podLabels := lb, podAnnotations := an\<rparr> =
      pod\<lparr>podContainers := cs, podLabels := lb, podAnnotations := an\<rparr>"
    "podLabels pod1 = podLabels pod" "podAnnotations pod1 = podAnnotations pod"
  using assms by (cases pod'; cases pod1; cases pod; simp)+

lemma revert_annotated:
  assumes "UnmarshalAnnotation J s = Inr b" and "map_get (podAnnotations pod') BoostAnnotationKey = Some s"
    and "revertContainers Q b (podContainers pod') = Some (cs, None)"
  shows "RevertResourceBoost Q J pod' = Some (pod'\<lparr>podContainers := cs,
     podLabels := map_delete BoostLabelKey (podLabels pod'),
     podAnnotations := map_delete BoostAnnotationKey (podAnnotations pod')\<rparr>, None)"
  using assms by (simp add: RevertResourceBoost_def revertBoostResources_def BoostAnnotationFromPod_def revertBoostLabels_def)

lemma boost_then_revert:
  assumes names: "distinct (map ctrName (podContainers pod))" "\<forall>c \<in> set (podContainers pod). ascii_string (ctrName c)"
    and time: "rfc3339_time (timeNow rt)"
  shows "\<exists>pod'. boostContainerResources Q J rt h bst pod = Some pod' \<and>
    (pod' = pod \<or> (\<exists>pod''. map_get (podLabels pod') BoostLabelKey = Some (boostName bst) \<and>
       RevertResourceBoost Q J pod' = Some (pod'', None) \<and> reverts_to val pod pod''))"
proof -
  let ?cls = "computePodQOS Q (rangeOrder rt) pod (podLevelResourcesEnabled h)"
  obtain pod1 a where l: "boostLoop Q (rangeOrder rt) h bst ?cls [0 ..< length (podContainers pod)]
      (pod, NewBoostAnnotation (timeNow rt)) = Some (pod1, a)" "BoostTimestamp a = timeNow rt"
    "pod1 = pod\<lparr>podContainers := podContainers pod1\<rparr>"
    "list_all2 (recorded Q a) (podContainers pod) (podContainers pod1)"
    "\<And>k. k \<notin> ctrName ` set (podContainers pod) \<Longrightarrow> unrecorded a k"
    by (rule boostLoop_all [OF names(1)]) (rule that)
  show ?thesis
  proof (cases "map_len (InitCPULimits a) > 0 \<or> map_len (InitCPURequests a) > 0")
    case False
    then have "podContainers pod1 = podContainers pod" using nothing_recorded [OF l(4)] by simp
    then have "pod1 = pod" by (rule same_pod [OF l(3)])
    with False show ?thesis by (simp add: boostContainerResources_def l(1))
  next
    case True
    obtain s b where c: "MarshalAnnotation J a = Inr s" "UnmarshalAnnotation J s = Inr b"
      "\<And>n. map_get (InitCPURequests b) n = map_get (InitCPURequests a) n"
      "\<And>n. map_get (InitCPULimits b) n = map_get (InitCPULimits a) n"
      using codec [OF time [folded l(2)] recorded_ascii [OF l(4,5) names(2)]] by blast
    obtain pod' where p: "annotatePod J (boostName bst) a pod1 = Some pod'"
      "pod' = pod1\<lparr>podLabels := podLabels pod', podAnnotations := podAnnotations pod'\<rparr>"
      "\<And>k. map_get (podLabels pod') k = (if k = BoostLabelKey then Some (boostName bst) else map_get (podLabels pod1) k)"
      "\<And>k. map_get (podAnnotations pod') k = (if k = BoostAnnotationKey then Some s else map_get (podAnnotations pod1) k)"
      by (rule annotatePod_fields [OF c(1)]) (rule that)
    have cs': "podContainers pod' = podContainers pod1" using p(2) by (cases pod'; cases pod1) simp
    from revertContainers_restores [OF l(4) c(3,4)] obtain cs where
      cs: "revertContainers Q b (podContainers pod') = Some (cs, None)" "list_all2 (restored val) (podContainers pod) cs"
      unfolding cs' by blast
    let ?pod'' = "pod'\<lparr>podContainers := cs, podLabels := map_delete BoostLabelKey (podLabels pod'),
       podAnnotations := map_delete BoostAnnotationKey (podAnnotations pod')\<rparr>"
    have f: "?pod'' = pod\<lparr>podContainers := cs, podLabels := map_delete BoostLabelKey (podLabels pod'),
       podAnnotations := map_delete BoostAnnotationKey (podAnnotations pod')\<rparr>"
      "podLabels pod1 = podLabels pod" "podAnnotations pod1 = podAnnotations pod"
      by (rule updated_pod [OF l(3) p(2)])+
    have "reverts_to val pod ?pod''"
      unfolding f(1) by (simp add: reverts_to_def map_get_delete cs(2) p(3,4) f(2,3))
    moreover have "RevertResourceBoost Q J pod' = Some (?pod'', None)"
      by (rule revert_annotated [OF c(2) _ cs(1)]) (simp add: p(4))
    ultimately show ?thesis
      using p(3) boostContainerResources_def [of Q J rt h bst pod] by (simp add: l(1) p(1) True)
  qed
qed

end

section \<open>Properties\<close>

lemma annotatePod_containers:
  "annotatePod J name a pod = Some pod' \<Longrightarrow> podContainers pod' = podContainers pod \<and>
   podInitContainers pod' = podInitContainers pod \<and> podSpecResources pod' = podSpecResources pod"
  by (auto simp: annotatePod_def bind_eq_Some_conv)

lemma boostContainerResources_qos:
  assumes Q: "quantity_laws Q val dval" and o: "go_order (rangeOrder rt)"
    and r: "boostContainerResources Q J rt h b pod = Some pod'"
  shows "computePodQOS Q (rangeOrder rt) pod' (podLevelResourcesEnabled h) \<le>
           computePodQOS Q (rangeOrder rt) pod (podLevelResourcesEnabled h) \<and>
         (computePodQOS Q (rangeOrder rt) pod' (podLevelResourcesEnabled h) = Guaranteed) =
           (computePodQOS Q (rangeOrder rt) pod (podLevelResourcesEnabled h) = Guaranteed) \<and>
         (\<not> removeLimits h \<longrightarrow> computePodQOS Q (rangeOrder rt) pod' (podLevelResourcesEnabled h) =
            computePodQOS Q (rangeOrder rt) pod (podLevelResourcesEnabled h))"
proof -
  let ?q = "\<lambda>p. computePodQOS Q (rangeOrder rt) p (podLevelResourcesEnabled h)"
  obtain pod1 a where l: "boostLoop Q (rangeOrder rt) h b (?q pod) [0 ..< length (podContainers pod)]
      (pod, NewBoostAnnotation (timeNow rt)) = Some (pod1, a)"
    and f: "pod' = pod1 \<or> annotatePod J (boostName b) a pod1 = Some pod'"
    using r by (auto simp: boostContainerResources_def bind_eq_Some_conv split: if_splits)
  have "class_kept h (?q pod) (?q pod1)"
    by (rule quantity_laws.boostLoop_qos [OF Q o l]) (simp_all add: class_kept_def)
  moreover have "?q pod' = ?q pod1"
    using f annotatePod_containers by (metis computePodQOS_cong)
  ultimately show ?thesis by (auto simp: class_kept_def less_eq_qos_class_def)
qed

text \<open>
  C3. The webhook never raises the quality of service class of a pod and never moves a pod out of the
  guaranteed class; with the removal of limits switched off it never changes the class at all.
\<close>

theorem webhook_keeps_qos:
  assumes Q: "quantity_laws Q val dval" and o: "go_order (rangeOrder rt)"
    and r: "boostContainerResources Q J rt h b pod = Some pod'"
  shows "computePodQOS Q (rangeOrder rt) pod' (podLevelResourcesEnabled h) \<le>
           computePodQOS Q (rangeOrder rt) pod (podLevelResourcesEnabled h) \<and>
         (computePodQOS Q (rangeOrder rt) pod' (podLevelResourcesEnabled h) = Guaranteed) =
           (computePodQOS Q (rangeOrder rt) pod (podLevelResourcesEnabled h) = Guaranteed) \<and>
         (\<not> removeLimits h \<longrightarrow> computePodQOS Q (rangeOrder rt) pod' (podLevelResourcesEnabled h) =
            computePodQOS Q (rangeOrder rt) pod (podLevelResourcesEnabled h))"
  by (rule boostContainerResources_qos [OF assms])

theorem webhook_keeps_qos_witness:
  "\<exists>pod'. boostContainerResources nano_quantity sample_json sample_rt
       \<lparr>removeLimits = False, podLevelResourcesEnabled = False\<rparr> sample_boost sample_pod = Some pod' \<and>
     map_get (podLabels pod') BoostLabelKey = Some ''boost'' \<and>
     computePodQOS nano_quantity (rangeOrder sample_rt) pod' False = Burstable"
proof -
  let ?h = "\<lparr>removeLimits = False, podLevelResourcesEnabled = False\<rparr>"
  have "(case boostContainerResources nano_quantity sample_json sample_rt ?h sample_boost sample_pod of
      None \<Rightarrow> False | Some pod' \<Rightarrow> map_get (podLabels pod') BoostLabelKey = Some ''boost'')"
    by code_simp
  moreover have "computePodQOS nano_quantity (rangeOrder sample_rt) sample_pod False = Burstable"
    by code_simp
  ultimately show ?thesis
    using webhook_keeps_qos [OF nano.quantity_laws_axioms sample_order, of sample_json ?h sample_boost sample_pod]
    by (auto split: option.splits)
qed

definition limit_only_pod :: "int pod" where
  "limit_only_pod = sample_pod\<lparr>podContainers := [sample_container\<lparr>ctrResources :=
     \<lparr>Requests = Some (DAList.update ''cpu'' 0 DAList.empty), Limits = Some (DAList.update ''cpu'' 20 DAList.empty)\<rparr>\<rparr>]\<rparr>"

text \<open>
  With the removal of limits switched on the class can change: the class is compared before the
  CPU limit is removed, so a burstable pod whose only positive amount is a CPU limit ends up as a
  best effort pod.
\<close>

lemma limit_removal_changes_qos:
  "\<exists>pod'. boostContainerResources nano_quantity sample_json sample_rt
       \<lparr>removeLimits = True, podLevelResourcesEnabled = False\<rparr> sample_boost limit_only_pod = Some pod' \<and>
     computePodQOS nano_quantity (rangeOrder sample_rt) limit_only_pod False = Burstable \<and>
     computePodQOS nano_quantity (rangeOrder sample_rt) pod' False = BestEffort"
proof -
  have "case boostContainerResources nano_quantity sample_json sample_rt
       \<lparr>removeLimits = True, podLevelResourcesEnabled = False\<rparr> sample_boost limit_only_pod of
     None \<Rightarrow> False | Some pod' \<Rightarrow> computePodQOS nano_quantity (rangeOrder sample_rt) limit_only_pod False = Burstable \<and>
       computePodQOS nano_quantity (rangeOrder sample_rt) pod' False = BestEffort"
    by code_simp
  then show ?thesis by (auto split: option.splits)
qed

end
