(* ===== verification/Rfc3339.thy ===== *)
theory Rfc3339
  imports Strconv
begin

text \<open>
  The text form of a time in Go's standard packages \<^verbatim>\<open>time\<close> and \<^verbatim>\<open>encoding/json\<close>: RFC 3339 with as many
  digits of the second as are needed. A time is a number of nanoseconds since the epoch; it is printed in
  UTC, the time zone of the container the program runs in, and read with any offset.
\<close>

section \<open>The calendar\<close>

definition leap :: "nat \<Rightarrow> bool" where
  "leap y \<longleftrightarrow> (y mod 4 = 0 \<and> y mod 100 \<noteq> 0) \<or> y mod 400 = 0"

definition year_days :: "nat \<Rightarrow> nat" where
  "year_days y = (if leap y then 366 else 365)"

definition month_days :: "nat \<Rightarrow> nat \<Rightarrow> nat" where
  "month_days y m = (if m = 2 then (if leap y then 29 else 28) else if m \<in> {4, 6, 9, 11} then 30 else 31)"

text \<open>Days are counted from the first day of the year 0.\<close>

fun days_before_year :: "nat \<Rightarrow> nat" where
  "days_before_year 0 = 0"
| "days_before_year (Suc y) = days_before_year y + year_days y"

fun days_before_month :: "nat \<Rightarrow> nat \<Rightarrow> nat" where
  "days_before_month y 0 = 0"
| "days_before_month y (Suc m) = (if m = 0 then 0 else days_before_month y m + month_days y m)"

function split_year :: "nat \<Rightarrow> nat \<Rightarrow> nat \<times> nat" where
  "split_year y d = (if d < year_days y then (y, d) else split_year (Suc y) (d - year_days y))"
  by auto
termination by (relation "measure snd") (auto simp: year_days_def split: if_splits)

function split_month :: "nat \<Rightarrow> nat \<Rightarrow> nat \<Rightarrow> nat \<times> nat" where
  "split_month y m d = (if 12 \<le> m \<or> d < month_days y m then (m, d) else split_month y (Suc m) (d - month_days y m))"
  by auto
termination by (relation "measure (\<lambda>(y, m, d). 12 - m)") auto

declare split_year.simps [simp del] split_month.simps [simp del]

definition day_number :: "nat \<Rightarrow> nat \<Rightarrow> nat \<Rightarrow> nat" where
  "day_number y m d = days_before_year y + days_before_month y m + (d - 1)"

lemma split_year_sound:
  "split_year y d = (y', d') \<Longrightarrow> days_before_year y' + d' = days_before_year y + d \<and> d' < year_days y'"
proof (induction y d rule: split_year.induct)
  case (1 y d)
  show ?case
  proof (cases "d < year_days y")
    case True
    with 1 show ?thesis by (auto simp: split_year.simps [of y d])
  next
    case False
    with 1 show ?thesis by (simp add: split_year.simps [of y d])
  qed
qed

lemma split_month_sound:
  "split_month y m d = (m', d') \<Longrightarrow> 1 \<le> m \<Longrightarrow>
   days_before_month y m' + d' = days_before_month y m + d \<and> m \<le> m' \<and> (m \<le> 12 \<longrightarrow> m' \<le> 12) \<and> (m' < 12 \<longrightarrow> d' < month_days y m')"
proof (induction y m d rule: split_month.induct)
  case (1 y m d)
  show ?case
  proof (cases "12 \<le> m \<or> d < month_days y m")
    case True
    with 1 show ?thesis by (auto simp: split_month.simps [of y m d])
  next
    case False
    with 1 show ?thesis by (auto simp: split_month.simps [of y m d])
  qed
qed

lemma days_before_december: "days_before_month y 12 + 31 = year_days y"
  by (simp add: eval_nat_numeral month_days_def year_days_def)

lemma split_date:
  assumes "split_year 0 n = (y, doy)" and "split_month y 1 doy = (m, d)"
  shows "day_number y m (Suc d) = n \<and> 1 \<le> m \<and> m \<le> 12 \<and> Suc d \<le> month_days y m"
proof -
  have a: "days_before_year y + doy = n" "doy < year_days y" using split_year_sound [OF assms(1)] by simp_all
  have b: "days_before_month y m + d = doy" "1 \<le> m" "m \<le> 12" "m < 12 \<longrightarrow> d < month_days y m"
    using split_month_sound [OF assms(2)] by simp_all
  have "d < month_days y m"
  proof (cases "m < 12")
    case False
    with b(3) have "m = 12" by simp
    with a(2) b(1) days_before_december [of y] have "d < 31" by simp
    with \<open>m = 12\<close> show ?thesis by (simp add: month_days_def)
  qed (use b(4) in simp)
  with a b show ?thesis by (simp add: day_number_def)
qed

lemma ceil_div_step:
  fixes y k :: nat
  assumes "0 < k"
  shows "(y + k) div k = (y + (k - 1)) div k + of_bool (y mod k = 0)"
proof -
  have "(y + (k - 1)) div k = y div k + (y mod k + (k - 1)) div k"
    using div_add1_eq [of y "k - 1" k] assms by simp
  moreover have "(y mod k + (k - 1)) div k = (if y mod k = 0 then 0 else 1)"
  proof (cases "y mod k")
    case (Suc r)
    have "r < k" using Suc mod_less_divisor [OF assms, of y] by simp
    moreover have "y mod k + (k - 1) = k + r" using Suc assms by simp
    ultimately show ?thesis using Suc assms by simp
  qed (use assms in simp)
  ultimately show ?thesis using assms by simp
qed

lemma days_before_year_formula:
  "int (days_before_year y) = 365 * int y + int ((y + 3) div 4) - int ((y + 99) div 100) + int ((y + 399) div 400)"
proof (induction y)
  case (Suc y)
  have 4: "(Suc y + 3) div 4 = (y + 3) div 4 + of_bool (y mod 4 = 0)" using ceil_div_step [of 4 y] by simp
  have 100: "(Suc y + 99) div 100 = (y + 99) div 100 + of_bool (y mod 100 = 0)" using ceil_div_step [of 100 y] by simp
  have 400: "(Suc y + 399) div 400 = (y + 399) div 400 + of_bool (y mod 400 = 0)" using ceil_div_step [of 400 y] by simp
  have dvd: "(100 :: nat) dvd 400" "(4 :: nat) dvd 100" by simp_all
  have "y mod 400 = 0 \<longrightarrow> y mod 100 = 0" "y mod 100 = 0 \<longrightarrow> y mod 4 = 0"
    using dvd_trans [OF dvd(1), of y] dvd_trans [OF dvd(2), of y] by (simp_all only: mod_eq_0_iff_dvd) blast+
  then have "int (year_days y) = 365 + of_bool (y mod 4 = 0) - of_bool (y mod 100 = 0) + of_bool (y mod 400 = 0)"
    by (cases "y mod 400 = 0"; cases "y mod 100 = 0"; cases "y mod 4 = 0") (simp_all add: year_days_def leap_def)
  then show ?case using Suc unfolding 4 100 400 by simp
qed simp

lemma days_before_years: "days_before_year 10000 = 3652425" "days_before_year 1970 = 719528"
  using days_before_year_formula [of 10000] days_before_year_formula [of 1970] by simp_all

lemma days_before_year_mono: "y \<le> y' \<Longrightarrow> days_before_year y \<le> days_before_year y'"
  by (induction y' rule: dec_induct) simp_all

lemma split_year_bound:
  assumes "split_year 0 n = (y, doy)" and "n < 3652425"
  shows "y < 10000"
proof (rule ccontr)
  assume "\<not> y < 10000"
  then have "days_before_year 10000 \<le> days_before_year y" by (intro days_before_year_mono) simp
  with split_year_sound [OF assms(1)] assms(2) show False by (simp add: days_before_years)
qed

section \<open>Digits\<close>

fun digits :: "nat \<Rightarrow> nat \<Rightarrow> string" where
  "digits 0 n = []"
| "digits (Suc k) n = digits k (n div 10) @ [digit_char (n mod 10)]"

lemma digits_props [simp]: "length (digits k n) = k" "list_all is_digit (digits k n)"
  by (induction k arbitrary: n) (simp_all add: is_digit_digit_char)

lemma read_nat_digits: "read_nat (digits k n) = n mod 10 ^ k"
proof (induction k arbitrary: n)
  case (Suc k)
  have "n mod 10 ^ Suc k = 10 * (n div 10 mod 10 ^ k) + n mod 10" by (simp add: mod_mult2_eq mult.commute)
  with Suc show ?case by (simp add: read_nat_snoc)
qed (simp add: read_nat_def)

definition take_digits :: "nat \<Rightarrow> string \<Rightarrow> (nat \<times> string) option" where
  "take_digits k s =
     (if k \<le> length s \<and> list_all is_digit (take k s) then Some (read_nat (take k s), drop k s) else None)"

lemma take_digits_digits: "n < 10 ^ k \<Longrightarrow> take_digits k (digits k n @ rest) = Some (n, rest)"
  by (simp add: take_digits_def read_nat_digits)

definition expect :: "char \<Rightarrow> string \<Rightarrow> string option" where
  "expect c s = (case s of [] \<Rightarrow> None | c' # s' \<Rightarrow> if c' = c then Some s' else None)"

lemma expect_Cons [simp]: "expect c (c # s) = Some s"
  by (simp add: expect_def)

section \<open>The fraction of a second\<close>

abbreviation zero_char :: char where "zero_char \<equiv> CHR ''0''"

definition strip_zeros :: "string \<Rightarrow> string" where
  "strip_zeros s = rev (dropWhile (\<lambda>c. c = zero_char) (rev s))"

definition print_fraction :: "nat \<Rightarrow> string" where
  "print_fraction ns = (if ns = 0 then [] else CHR ''.'' # strip_zeros (digits 9 ns))"

definition parse_fraction :: "string \<Rightarrow> (nat \<times> string) option" where
  "parse_fraction s =
     (case s of
        [] \<Rightarrow> Some (0, s)
      | c # s' \<Rightarrow>
          (if c \<noteq> CHR ''.'' then Some (0, s)
           else (let ds = takeWhile is_digit s'
                 in if ds = [] then None
                    else Some (read_nat (take 9 (ds @ replicate 9 zero_char)), dropWhile is_digit s'))))"

lemma strip_zeros_pad: "\<exists>k. s = strip_zeros s @ replicate k zero_char"
proof -
  let ?z = "takeWhile (\<lambda>c. c = zero_char) (rev s)"
  have "?z = replicate (length ?z) zero_char" by (rule replicate_eqI) (auto dest: set_takeWhileD)
  then have "rev ?z = replicate (length ?z) zero_char" by (metis rev_replicate)
  moreover have "s = strip_zeros s @ rev ?z"
    unfolding strip_zeros_def by (metis rev_append rev_rev_ident takeWhile_dropWhile_id)
  ultimately show ?thesis by metis
qed

lemma pad_strip_zeros:
  assumes "length s = 9"
  shows "take 9 (strip_zeros s @ replicate 9 zero_char) = s"
proof -
  obtain k where k: "s = strip_zeros s @ replicate k zero_char" using strip_zeros_pad by blast
  with assms have "length (strip_zeros s) + k = 9" by (metis length_append length_replicate)
  then have "k \<le> 9" by simp
  have "replicate 9 zero_char = replicate k zero_char @ replicate (9 - k) zero_char"
    using \<open>k \<le> 9\<close> by (metis le_add_diff_inverse replicate_add)
  with k assms show ?thesis by (metis append_assoc append_eq_conv_conj)
qed

lemma strip_zeros_nonempty: "list_all is_digit s \<Longrightarrow> read_nat s \<noteq> 0 \<Longrightarrow> strip_zeros s \<noteq> []"
proof
  assume "list_all is_digit s" "read_nat s \<noteq> 0" "strip_zeros s = []"
  obtain k where "s = replicate k zero_char" using strip_zeros_pad [of s] \<open>strip_zeros s = []\<close> by auto
  moreover have "read_nat (replicate k zero_char) = 0" for k
    by (induction k) (simp_all add: read_nat_def digit_val_def replicate_append_same [symmetric])
  ultimately show False using \<open>read_nat s \<noteq> 0\<close> by simp
qed

lemma strip_zeros_digits: "list_all is_digit s \<Longrightarrow> list_all is_digit (strip_zeros s)"
  using strip_zeros_pad [of s] by (metis list_all_append)

lemma takeWhile_digits:
  assumes "list_all is_digit ds" and "rest = [] \<or> \<not> is_digit (hd rest)"
  shows "takeWhile is_digit (ds @ rest) = ds" "dropWhile is_digit (ds @ rest) = rest"
  using assms by (induction ds; cases rest; simp)+

lemma parse_print_fraction:
  assumes "ns < 10 ^ 9" and "c \<noteq> CHR ''.''" and "\<not> is_digit c"
  shows "parse_fraction (print_fraction ns @ c # rest) = Some (ns, c # rest)"
proof (cases "ns = 0")
  case True
  with assms show ?thesis by (simp add: parse_fraction_def print_fraction_def)
next
  case False
  let ?ds = "strip_zeros (digits 9 ns)"
  have r: "read_nat (digits 9 ns) = ns" using assms(1) by (simp add: read_nat_digits)
  have d: "list_all is_digit ?ds" by (rule strip_zeros_digits) simp
  have "?ds \<noteq> []" using False r by (intro strip_zeros_nonempty) simp_all
  moreover have "takeWhile is_digit (?ds @ c # rest) = ?ds" "dropWhile is_digit (?ds @ c # rest) = c # rest"
    using takeWhile_digits [OF d, of "c # rest"] assms(3) by simp_all
  moreover have "take 9 (?ds @ replicate 9 zero_char) = digits 9 ns" by (rule pad_strip_zeros) simp
  ultimately show ?thesis using False r
    by (simp add: parse_fraction_def print_fraction_def Let_def del: take_append)
qed

section \<open>Printing and reading a time\<close>

abbreviation second_ns :: int where "second_ns \<equiv> 1000000000"

text \<open>The seconds and days before the epoch, from the first day of the year 0.\<close>

abbreviation epoch_days :: int where "epoch_days \<equiv> 719528"

definition print_clock :: "nat \<Rightarrow> string" where
  "print_clock sec = digits 2 (sec div 3600) @ '':'' @ digits 2 (sec div 60 mod 60) @ '':'' @ digits 2 (sec mod 60)"

definition print_date :: "nat \<Rightarrow> string" where
  "print_date n =
     (case split_year 0 n of (y, doy) \<Rightarrow>
        case split_month y 1 doy of (m, d) \<Rightarrow> digits 4 y @ ''-'' @ digits 2 m @ ''-'' @ digits 2 (Suc d))"

text \<open>\<^verbatim>\<open>Time.MarshalJSON\<close> refuses years outside 0 to 9999.\<close>

definition print_rfc3339 :: "int \<Rightarrow> string option" where
  "print_rfc3339 t =
     (let s = t div second_ns; ns = nat (t mod second_ns); n = s div 86400 + epoch_days
      in if n < 0 \<or> 3652425 \<le> n then None
         else Some (print_date (nat n) @ ''T'' @ print_clock (nat (s mod 86400)) @ print_fraction ns @ ''Z''))"

definition parse_zone :: "string \<Rightarrow> int option" where
  "parse_zone s =
     (case s of
        [] \<Rightarrow> None
      | c # s' \<Rightarrow>
          (if c = CHR ''Z'' then (if s' = [] then Some 0 else None)
           else if c = CHR ''+'' \<or> c = CHR ''-'' then do {
             (h, s1) \<leftarrow> take_digits 2 s';
             s2 \<leftarrow> expect CHR '':'' s1;
             (mi, s3) \<leftarrow> take_digits 2 s2;
             if s3 = [] \<and> h < 24 \<and> mi < 60
             then Some ((if c = CHR ''-'' then - 1 else 1) * int (h * 3600 + mi * 60)) else None
           }
           else None))"

definition parse_date :: "string \<Rightarrow> (nat \<times> string) option" where
  "parse_date s = do {
     (y, s) \<leftarrow> take_digits 4 s;
     s \<leftarrow> expect CHR ''-'' s;
     (m, s) \<leftarrow> take_digits 2 s;
     s \<leftarrow> expect CHR ''-'' s;
     (d, s) \<leftarrow> take_digits 2 s;
     if 1 \<le> m \<and> m \<le> 12 \<and> 1 \<le> d \<and> d \<le> month_days y m then Some (day_number y m d, s) else None
   }"

definition parse_clock :: "string \<Rightarrow> (nat \<times> string) option" where
  "parse_clock s = do {
     (h, s) \<leftarrow> take_digits 2 s;
     s \<leftarrow> expect CHR '':'' s;
     (mi, s) \<leftarrow> take_digits 2 s;
     s \<leftarrow> expect CHR '':'' s;
     (sec, s) \<leftarrow> take_digits 2 s;
     if h < 24 \<and> mi < 60 \<and> sec < 60 then Some (h * 3600 + mi * 60 + sec, s) else None
   }"

definition parse_rfc3339 :: "string \<Rightarrow> int option" where
  "parse_rfc3339 s = do {
     (n, s) \<leftarrow> parse_date s;
     s \<leftarrow> expect CHR ''T'' s;
     (sec, s) \<leftarrow> parse_clock s;
     (ns, s) \<leftarrow> parse_fraction s;
     off \<leftarrow> parse_zone s;
     Some (((int n - epoch_days) * 86400 + int sec - off) * second_ns + int ns)
   }"

lemma parse_print_date:
  assumes "n < 3652425"
  shows "parse_date (print_date n @ rest) = Some (n, rest)"
proof -
  obtain y doy where y: "split_year 0 n = (y, doy)" by fastforce
  obtain m d where m: "split_month y 1 doy = (m, d)" by fastforce
  have v: "day_number y m (Suc d) = n" "1 \<le> m" "m \<le> 12" "Suc d \<le> month_days y m" using split_date [OF y m] by simp_all
  have "month_days y m \<le> 31" by (simp add: month_days_def)
  with v have b: "y < 10 ^ 4" "m < 10 ^ 2" "Suc d < 10 ^ 2" using split_year_bound [OF y assms] by simp_all
  have p: "print_date n @ rest = digits 4 y @ CHR ''-'' # digits 2 m @ CHR ''-'' # digits 2 (Suc d) @ rest"
    by (simp add: print_date_def y m [unfolded One_nat_def])
  show ?thesis
    unfolding parse_date_def p using v b by (simp add: take_digits_digits del: digits.simps)
qed

lemma parse_print_clock:
  assumes "sec < 86400"
  shows "parse_clock (print_clock sec @ rest) = Some (sec, rest)"
proof -
  have b: "sec div 3600 < 10 ^ 2" "sec div 60 mod 60 < 10 ^ 2" "sec mod 60 < 10 ^ 2" "sec div 3600 < 24"
    using assms by (simp_all add: less_mult_imp_div_less)
  have "sec div 3600 = sec div 60 div 60" by (simp add: div_mult2_eq [symmetric])
  then have s: "sec div 3600 * 3600 + sec div 60 mod 60 * 60 + sec mod 60 = sec"
    using div_mult_mod_eq [of "sec div 60" 60] div_mult_mod_eq [of sec 60] by linarith
  have p: "print_clock sec @ rest =
      digits 2 (sec div 3600) @ CHR '':'' # digits 2 (sec div 60 mod 60) @ CHR '':'' # digits 2 (sec mod 60) @ rest"
    by (simp add: print_clock_def)
  show ?thesis
    unfolding parse_clock_def p using b s by (simp add: take_digits_digits del: digits.simps)
qed

text \<open>A time that can be printed is read back.\<close>

lemma parse_print_rfc3339:
  assumes "print_rfc3339 t = Some s"
  shows "parse_rfc3339 s = Some t"
proof -
  let ?s = "t div second_ns"
  let ?ns = "nat (t mod second_ns)"
  let ?n = "?s div 86400 + epoch_days"
  from assms have n: "0 \<le> ?n" "?n < 3652425"
    and s: "s = print_date (nat ?n) @ ''T'' @ print_clock (nat (?s mod 86400)) @ print_fraction ?ns @ ''Z''"
    by (simp_all add: print_rfc3339_def Let_def split: if_splits)
  have ns: "?ns < 10 ^ 9" by simp
  have f: "parse_fraction (print_fraction ?ns @ CHR ''Z'' # []) = Some (?ns, CHR ''Z'' # [])"
    by (rule parse_print_fraction [OF ns]) (simp_all add: is_digit_def)
  have c: "parse_clock (print_clock (nat (?s mod 86400)) @ rest) = Some (nat (?s mod 86400), rest)" for rest
    by (rule parse_print_clock) simp
  have d: "parse_date (print_date (nat ?n) @ rest) = Some (nat ?n, rest)" for rest
    using n by (intro parse_print_date) simp
  have "86400000000000 * (?s div 86400) + ?s mod 86400 * second_ns + t mod second_ns = t"
    using div_mult_mod_eq [of ?s 86400] div_mult_mod_eq [of t second_ns] by linarith
  then show ?thesis
    unfolding parse_rfc3339_def s append_Cons append_Nil d using n f by (simp add: c parse_zone_def)
qed

lemma print_rfc3339_total:
  assumes "- 62167219200000000000 \<le> t" "t < 253402300800000000000"
  shows "\<exists>s. print_rfc3339 t = Some s"
proof -
  have "- 62167219200 \<le> t div second_ns" "t div second_ns < 253402300800" using assms by simp_all
  then have "0 \<le> t div second_ns div 86400 + epoch_days" "t div second_ns div 86400 + epoch_days < 3652425" by simp_all
  then show ?thesis by (simp add: print_rfc3339_def Let_def)
qed

end
