(* ===== verification/Json.thy ===== *)
theory Json
  imports Strconv
begin

text \<open>
  The JSON texts of Go's standard package \<^verbatim>\<open>encoding/json\<close>: values, their printer with the escapes of
  \<^verbatim>\<open>json.Marshal\<close>, and a reader for the whole grammar. A text is a list of bytes; bytes above 127 stand for
  themselves, and a hexadecimal escape is decoded to UTF-8, surrogates one by one.
\<close>

section \<open>Values\<close>

datatype json = JNull | JBool bool | JNumber string | JString string | JArray "json list" | JObject "(string \<times> json) list"

section \<open>Strings\<close>

abbreviation quote :: char where "quote \<equiv> CHR 0x22"
abbreviation backslash :: char where "backslash \<equiv> CHR 0x5C"

definition hex_char :: "nat \<Rightarrow> char" where
  "hex_char n = (if n < 10 then digit_char n else char_of (87 + n))"

definition hex_val :: "char \<Rightarrow> nat option" where
  "hex_val c =
     (let n = of_char c :: nat
      in if 48 \<le> n \<and> n \<le> 57 then Some (n - 48)
         else if 97 \<le> n \<and> n \<le> 102 then Some (n - 87)
         else if 65 \<le> n \<and> n \<le> 70 then Some (n - 55)
         else None)"

definition escape_char :: "char \<Rightarrow> string" where
  "escape_char c =
     (let n = of_char c :: nat
      in if c = quote \<or> c = backslash then [backslash, c]
         else if n = 8 then [backslash, CHR ''b'']
         else if n = 12 then [backslash, CHR ''f'']
         else if n = 10 then [backslash, CHR ''n'']
         else if n = 13 then [backslash, CHR ''r'']
         else if n = 9 then [backslash, CHR ''t'']
         else if n < 32 \<or> n = 60 \<or> n = 62 \<or> n = 38
         then [backslash, CHR ''u'', CHR ''0'', CHR ''0'', hex_char (n div 16), hex_char (n mod 16)]
         else [c])"

definition print_string :: "string \<Rightarrow> string" where
  "print_string s = quote # concat (map escape_char s) @ [quote]"

definition simple_escape :: "char \<Rightarrow> char option" where
  "simple_escape e =
     (if e = quote \<or> e = backslash \<or> e = CHR ''/'' then Some e
      else if e = CHR ''b'' then Some (char_of (8 :: nat))
      else if e = CHR ''f'' then Some (char_of (12 :: nat))
      else if e = CHR ''n'' then Some (char_of (10 :: nat))
      else if e = CHR ''r'' then Some (char_of (13 :: nat))
      else if e = CHR ''t'' then Some (char_of (9 :: nat))
      else None)"

definition hex4 :: "char \<Rightarrow> char \<Rightarrow> char \<Rightarrow> char \<Rightarrow> nat option" where
  "hex4 a b c d = do {
     x \<leftarrow> hex_val a; y \<leftarrow> hex_val b; z \<leftarrow> hex_val c; w \<leftarrow> hex_val d;
     Some (((x * 16 + y) * 16 + z) * 16 + w)
   }"

definition utf8 :: "nat \<Rightarrow> string" where
  "utf8 n =
     (let n = (if 0xD800 \<le> n \<and> n < 0xE000 then 0xFFFD else n)
      in if n < 0x80 then [char_of n]
         else if n < 0x800 then [char_of (0xC0 + n div 64), char_of (0x80 + n mod 64)]
         else [char_of (0xE0 + n div 4096), char_of (0x80 + n div 64 mod 64), char_of (0x80 + n mod 64)])"

text \<open>The rest of a string after its opening quote.\<close>

fun parse_chars :: "string \<Rightarrow> (string \<times> string) option" where
  "parse_chars [] = None"
| "parse_chars (c # s) =
     (if c = quote then Some ([], s)
      else if c = backslash then
        (case s of
           [] \<Rightarrow> None
         | e # s' \<Rightarrow>
             (if e = CHR ''u'' then
                (case s' of
                   a # b # c' # d # s'' \<Rightarrow>
                     (case hex4 a b c' d of
                        None \<Rightarrow> None
                      | Some n \<Rightarrow> map_option (\<lambda>(x, r). (utf8 n @ x, r)) (parse_chars s''))
                 | _ \<Rightarrow> None)
              else
                (case simple_escape e of
                   None \<Rightarrow> None
                 | Some c' \<Rightarrow> map_option (\<lambda>(x, r). (c' # x, r)) (parse_chars s'))))
      else if (of_char c :: nat) < 32 then None
      else map_option (\<lambda>(x, r). (c # x, r)) (parse_chars s))"

lemma hex_val_char: "n < 16 \<Longrightarrow> hex_val (hex_char n) = Some n"
  by (auto simp: hex_val_def hex_char_def of_char_digit_char of_char_of Let_def)

lemma hex4_low: "n < 256 \<Longrightarrow> hex4 CHR ''0'' CHR ''0'' (hex_char (n div 16)) (hex_char (n mod 16)) = Some n"
proof -
  assume "n < 256"
  then have "hex_val (hex_char (n div 16)) = Some (n div 16)" "hex_val (hex_char (n mod 16)) = Some (n mod 16)"
    by (simp_all add: hex_val_char less_mult_imp_div_less)
  moreover have "hex_val CHR ''0'' = Some 0" by (simp add: hex_val_def)
  ultimately show ?thesis by (simp add: hex4_def)
qed

lemma utf8_low: "(of_char c :: nat) < 128 \<Longrightarrow> utf8 (of_char c) = [c]"
  by (simp add: utf8_def)

lemma parse_escaped_char:
  "parse_chars (escape_char c @ s) = map_option (\<lambda>(x, r). (c # x, r)) (parse_chars s)"
proof -
  let ?n = "of_char c :: nat"
  have c: "c = char_of k" if "?n = k" for k using that by (metis char_of_char)
  consider (special) "c = quote \<or> c = backslash" | (short) "?n \<in> {8, 12, 10, 13, 9}"
    | (hex) "?n < 32 \<or> ?n = 60 \<or> ?n = 62 \<or> ?n = 38" "?n \<notin> {8, 12, 10, 13, 9}" "c \<noteq> quote" "c \<noteq> backslash"
    | (plain) "\<not> ?n < 32" "?n \<noteq> 60" "?n \<noteq> 62" "?n \<noteq> 38" "c \<noteq> quote" "c \<noteq> backslash" by blast
  then show ?thesis
  proof cases
    case special
    then show ?thesis by (auto simp: escape_char_def simple_escape_def)
  next
    case short
    then consider "?n = 8" | "?n = 12" | "?n = 10" | "?n = 13" | "?n = 9" by blast
    then show ?thesis by cases (auto dest!: c simp: escape_char_def simple_escape_def)
  next
    case hex
    then have "?n < 128" by auto
    then have "parse_chars (backslash # CHR ''u'' # CHR ''0'' # CHR ''0'' # hex_char (?n div 16) # hex_char (?n mod 16) # s) =
        map_option (\<lambda>(x, r). (c # x, r)) (parse_chars s)"
      using hex4_low [of ?n] utf8_low [of c] by simp
    with hex show ?thesis by (simp add: escape_char_def Let_def)
  next
    case plain
    then show ?thesis by (auto simp: escape_char_def Let_def)
  qed
qed

lemma parse_print_chars: "parse_chars (concat (map escape_char s) @ quote # rest) = Some (s, rest)"
  by (induction s) (simp_all add: parse_escaped_char del: parse_chars.simps, simp)

section \<open>Reading a value\<close>

definition is_space :: "char \<Rightarrow> bool" where
  "is_space c \<longleftrightarrow> (of_char c :: nat) \<in> {32, 9, 10, 13}"

definition skip_space :: "string \<Rightarrow> string" where
  "skip_space s = dropWhile is_space s"

definition strip_prefix :: "string \<Rightarrow> string \<Rightarrow> string option" where
  "strip_prefix p s = (if take (length p) s = p then Some (drop (length p) s) else None)"

text \<open>A number: a sign, an integer without leading zeros, a fraction and an exponent.\<close>

definition number_end :: "string \<Rightarrow> string option" where
  "number_end s =
     (let s1 = (case s of c # r \<Rightarrow> if c = CHR ''-'' then r else s | [] \<Rightarrow> s)
      in case s1 of
           [] \<Rightarrow> None
         | c # r \<Rightarrow>
             (if \<not> is_digit c then None
              else (let s2 = (if c = CHR ''0'' then r else dropWhile is_digit r)
                    in case s2 of
                         CHR ''.'' # d # r2 \<Rightarrow> (if is_digit d then Some (dropWhile is_digit r2) else None)
                       | _ \<Rightarrow> Some s2)))"

definition exponent_end :: "string \<Rightarrow> string option" where
  "exponent_end s =
     (case s of
        c # r \<Rightarrow>
          (if c = CHR ''e'' \<or> c = CHR ''E'' then
             (let r1 = (case r of g # r' \<Rightarrow> if g = CHR ''+'' \<or> g = CHR ''-'' then r' else r | [] \<Rightarrow> r)
              in case r1 of d # r2 \<Rightarrow> (if is_digit d then Some (dropWhile is_digit r2) else None) | [] \<Rightarrow> None)
           else Some s)
      | [] \<Rightarrow> Some s)"

definition parse_literal :: "string \<Rightarrow> (json \<times> string) option" where
  "parse_literal s =
     (case strip_prefix ''null'' s of
        Some r \<Rightarrow> Some (JNull, r)
      | None \<Rightarrow>
          (case strip_prefix ''true'' s of
             Some r \<Rightarrow> Some (JBool True, r)
           | None \<Rightarrow>
               (case strip_prefix ''false'' s of
                  Some r \<Rightarrow> Some (JBool False, r)
                | None \<Rightarrow> do {
                    r1 \<leftarrow> number_end s;
                    r2 \<leftarrow> exponent_end r1;
                    Some (JNumber (take (length s - length r2) s), r2)
                  })))"

definition expect_char :: "char \<Rightarrow> string \<Rightarrow> string option" where
  "expect_char c s = (case skip_space s of [] \<Rightarrow> None | c' # r \<Rightarrow> if c' = c then Some r else None)"

text \<open>
  The first argument bounds the nesting and the number of elements; the length of the text is enough,
  since every call reads a character.
\<close>

fun parse_value :: "nat \<Rightarrow> string \<Rightarrow> (json \<times> string) option"
  and parse_members :: "nat \<Rightarrow> string \<Rightarrow> ((string \<times> json) list \<times> string) option"
  and parse_elements :: "nat \<Rightarrow> string \<Rightarrow> (json list \<times> string) option" where
  "parse_value 0 s = None"
| "parse_value (Suc f) s =
     (case skip_space s of
        [] \<Rightarrow> None
      | c # r \<Rightarrow>
          (if c = quote then map_option (\<lambda>(x, r'). (JString x, r')) (parse_chars r)
           else if c = CHR ''{'' then
             (case expect_char CHR ''}'' r of
                Some r' \<Rightarrow> Some (JObject [], r')
              | None \<Rightarrow> map_option (\<lambda>(ms, r'). (JObject ms, r')) (parse_members f r))
           else if c = CHR ''['' then
             (case expect_char CHR '']'' r of
                Some r' \<Rightarrow> Some (JArray [], r')
              | None \<Rightarrow> map_option (\<lambda>(vs, r'). (JArray vs, r')) (parse_elements f r))
           else parse_literal (c # r)))"
| "parse_members 0 s = None"
| "parse_members (Suc f) s = do {
     s \<leftarrow> expect_char quote s;
     (k, s) \<leftarrow> parse_chars s;
     s \<leftarrow> expect_char CHR '':'' s;
     (v, s) \<leftarrow> parse_value f s;
     case expect_char CHR '','' s of
       Some s' \<Rightarrow> map_option (\<lambda>(ms, r). ((k, v) # ms, r)) (parse_members f s')
     | None \<Rightarrow> map_option (\<lambda>r. ([(k, v)], r)) (expect_char CHR ''}'' s)
   }"
| "parse_elements 0 s = None"
| "parse_elements (Suc f) s = do {
     (v, s) \<leftarrow> parse_value f s;
     case expect_char CHR '','' s of
       Some s' \<Rightarrow> map_option (\<lambda>(vs, r). (v # vs, r)) (parse_elements f s')
     | None \<Rightarrow> map_option (\<lambda>r. ([v], r)) (expect_char CHR '']'' s)
   }"

definition parse_json :: "string \<Rightarrow> json option" where
  "parse_json s = do {
     (v, r) \<leftarrow> parse_value (Suc (length s)) s;
     if skip_space r = [] then Some v else None
   }"

section \<open>Printing\<close>

fun print_json :: "json \<Rightarrow> string" and print_members :: "(string \<times> json) list \<Rightarrow> string" and print_elements :: "json list \<Rightarrow> string" where
  "print_json JNull = ''null''"
| "print_json (JBool b) = (if b then ''true'' else ''false'')"
| "print_json (JNumber n) = n"
| "print_json (JString s) = print_string s"
| "print_json (JArray vs) = ''['' @ print_elements vs @ '']''"
| "print_json (JObject ms) = ''{'' @ print_members ms @ ''}''"
| "print_members [] = []"
| "print_members ((k, v) # ms) = print_string k @ '':'' @ print_json v @ (if ms = [] then [] else CHR '','' # print_members ms)"
| "print_elements [] = []"
| "print_elements (v # vs) = print_json v @ (if vs = [] then [] else CHR '','' # print_elements vs)"

text \<open>The values that the program prints: strings and objects.\<close>

fun string_tree :: "json \<Rightarrow> bool" and string_members :: "(string \<times> json) list \<Rightarrow> bool" where
  "string_tree (JString s) = True"
| "string_tree (JObject ms) = string_members ms"
| "string_tree _ = False"
| "string_members [] = True"
| "string_members ((k, v) # ms) = (string_tree v \<and> string_members ms)"

lemma skip_space_Cons [simp]: "\<not> is_space c \<Longrightarrow> skip_space (c # s) = c # s"
  by (simp add: skip_space_def)

lemma not_space [simp]:
  "\<not> is_space quote" "\<not> is_space CHR ''{''" "\<not> is_space CHR ''}''" "\<not> is_space CHR '':''" "\<not> is_space CHR '',''"
  by (simp_all add: is_space_def)

lemma expect_char_Cons: "\<not> is_space c' \<Longrightarrow> expect_char c (c' # s) = (if c' = c then Some s else None)"
  by (simp add: expect_char_def)

lemma print_tree_start: "string_tree v \<Longrightarrow> \<exists>c s. print_json v = c # s \<and> (c = quote \<or> c = CHR ''{'')"
  by (cases v) (auto simp: print_string_def)

lemma print_members_start: "ms \<noteq> [] \<Longrightarrow> \<exists>s. print_members ms = quote # s"
  by (cases ms rule: list.exhaust) (auto simp: print_string_def)

lemma parse_print:
  "string_tree v \<Longrightarrow> length (print_json v) < f \<Longrightarrow> parse_value f (print_json v @ rest) = Some (v, rest)"
  "string_members ms \<Longrightarrow> ms \<noteq> [] \<Longrightarrow> length (print_members ms) < f \<Longrightarrow>
   parse_members f (print_members ms @ CHR ''}'' # rest) = Some (ms, rest)"
proof (induction v and ms arbitrary: f rest and f rest rule: string_tree_string_members.induct)
  case (1 s)
  then obtain f' where "f = Suc f'" by (cases f) auto
  then show ?case by (simp add: print_string_def parse_print_chars)
next
  case (2 ms)
  then obtain f' where f: "f = Suc f'" by (cases f) auto
  show ?case
  proof (cases "ms = []")
    case True
    then show ?thesis by (simp add: f expect_char_Cons)
  next
    case False
    obtain s where s: "print_members ms = quote # s" using print_members_start [OF False] by blast
    have "parse_members f' (print_members ms @ CHR ''}'' # rest) = Some (ms, rest)"
      using 2 False by (simp add: f)
    then show ?thesis using False by (simp add: f s expect_char_Cons)
  qed
next
  case (5 k v ms)
  then obtain f' where f: "f = Suc f'" by (cases f) auto
  have len: "length (print_json v) < f'" "ms \<noteq> [] \<Longrightarrow> length (print_members ms) < f'"
    using 5(5) by (auto simp: f print_string_def)
  have v: "parse_value f' (print_json v @ rest') = Some (v, rest')" for rest' using 5(1) [OF _ len(1)] 5(3) by simp
  have ms: "parse_members f' (print_members ms @ CHR ''}'' # rest) = Some (ms, rest)" if "ms \<noteq> []"
    using 5(2) [OF _ that len(2) [OF that]] 5(3) by simp
  show ?case using v ms by (simp add: f print_string_def parse_print_chars expect_char_Cons)
qed simp_all

lemma parse_print_json: "string_tree v \<Longrightarrow> parse_json (print_json v) = Some v"
  using parse_print(1) [of v "Suc (length (print_json v))" "[]"]
  by (simp add: parse_json_def skip_space_def del: parse_value.simps)

end
