(* ===== verification/Annotation_Json.thy ===== *)
theory Annotation_Json
  imports Pod_Webhook Rfc3339 Json "HOL-Library.List_Lexorder" "HOL-Library.Char_ord"
begin

text \<open>
  The annotation that the webhook leaves on a pod, as text. \<^verbatim>\<open>json.Marshal\<close> prints the fields of
  \<^verbatim>\<open>BoostPodAnnotation\<close> under the names of their tags, leaves out empty maps and sorts the keys of a map;
  \<^verbatim>\<open>json.Unmarshal\<close> takes the fields in any order, without regard to case, and skips unknown ones. With
  this encoding the webhook and the revert can be put together: reverting a boosted pod restores it.
\<close>

section \<open>Encoding\<close>

definition map_keys :: "'v gomap \<Rightarrow> string list" where
  "map_keys m = (case m of None \<Rightarrow> [] | Some al \<Rightarrow> alist_keys al)"

definition map_json :: "string gomap \<Rightarrow> json" where
  "map_json m = JObject (map (\<lambda>k. (k, JString (the (map_get m k)))) (sort (map_keys m)))"

definition marshal_annotation :: "boost_annotation \<Rightarrow> go_error + string" where
  "marshal_annotation a =
     (case print_rfc3339 (BoostTimestamp a) of
        None \<Rightarrow> Inl (OtherError ''year outside of range [0,9999]'')
      | Some t \<Rightarrow>
          Inr (print_json (JObject (
            [(''timestamp'', JString t)] @
            (if map_len (InitCPURequests a) = 0 then [] else [(''initCPURequests'', map_json (InitCPURequests a))]) @
            (if map_len (InitCPULimits a) = 0 then [] else [(''initCPULimits'', map_json (InitCPULimits a))])))))"

section \<open>Decoding\<close>

definition lower :: "char \<Rightarrow> char" where
  "lower c = (let n = of_char c :: nat in if 65 \<le> n \<and> n \<le> 90 then char_of (n + 32) else c)"

definition same_name :: "string \<Rightarrow> string \<Rightarrow> bool" where
  "same_name a b \<longleftrightarrow> map lower a = map lower b"

definition decode_time :: "json \<Rightarrow> int \<Rightarrow> int option" where
  "decode_time v t = (case v of JNull \<Rightarrow> Some t | JString s \<Rightarrow> parse_rfc3339 s | _ \<Rightarrow> None)"

fun decode_entries :: "(string \<times> json) list \<Rightarrow> (string, string) alist \<Rightarrow> (string, string) alist option" where
  "decode_entries [] al = Some al"
| "decode_entries ((k, v) # ms) al =
     (case v of
        JString s \<Rightarrow> decode_entries ms (DAList.update k s al)
      | JNull \<Rightarrow> decode_entries ms (DAList.update k '''' al)
      | _ \<Rightarrow> None)"

definition decode_map :: "json \<Rightarrow> string gomap \<Rightarrow> string gomap option" where
  "decode_map v m =
     (case v of
        JNull \<Rightarrow> Some None
      | JObject ms \<Rightarrow> map_option Some (decode_entries ms (case m of None \<Rightarrow> DAList.empty | Some al \<Rightarrow> al))
      | _ \<Rightarrow> None)"

fun decode_fields :: "(string \<times> json) list \<Rightarrow> boost_annotation \<Rightarrow> boost_annotation option" where
  "decode_fields [] a = Some a"
| "decode_fields ((k, v) # ms) a =
     (if same_name k ''timestamp'' then do {
        t \<leftarrow> decode_time v (BoostTimestamp a);
        decode_fields ms (a\<lparr>BoostTimestamp := t\<rparr>)
      }
      else if same_name k ''initCPURequests'' then do {
        m \<leftarrow> decode_map v (InitCPURequests a);
        decode_fields ms (a\<lparr>InitCPURequests := m\<rparr>)
      }
      else if same_name k ''initCPULimits'' then do {
        m \<leftarrow> decode_map v (InitCPULimits a);
        decode_fields ms (a\<lparr>InitCPULimits := m\<rparr>)
      }
      else decode_fields ms a)"

text \<open>The time of an annotation without a timestamp is Go's zero time, the first day of the year 1.\<close>

definition zero_annotation :: boost_annotation where
  "zero_annotation = \<lparr>BoostTimestamp = - 62135596800000000000, InitCPURequests = nil_map, InitCPULimits = nil_map\<rparr>"

definition unmarshal_annotation :: "string \<Rightarrow> go_error + boost_annotation" where
  "unmarshal_annotation s =
     (case parse_json s of
        Some (JObject ms) \<Rightarrow>
          (case decode_fields ms zero_annotation of
             Some a \<Rightarrow> Inr a
           | None \<Rightarrow> Inl (OtherError ''cannot unmarshal into the annotation''))
      | Some JNull \<Rightarrow> Inr zero_annotation
      | _ \<Rightarrow> Inl (OtherError ''invalid annotation''))"

section \<open>Round trip\<close>

lemma map_keys_get: "k \<in> set (map_keys m) \<longleftrightarrow> map_get m k \<noteq> None"
  by (cases m) (auto simp: map_keys_def in_alist_keys_iff)

lemma map_len_zero: "map_len m = 0 \<Longrightarrow> map_get m k = None"
  by (cases m) (auto simp: map_len_def alist_len_def lookup_eq_map_of)

lemma decode_entries_strings:
  "distinct ks \<Longrightarrow> \<exists>al'. decode_entries (map (\<lambda>k. (k, JString (g k))) ks) al = Some al' \<and>
     (\<forall>k. DAList.lookup al' k = (if k \<in> set ks then Some (g k) else DAList.lookup al k))"
proof (induction ks arbitrary: al)
  case (Cons x ks)
  then obtain al' where "decode_entries (map (\<lambda>k. (k, JString (g k))) ks) (DAList.update x (g x) al) = Some al'"
    "\<forall>k. DAList.lookup al' k = (if k \<in> set ks then Some (g k) else DAList.lookup (DAList.update x (g x) al) k)" by fastforce
  with Cons.prems show ?case by (auto simp: lookup_update)
qed simp

lemma decode_map_json: "\<exists>m'. decode_map (map_json m) nil_map = Some m' \<and> (\<forall>k. map_get m' k = map_get m k)"
proof -
  have "distinct (sort (map_keys m))" by (cases m) (simp_all add: map_keys_def)
  from decode_entries_strings [OF this, of "\<lambda>k. the (map_get m k)" DAList.empty] obtain al where
    "decode_entries (map (\<lambda>k. (k, JString (the (map_get m k)))) (sort (map_keys m))) DAList.empty = Some al"
    "\<forall>k. DAList.lookup al k = (if k \<in> set (map_keys m) then Some (the (map_get m k)) else None)" by auto
  then have "decode_map (map_json m) nil_map = Some (Some al)" "\<forall>k. map_get (Some al) k = map_get m k"
    by (auto simp: decode_map_def map_json_def nil_map_def map_keys_get)
  then show ?thesis by blast
qed

lemma string_members_strings: "string_members (map (\<lambda>k. (k, JString (g k))) ks)"
  by (induction ks) simp_all

lemma names_differ [simp]:
  "same_name ''timestamp'' ''timestamp''" "same_name ''initCPURequests'' ''initCPURequests''"
  "same_name ''initCPULimits'' ''initCPULimits''"
  "\<not> same_name ''initCPURequests'' ''timestamp''" "\<not> same_name ''initCPULimits'' ''timestamp''"
  "\<not> same_name ''initCPULimits'' ''initCPURequests''"
  by (simp_all add: same_name_def lower_def)

text \<open>What an annotation field reads back as: the map, or nothing for an empty one.\<close>

lemma decode_optional_map:
  obtains m' where "\<forall>k. map_get m' k = map_get m k"
    "(if map_len m = 0 then m' = nil_map else decode_map (map_json m) nil_map = Some m')"
proof (cases "map_len m = 0")
  case True
  then show thesis using that [of nil_map] map_len_zero [OF True] by simp
next
  case False
  then show thesis using that decode_map_json [of m] by auto
qed

lemma annotation_round_trip:
  assumes "print_rfc3339 (BoostTimestamp a) = Some t"
  shows "\<exists>s b. marshal_annotation a = Inr s \<and> unmarshal_annotation s = Inr b \<and>
      BoostTimestamp b = BoostTimestamp a \<and>
      (\<forall>n. map_get (InitCPURequests b) n = map_get (InitCPURequests a) n) \<and>
      (\<forall>n. map_get (InitCPULimits b) n = map_get (InitCPULimits a) n)"
proof -
  let ?r = "InitCPURequests a" and ?l = "InitCPULimits a"
  let ?fields = "[(''timestamp'', JString t)] @ (if map_len ?r = 0 then [] else [(''initCPURequests'', map_json ?r)]) @
      (if map_len ?l = 0 then [] else [(''initCPULimits'', map_json ?l)])"
  have m: "marshal_annotation a = Inr (print_json (JObject ?fields))" by (simp only: marshal_annotation_def assms option.case)
  have "string_tree (JObject ?fields)" by (simp add: map_json_def string_members_strings)
  then have p: "parse_json (print_json (JObject ?fields)) = Some (JObject ?fields)" by (rule parse_print_json)
  obtain r where r: "\<forall>k. map_get r k = map_get ?r k"
    "(if map_len ?r = 0 then r = nil_map else decode_map (map_json ?r) nil_map = Some r)" by (rule decode_optional_map)
  obtain l where l: "\<forall>k. map_get l k = map_get ?l k"
    "(if map_len ?l = 0 then l = nil_map else decode_map (map_json ?l) nil_map = Some l)" by (rule decode_optional_map)
  have "decode_fields ?fields zero_annotation = Some \<lparr>BoostTimestamp = BoostTimestamp a, InitCPURequests = r, InitCPULimits = l\<rparr>"
    using r(2) l(2) parse_print_rfc3339 [OF assms] by (simp add: decode_time_def zero_annotation_def split: if_splits)
  then have "unmarshal_annotation (print_json (JObject ?fields)) =
      Inr \<lparr>BoostTimestamp = BoostTimestamp a, InitCPURequests = r, InitCPULimits = l\<rparr>"
    by (simp only: unmarshal_annotation_def p option.case json.case)
  with m r(1) l(1) show ?thesis by (intro exI conjI) (assumption | simp)+
qed

section \<open>The encoding in use\<close>

definition go_json :: "'q json_api" where
  "go_json = sample_json\<lparr>MarshalAnnotation := marshal_annotation, UnmarshalAnnotation := unmarshal_annotation\<rparr>"

interpretation gj: annotation_codec go_json
proof
  fix a :: boost_annotation
  assume "rfc3339_time (BoostTimestamp a)"
  then obtain t where "print_rfc3339 (BoostTimestamp a) = Some t"
    using print_rfc3339_total unfolding rfc3339_time_def by blast
  from annotation_round_trip [OF this] show "\<exists>s b. MarshalAnnotation go_json a = Inr s \<and>
      UnmarshalAnnotation go_json s = Inr b \<and> BoostTimestamp b = BoostTimestamp a \<and>
      (\<forall>n. map_get (InitCPURequests b) n = map_get (InitCPURequests a) n) \<and>
      (\<forall>n. map_get (InitCPULimits b) n = map_get (InitCPULimits a) n)"
    by (simp add: go_json_def)
qed

interpretation gb: boosting nano_quantity nano_val dec_val go_json
  by unfold_locales

text \<open>
  C28. The annotation survives its way through a pod. Encoding it never panics for a time that RFC 3339 can
  express; decoding the annotation of a pod that carries the text gives the same time and, under every
  name, the same original request and limit.
\<close>

theorem annotation_through_pod:
  assumes "rfc3339_time (BoostTimestamp a)"
  shows "\<exists>s. ToJSON (go_json :: 'q json_api) a = Some s \<and>
     (\<forall>pod :: 'q pod. map_get (podAnnotations pod) BoostAnnotationKey = Some s \<longrightarrow>
       (\<exists>b. BoostAnnotationFromPod go_json pod = Inr b \<and> BoostTimestamp b = BoostTimestamp a \<and>
          (\<forall>n. map_get (InitCPURequests b) n = map_get (InitCPURequests a) n) \<and>
          (\<forall>n. map_get (InitCPULimits b) n = map_get (InitCPULimits a) n)))"
proof -
  obtain t where "print_rfc3339 (BoostTimestamp a) = Some t"
    using print_rfc3339_total assms unfolding rfc3339_time_def by blast
  from annotation_round_trip [OF this] show ?thesis
    by (auto simp: ToJSON_def go_json_def BoostAnnotationFromPod_def)
qed

definition sample_annotation :: boost_annotation where
  "sample_annotation = \<lparr>BoostTimestamp = 1700000000123456789,
     InitCPURequests = Some (DAList.update ''app'' ''10n'' DAList.empty), InitCPULimits = make_map\<rparr>"

theorem annotation_through_pod_witness:
  "\<exists>s. ToJSON (go_json :: int json_api) sample_annotation = Some s \<and>
     (\<exists>b. BoostAnnotationFromPod go_json (sample_pod\<lparr>podAnnotations := Some (DAList.update BoostAnnotationKey s DAList.empty)\<rparr>) = Inr b \<and>
        map_get (InitCPURequests b) ''app'' = Some ''10n'')"
proof -
  have "rfc3339_time (BoostTimestamp sample_annotation)" by (simp add: rfc3339_time_def sample_annotation_def)
  then obtain s where s: "ToJSON (go_json :: int json_api) sample_annotation = Some s"
    "\<forall>pod :: int pod. map_get (podAnnotations pod) BoostAnnotationKey = Some s \<longrightarrow>
       (\<exists>b. BoostAnnotationFromPod go_json pod = Inr b \<and> BoostTimestamp b = BoostTimestamp sample_annotation \<and>
          (\<forall>n. map_get (InitCPURequests b) n = map_get (InitCPURequests sample_annotation) n) \<and>
          (\<forall>n. map_get (InitCPULimits b) n = map_get (InitCPULimits sample_annotation) n))"
    using annotation_through_pod by blast
  let ?pod = "sample_pod\<lparr>podAnnotations := Some (DAList.update BoostAnnotationKey s DAList.empty)\<rparr>"
  have "map_get (podAnnotations ?pod) BoostAnnotationKey = Some s" by (simp add: lookup_update)
  with s(2) obtain b where "BoostAnnotationFromPod go_json ?pod = Inr b"
    "map_get (InitCPURequests b) ''app'' = map_get (InitCPURequests sample_annotation) ''app''" by blast
  with s(1) show ?thesis by (auto simp: sample_annotation_def lookup_update)
qed

text \<open>
  C4. Boosting and reverting are inverse. The webhook never panics on a pod whose containers have distinct
  ASCII names; it leaves the pod alone, or labels it with the name of the boost, and then the revert
  succeeds on it and gives every container its original requests and limits back, by value, without a trace of
  the label and the annotation.
\<close>

theorem boost_revert_round_trip:
  assumes "quantity_laws Q val dval" and "annotation_codec J"
    and "distinct (map ctrName (podContainers pod))" and "\<forall>c \<in> set (podContainers pod). ascii_string (ctrName c)"
    and "rfc3339_time (timeNow rt)"
  shows "\<exists>pod'. boostContainerResources Q J rt h bst pod = Some pod' \<and>
    (pod' = pod \<or> (\<exists>pod''. map_get (podLabels pod') BoostLabelKey = Some (boostName bst) \<and>
       RevertResourceBoost Q J pod' = Some (pod'', None) \<and> reverts_to val pod pod''))"
  by (rule boosting.boost_then_revert [OF boosting.intro [OF assms(1,2)] assms(3-5)])

theorem boost_revert_round_trip_witness:
  "\<exists>pod'. boostContainerResources nano_quantity go_json sample_rt \<lparr>removeLimits = True, podLevelResourcesEnabled = False\<rparr>
       sample_boost sample_pod = Some pod' \<and>
    (pod' = sample_pod \<or> (\<exists>pod''. RevertResourceBoost nano_quantity go_json pod' = Some (pod'', None) \<and>
       reverts_to nano_val sample_pod pod''))"
proof -
  have "distinct (map ctrName (podContainers sample_pod))" "\<forall>c \<in> set (podContainers sample_pod). ascii_string (ctrName c)"
    by (simp_all add: sample_pod_def sample_container_def ascii_string_def)
  moreover have "rfc3339_time (timeNow sample_rt)" by (simp add: rfc3339_time_def sample_rt_def)
  ultimately show ?thesis
    using boost_revert_round_trip [OF nano.quantity_laws_axioms gj.annotation_codec_axioms, of sample_pod sample_rt] by blast
qed

end
