(* ===== verification/Pod_Server.thy ===== *)
theory Pod_Server
  imports Annotation_Json
begin

text \<open>
  The API server as the boosts see it: it stores pods, replaces one on an update and changes one on a merge
  patch (RFC 7386). A patch is the difference between the pod in the memory of the program, before and after
  the change, but it is applied to the pod that the server holds, which may be another one. The locales
  \<open>pod_store\<close>, \<open>pod_json\<close> and \<open>pod_history\<close> state this; a server in memory satisfies them.
\<close>

abbreviation podKey :: "'q pod \<Rightarrow> string \<times> string" where
  "podKey p \<equiv> (podNamespace p, podName p)"

section \<open>Merge patches\<close>

text \<open>
  The difference of two JSON objects names the members that differ, with null for those that are gone; a
  member that is an array is replaced as a whole. \<open>merge_entries p q x\<close> changes \<open>x\<close> by the difference of
  the maps \<open>p\<close> and \<open>q\<close>.
\<close>

definition put_entry :: "'v gomap \<Rightarrow> string \<Rightarrow> 'v gomap \<Rightarrow> 'v gomap" where
  "put_entry q k x =
     (case map_get q k of
        None \<Rightarrow> map_delete k x
      | Some v \<Rightarrow> Some (DAList.update k v (case x of None \<Rightarrow> DAList.empty | Some al \<Rightarrow> al)))"

definition merge_entries :: "'v gomap \<Rightarrow> 'v gomap \<Rightarrow> 'v gomap \<Rightarrow> 'v gomap" where
  "merge_entries p q x =
     (if p = q then x else if x = p then q
      else fold (put_entry q) (filter (\<lambda>k. map_get p k \<noteq> map_get q k) (map_keys p @ map_keys q)) x)"

definition merge_value :: "'a \<Rightarrow> 'a \<Rightarrow> 'a \<Rightarrow> 'a" where
  "merge_value p q x = (if p = q then x else q)"

text \<open>The patches of the program change labels, annotations and containers only.\<close>

definition revert_fields :: "'q pod \<Rightarrow> 'q pod \<Rightarrow> bool" where
  "revert_fields p q \<longleftrightarrow>
     q = p\<lparr>podLabels := podLabels q, podAnnotations := podAnnotations q, podContainers := podContainers q\<rparr>"

definition merge_pod :: "'q pod \<Rightarrow> 'q pod \<Rightarrow> 'q pod \<Rightarrow> 'q pod" where
  "merge_pod p q x =
     x\<lparr>podLabels := merge_entries (podLabels p) (podLabels q) (podLabels x),
       podAnnotations := merge_entries (podAnnotations p) (podAnnotations q) (podAnnotations x),
       podContainers := merge_value (podContainers p) (podContainers q) (podContainers x)\<rparr>"

lemma map_get_put_entry: "map_get (put_entry q k x) k' = (if k = k' then map_get q k else map_get x k')"
  by (auto simp: put_entry_def lookup_update split: option.splits)

lemma map_get_put_entries:
  "map_get (fold (put_entry q) ks x) k = (if k \<in> set ks then map_get q k else map_get x k)"
  by (induction ks arbitrary: x) (simp_all add: map_get_put_entry)

lemma map_get_merge:
  "map_get (merge_entries p q x) k = (if map_get p k = map_get q k then map_get x k else map_get q k)"
  by (auto simp: merge_entries_def map_get_put_entries map_keys_get)

lemma merge_entries_same [simp]: "merge_entries p q p = q" "merge_entries p p x = x"
  by (simp_all add: merge_entries_def)

lemma merge_value_same [simp]: "merge_value p q p = q" "merge_value p p x = x"
  by (simp_all add: merge_value_def)

lemma merge_pod_id [simp]: "merge_pod p p x = x"
  by (simp add: merge_pod_def)

lemma merge_pod_self: "revert_fields p q \<Longrightarrow> merge_pod p q p = q"
  unfolding revert_fields_def merge_pod_def by simp

lemma merge_pod_fields [simp]:
  "podName (merge_pod p q x) = podName x" "podNamespace (merge_pod p q x) = podNamespace x"
  "podContainers (merge_pod p q x) = merge_value (podContainers p) (podContainers q) (podContainers x)"
  by (simp_all add: merge_pod_def)

lemma merge_pod_get:
  "map_get (podAnnotations (merge_pod p q x)) k =
     (if map_get (podAnnotations p) k = map_get (podAnnotations q) k then map_get (podAnnotations x) k
      else map_get (podAnnotations q) k)"
  by (simp add: merge_pod_def map_get_merge)

lemma revert_fields_resources:
  assumes "revertBoostResources Q J p = Some (q, e)"
  shows "revert_fields p q" and "podAnnotations q = podAnnotations p" and "podLabels q = podLabels p" and "same_key p q"
proof -
  have q: "q = p\<lparr>podContainers := podContainers q\<rparr>" using revertBoostResources_frame [OF assms] by blast
  show "podAnnotations q = podAnnotations p" "podLabels q = podLabels p"
    using arg_cong [OF q, of podAnnotations] arg_cong [OF q, of podLabels] by simp_all
  with q show "revert_fields p q" unfolding revert_fields_def by simp
  show "same_key p q" using arg_cong [OF q, of podName] arg_cong [OF q, of podNamespace] by simp
qed

lemma revert_fields_labels:
  assumes "revertBoostLabels p = Some (q, e)"
  shows "revert_fields p q" and "same_key p q" and "podContainers q = podContainers p" and "e = None"
    and "map_get (podLabels q) k = (if k = BoostLabelKey then None else map_get (podLabels p) k)"
    and "map_get (podAnnotations q) k = (if k = BoostAnnotationKey then None else map_get (podAnnotations p) k)"
  using assms by (auto simp: revertBoostLabels_def revert_fields_def)

section \<open>Reverting twice\<close>

lemma AList_update_same: "map_of al k = Some v \<Longrightarrow> AList.update k v al = al"
  by (induction al) (auto split: if_splits)

lemma update_same: "DAList.lookup al k = Some v \<Longrightarrow> DAList.update k v al = al"
  by (simp add: DAList.impl_of_inject [symmetric] DAList.update.rep_eq lookup_eq_map_of AList_update_same)

lemma revertResourceList_idem:
  assumes "revertResourceList Q what orig m = Some (m', None)"
  shows "revertResourceList Q what orig m' = Some (m', None)"
proof (cases orig)
  case (Some s)
  with assms obtain q where q: "ParseQuantity Q s = Inr q" "map_assign ResourceCPU q (if is_nil m then make_map else m) = Some m'"
    by (auto simp: revertResourceList_ok)
  then obtain al where "m' = Some al" "DAList.lookup al ResourceCPU = Some q" by (auto simp: map_assign_Some_iff lookup_update)
  then show ?thesis by (simp add: Some revertResourceList_ok q(1) update_same)
qed simp

lemma revertContainer_idem:
  assumes "revertContainer Q a c = Some (d, None)"
  shows "revertContainer Q a d = Some (d, None)"
proof -
  note n = revertContainer_frame [OF assms]
  note r = revertContainer_ok(1) [OF assms, THEN revertResourceList_idem] revertContainer_ok(2) [OF assms, THEN revertResourceList_idem]
  show ?thesis using r n by (simp add: revertContainer_def Let_def)
qed

lemma revertContainers_idem:
  "revertContainers Q a cs = Some (ds, None) \<Longrightarrow> revertContainers Q a ds = Some (ds, None)"
proof (induction cs arbitrary: ds)
  case (Cons c cs)
  from Cons.prems obtain c' cs' where d: "ds = c' # cs'" "revertContainer Q a c = Some (c', None)"
    "revertContainers Q a cs = Some (cs', None)" unfolding revertContainers_Cons_ok by blast
  with Cons.IH [OF d(3)] revertContainer_idem [OF d(2)] show ?case by simp
qed simp

lemma BoostAnnotationFromPod_cong:
  "podAnnotations p = podAnnotations q \<Longrightarrow> BoostAnnotationFromPod J p = BoostAnnotationFromPod J q"
  by (simp add: BoostAnnotationFromPod_def)

text \<open>The resources of a pod whose resources were reverted do not change when they are reverted again.\<close>

lemma revertBoostResources_idem:
  assumes "revertBoostResources Q J p = Some (q, None)"
  shows "revertBoostResources Q J q = Some (q, None)"
proof -
  obtain a where a: "BoostAnnotationFromPod J p = Inr a"
    using assms by (cases "BoostAnnotationFromPod J p") (auto simp: revertBoostResources_def)
  with assms obtain cs where cs: "revertContainers Q a (podContainers p) = Some (cs, None)" "q = p\<lparr>podContainers := cs\<rparr>"
    by (auto simp: revertBoostResources_def bind_eq_Some_conv)
  moreover have "BoostAnnotationFromPod J q = Inr a" using a cs(2) BoostAnnotationFromPod_cong [of q p] by simp
  ultimately show ?thesis using revertContainers_idem [OF cs(1)] by (simp add: revertBoostResources_def)
qed

section \<open>The laws of the server\<close>

text \<open>
  An update replaces the object and fails when there is none. A patch changes the object that the server
  holds; the empty patch changes nothing. Both calls leave in the memory of the program the object that the
  server answers with; when they fail, the server is as it was and the memory holds what the
  program made of the object.
\<close>

locale pod_store = client_laws K
  for K :: "('q, 'w) kube_client" +
  fixes J :: "'q json_api"
    and stored :: "'w \<Rightarrow> string \<times> string \<Rightarrow> 'q pod option"
  assumes stored_key: "stored w k = Some x \<Longrightarrow> podKey x = k"
    and update_stores: "UpdatePod K p w = (None, p', w') \<Longrightarrow>
      p' = p \<and> stored w (podKey p) \<noteq> None \<and> stored w' = (stored w)(podKey p \<mapsto> p)"
    and update_fails: "UpdatePod K p w = (Some e, p', w') \<Longrightarrow> p' = p \<and> stored w' = stored w"
    and patch_exists: "PatchPod K s data p w = Some (None, p', w') \<Longrightarrow> stored w (podKey p) \<noteq> None"
    and patch_merges: "PatchPod K s data p w = Some (None, p', w') \<Longrightarrow> stored w (podKey p) = Some x \<Longrightarrow>
      data (PodObject p) = Some (PodObject q, Inr d) \<Longrightarrow> same_key p q \<Longrightarrow> revert_fields p q \<Longrightarrow>
      MarshalPod J p = Inr a \<Longrightarrow> MarshalPod J q = Inr b \<Longrightarrow> CreateMergePatch J a b = Inr d \<Longrightarrow>
      p' = merge_pod p q x \<and> stored w' = (stored w)(podKey p \<mapsto> merge_pod p q x)"
    and patch_empty: "PatchPod K s data p w = Some (None, p', w') \<Longrightarrow> stored w (podKey p) = Some x \<Longrightarrow>
      data (PodObject p) = Some (PodObject q, Inr EmptyPatchString) \<Longrightarrow> p' = x \<and> stored w' = stored w"
    and patch_fails: "PatchPod K s data p w = Some (Some e, p', w') \<Longrightarrow>
      data (PodObject p) = Some (PodObject q, r) \<Longrightarrow> p' = q \<and> stored w' = stored w"

text \<open>A pod has a JSON form, which determines it, and two such forms always have a difference.\<close>

locale pod_json =
  fixes J :: "'q json_api"
  assumes marshals: "\<exists>s. MarshalPod J p = Inr s"
    and marshal_inj: "MarshalPod J p = Inr s \<Longrightarrow> MarshalPod J q = Inr s \<Longrightarrow> p = q"
    and diffs: "MarshalPod J p = Inr a \<Longrightarrow> MarshalPod J q = Inr b \<Longrightarrow> \<exists>d. CreateMergePatch J a b = Inr d"
begin

text \<open>The patch that \<^verbatim>\<open>Data\<close> computes when the change of the pod succeeds.\<close>

lemma buildPodPatch_diff:
  assumes "mutate p = Some (q, None)"
  obtains a b d where "MarshalPod J p = Inr a" "MarshalPod J q = Inr b" "CreateMergePatch J a b = Inr d"
    "buildPodPatch J p mutate = Some (q, Inr d)"
proof -
  obtain a b where ab: "MarshalPod J p = Inr a" "MarshalPod J q = Inr b" using marshals by metis
  then obtain d where "CreateMergePatch J a b = Inr d" using diffs by blast
  with ab show thesis by (intro that) (simp_all add: buildPodPatch_def assms)
qed

lemma resources_data:
  assumes "revertBoostResources Q J p = Some (q, e)"
  shows "\<exists>d. revertBoostResourcesPatchData Q J (PodObject p) = Some (PodObject q, Inr d) \<and> (e \<noteq> None \<longrightarrow> d = EmptyPatchString)"
proof (cases e)
  case None
  then obtain a b d where "buildPodPatch J p (revertBoostResources Q J) = Some (q, Inr d)"
    using buildPodPatch_diff [of "revertBoostResources Q J" p q] assms by metis
  with None show ?thesis by (simp add: revertBoostResourcesPatchData_def)
next
  case (Some err)
  obtain a where "MarshalPod J p = Inr a" using marshals by blast
  with Some assms show ?thesis by (simp add: revertBoostResourcesPatchData_def buildPodPatch_def)
qed

lemma labels_data:
  assumes "revertBoostLabels p = Some (q, e)"
  shows "\<exists>d. revertBoostLabelsPatchData J (PodObject p) = Some (PodObject q, Inr d)"
proof -
  have "revertBoostLabels p = Some (q, None)" using assms revert_fields_labels(4) [OF assms] by simp
  then obtain a b d where "buildPodPatch J p revertBoostLabels = Some (q, Inr d)"
    using buildPodPatch_diff [of revertBoostLabels p q] by metis
  then show ?thesis by (simp add: revertBoostLabelsPatchData_def)
qed

end

locale pod_server = pod_store K J stored + pod_json J
  for K :: "('q, 'w) kube_client" and J :: "'q json_api" and stored
begin

lemma resources_merged:
  assumes "revertBoostResources Q J p = Some (q, None)" and "stored w (podKey p) = Some x"
    and "PatchPod K s (revertBoostResourcesPatchData Q J) p w = Some (None, p', w')"
  shows "p' = merge_pod p q x \<and> stored w' = (stored w)(podKey p \<mapsto> merge_pod p q x)"
proof -
  obtain a b d where d: "MarshalPod J p = Inr a" "MarshalPod J q = Inr b" "CreateMergePatch J a b = Inr d"
    "buildPodPatch J p (revertBoostResources Q J) = Some (q, Inr d)"
    by (rule buildPodPatch_diff [of "revertBoostResources Q J", OF assms(1)])
  show ?thesis
    by (rule patch_merges [OF assms(3,2) _ _ _ d(1-3)])
       (simp_all add: revertBoostResourcesPatchData_def d(4) revert_fields_resources [OF assms(1)])
qed

lemma labels_merged:
  assumes "revertBoostLabels p = Some (q, None)" and "stored w (podKey p) = Some x"
    and "PatchPod K s (revertBoostLabelsPatchData J) p w = Some (None, p', w')"
  shows "p' = merge_pod p q x \<and> stored w' = (stored w)(podKey p \<mapsto> merge_pod p q x)"
proof -
  obtain a b d where d: "MarshalPod J p = Inr a" "MarshalPod J q = Inr b" "CreateMergePatch J a b = Inr d"
    "buildPodPatch J p revertBoostLabels = Some (q, Inr d)"
    by (rule buildPodPatch_diff [of revertBoostLabels, OF assms(1)])
  show ?thesis
    by (rule patch_merges [OF assms(3,2) _ _ _ d(1-3)])
       (simp_all add: revertBoostLabelsPatchData_def d(4) revert_fields_labels [OF assms(1)])
qed

lemma labels_patched:
  assumes "revertBoostLabels p = Some (q, None)" and "stored w (podKey p) = Some p"
    and "PatchPod K s (revertBoostLabelsPatchData J) p w = Some (None, p', w')"
  shows "p' = q \<and> stored w' = (stored w)(podKey p \<mapsto> q)"
  using labels_merged [OF assms] merge_pod_self [OF revert_fields_labels(1) [OF assms(1)]] by simp

text \<open>A revert of the resources that fails in the memory of the program: the first patch is empty.\<close>

lemma resources_not_patched:
  assumes "revertBoostResources Q J p = Some (q, Some err)" and "stored w (podKey p) = Some x"
    and "PatchPod K s (revertBoostResourcesPatchData Q J) p w = Some (None, p', w')"
  shows "p' = x \<and> stored w' = stored w"
proof -
  have "revertBoostResourcesPatchData Q J (PodObject p) = Some (PodObject q, Inr EmptyPatchString)"
    using resources_data [OF assms(1)] by auto
  then show ?thesis by (rule patch_empty [OF assms(3,2)])
qed

end

text \<open>
  What others see of the server: an informer or a cached list may deliver every pod that the server ever
  held, however old. \<open>versions\<close> are these pods.
\<close>

locale pod_history = pod_server K J stored
  for K :: "('q, 'w) kube_client" and J :: "'q json_api" and stored +
  fixes versions :: "'w \<Rightarrow> string \<times> string \<Rightarrow> 'q pod set"
  assumes current: "stored w k = Some p \<Longrightarrow> p \<in> versions w k"
    and versions_key: "p \<in> versions w k \<Longrightarrow> podKey p = k"
    and update_versions: "UpdatePod K p w = (e, p', w') \<Longrightarrow> versions w' k \<subseteq> versions w k \<union> {x. stored w' k = Some x}"
    and patch_versions: "PatchPod K s data p w = Some (e, p', w') \<Longrightarrow>
      versions w' k \<subseteq> versions w k \<union> {x. stored w' k = Some x}"
    and list_versions: "ListPods K ns l v w = Inr ps \<Longrightarrow> p \<in> set ps \<Longrightarrow> p \<in> versions w (podKey p)"

section \<open>A server in memory\<close>

subsection \<open>Pods as text\<close>

text \<open>
  A JSON form for pods with integer quantities. Lists are objects with empty names, and a nil map is a
  string, so that the form determines the pod.
\<close>

definition json_list :: "('a \<Rightarrow> json) \<Rightarrow> 'a list \<Rightarrow> json" where
  "json_list f xs = JObject (map (\<lambda>x. ('''', f x)) xs)"

definition json_map :: "('a \<Rightarrow> json) \<Rightarrow> 'a gomap \<Rightarrow> json" where
  "json_map f m = (case m of None \<Rightarrow> JString '''' | Some al \<Rightarrow> JObject (map (\<lambda>(k, v). (k, f v)) (DAList.impl_of al)))"

definition json_int :: "int \<Rightarrow> json" where
  "json_int n = JString (show_int n)"

definition json_resources :: "int resource_requirements \<Rightarrow> json" where
  "json_resources r = JObject [(''requests'', json_map json_int (Requests r)), (''limits'', json_map json_int (Limits r))]"

definition json_resize :: "resize_policy \<Rightarrow> json" where
  "json_resize r = JObject [(''resourceName'', JString (rpResourceName r)), (''restartPolicy'', JString (rpRestartPolicy r))]"

definition json_container :: "int container \<Rightarrow> json" where
  "json_container c = JObject [(''name'', JString (ctrName c)), (''resources'', json_resources (ctrResources c)),
     (''resizePolicy'', json_list json_resize (ctrResizePolicy c))]"

definition json_condition :: "pod_condition \<Rightarrow> json" where
  "json_condition c = JObject [(''type'', JString (condType c)), (''status'', JString (condStatus c)),
     (''lastTransitionTime'', json_int (condLastTransitionTime c))]"

definition json_pod :: "int pod \<Rightarrow> json" where
  "json_pod p = JObject [(''name'', JString (podName p)), (''namespace'', JString (podNamespace p)),
     (''labels'', json_map JString (podLabels p)), (''annotations'', json_map JString (podAnnotations p)),
     (''containers'', json_list json_container (podContainers p)),
     (''initContainers'', json_list json_container (podInitContainers p)),
     (''resources'', case podSpecResources p of None \<Rightarrow> JString '''' | Some r \<Rightarrow> json_resources r),
     (''conditions'', json_list json_condition (podConditions p))]"

lemma string_members_map: "(\<And>x. x \<in> set xs \<Longrightarrow> string_tree (snd (f x))) \<Longrightarrow> string_members (map f xs)"
  by (induction xs) (simp_all, metis prod.collapse string_members.simps(2))

lemma json_list_tree: "(\<And>x. string_tree (f x)) \<Longrightarrow> string_tree (json_list f xs)"
  by (simp add: json_list_def string_members_map)

lemma json_map_tree: "(\<And>x. string_tree (f x)) \<Longrightarrow> string_tree (json_map f m)"
  by (auto simp: json_map_def intro!: string_members_map split: option.splits)

lemmas json_trees = json_list_tree json_map_tree json_int_def json_resources_def json_resize_def json_container_def
  json_condition_def json_pod_def

lemma json_pod_tree: "string_tree (json_pod p)"
  by (simp add: json_trees split: option.splits)

lemma inj_json_list: "inj f \<Longrightarrow> inj (json_list f)"
  by (auto simp: inj_def json_list_def)

lemma inj_json_map: "inj f \<Longrightarrow> inj (json_map f)"
proof (rule injI)
  fix m m' assume f: "inj f" and e: "json_map f m = json_map f m'"
  have "inj (\<lambda>(k :: string, v). (k, f v))" using f by (auto simp: inj_def)
  from inj_map_eq_map [OF this] e show "m = m'"
    by (auto simp: json_map_def DAList.impl_of_inject split: option.splits)
qed

lemma inj_json_int: "inj json_int"
  by (rule injI) (metis json.inject(3) json_int_def option.inject read_show_int)

lemma inj_JString: "inj JString"
  by (simp add: inj_def)

lemma inj_json_resources: "inj json_resources"
  by (rule injI) (simp add: json_resources_def inj_eq [OF inj_json_map [OF inj_json_int]])

lemma inj_json_resize: "inj json_resize"
  by (rule injI) (simp add: json_resize_def)

lemma inj_json_container: "inj json_container"
  by (rule injI) (simp add: json_container_def inj_eq [OF inj_json_resources] inj_eq [OF inj_json_list [OF inj_json_resize]])

lemma inj_json_condition: "inj json_condition"
  by (rule injI) (simp add: json_condition_def inj_eq [OF inj_json_int])

lemma inj_json_pod: "inj json_pod"
proof (rule injI)
  fix p q assume e: "json_pod p = json_pod q"
  have "podSpecResources p = podSpecResources q"
    using e by (auto simp: json_pod_def json_resources_def inj_eq [OF inj_json_map [OF inj_json_int]] split: option.splits)
  then show "p = q"
    using e by (simp add: json_pod_def inj_eq [OF inj_json_map [OF inj_JString]] inj_eq [OF inj_json_list [OF inj_json_container]]
        inj_eq [OF inj_json_list [OF inj_json_condition]])
qed

definition pod_text :: "int pod \<Rightarrow> string" where
  "pod_text p = print_json (json_pod p)"

lemma pod_text_inj: "pod_text p = pod_text q \<longleftrightarrow> p = q"
  unfolding pod_text_def using parse_print_json [OF json_pod_tree] inj_json_pod by (metis injD option.inject)

text \<open>The difference of a text and itself is the empty patch.\<close>

definition table_json :: "int json_api" where
  "table_json = go_json\<lparr>MarshalPod := \<lambda>p. Inr (pod_text p),
     CreateMergePatch := \<lambda>a b. Inr (if a = b then EmptyPatchString else ''{spec}'')\<rparr>"

lemma table_json_simps [simp]:
  "MarshalPod table_json p = Inr (pod_text p)"
  "CreateMergePatch table_json a b = Inr (if a = b then EmptyPatchString else ''{spec}'')"
  by (simp_all add: table_json_def)

interpretation tabj: pod_json table_json
  by unfold_locales (simp_all, metis pod_text_inj)

interpretation tabc: annotation_codec table_json
  using gj.annotation_codec_axioms [where 'a = int] unfolding annotation_codec_def by (simp add: table_json_def)

subsection \<open>The calls\<close>

text \<open>
  The server holds its pods in a table and keeps all that it ever held. With \<open>faulty\<close>, it answers the
  next calls with an error as the list \<open>tableFailures\<close> says.
\<close>

record table =
  tablePods :: "(string \<times> string, int pod) alist"
  tableHistory :: "int pod list"
  tableFailures :: "bool list"

definition at_key :: "string \<times> string \<Rightarrow> int pod \<Rightarrow> int pod" where
  "at_key k p = p\<lparr>podNamespace := fst k, podName := snd k\<rparr>"

definition table_stored :: "table \<Rightarrow> string \<times> string \<Rightarrow> int pod option" where
  "table_stored w k = map_option (at_key k) (DAList.lookup (tablePods w) k)"

definition table_versions :: "table \<Rightarrow> string \<times> string \<Rightarrow> int pod set" where
  "table_versions w k = {p \<in> set (tableHistory w). podKey p = k} \<union> {p. table_stored w k = Some p}"

definition table_put :: "int pod \<Rightarrow> table \<Rightarrow> table" where
  "table_put p w = w\<lparr>tablePods := DAList.update (podKey p) p (tablePods w), tableHistory := p # tableHistory w\<rparr>"

definition table_fails :: "bool \<Rightarrow> table \<Rightarrow> bool" where
  "table_fails faulty w \<longleftrightarrow> faulty \<and> tableFailures w \<noteq> [] \<and> hd (tableFailures w)"

definition table_next :: "table \<Rightarrow> table" where
  "table_next w = w\<lparr>tableFailures := tl (tableFailures w)\<rparr>"

definition table_patch :: "bool \<Rightarrow> string option \<Rightarrow> int patch_data \<Rightarrow> int pod \<Rightarrow> table \<Rightarrow>
    (go_error option \<times> int pod \<times> table) option" where
  "table_patch faulty s data p w =
     (case data (PodObject p) of
        None \<Rightarrow> None
      | Some (OtherObject, _) \<Rightarrow> Some (Some (OtherError ''not a pod''), p, w)
      | Some (PodObject q, Inl e) \<Rightarrow> Some (Some e, q, w)
      | Some (PodObject q, Inr d) \<Rightarrow>
          (if table_fails faulty w then Some (Some (OtherError ''timeout''), q, table_next w)
           else case table_stored w (podKey p) of
             None \<Rightarrow> Some (Some NotFound, q, table_next w)
           | Some x \<Rightarrow>
               if d = EmptyPatchString then Some (None, x, table_next w)
               else let y = merge_pod p q x in Some (None, y, table_put y (table_next w))))"

definition table_update :: "bool \<Rightarrow> int pod \<Rightarrow> table \<Rightarrow> go_error option \<times> int pod \<times> table" where
  "table_update faulty p w =
     (if table_fails faulty w then (Some (OtherError ''timeout''), p, table_next w)
      else if table_stored w (podKey p) = None then (Some NotFound, p, table_next w)
      else (None, p, table_put p (table_next w)))"

definition table_list :: "string \<Rightarrow> string \<Rightarrow> string \<Rightarrow> table \<Rightarrow> go_error + int pod list" where
  "table_list ns l v w =
     Inr (filter (\<lambda>p. podNamespace p = ns \<and> map_get (podLabels p) l = Some v)
            (map (\<lambda>(k, p). at_key k p) (DAList.impl_of (tablePods w))))"

definition table_client :: "bool \<Rightarrow> (int, table) kube_client" where
  "table_client faulty = \<lparr>PatchPod = table_patch faulty, UpdatePod = table_update faulty, ListPods = table_list\<rparr>"

lemma at_key_simps [simp]: "podName (at_key k p) = snd k" "podNamespace (at_key k p) = fst k" "at_key (podKey p) p = p"
  by (simp_all add: at_key_def)

lemma table_stored_simps [simp]:
  "table_stored (table_next w) = table_stored w"
  "table_stored (table_put p w) = (table_stored w)(podKey p \<mapsto> p)"
  by (auto simp: table_stored_def table_next_def table_put_def lookup_update)

lemma table_stored_key: "table_stored w k = Some x \<Longrightarrow> podKey x = k"
  by (auto simp: table_stored_def)

lemma table_versions_step:
  "table_versions (table_next w) k = table_versions w k"
  "table_versions (table_put p w) k \<subseteq> table_versions w k \<union> {x. table_stored (table_put p w) k = Some x}"
  by (auto simp: table_versions_def) (auto simp: table_next_def table_put_def)

interpretation tab: client_laws "table_client faulty" for faulty
proof (unfold_locales, goal_cases)
  case (1 data s p w)
  then obtain q r where "data (PodObject p) = Some (PodObject q, r)" unfolding data_total_def by blast
  then show ?case by (cases r) (simp_all add: table_client_def table_patch_def Let_def split: option.splits)
next
  case (2 data s p w e p' w')
  then obtain q r where "data (PodObject p) = Some (PodObject q, r)" "same_key p q" unfolding data_total_def by blast
  with 2(2) show ?case
    by (cases r) (auto simp: table_client_def table_patch_def Let_def dest: table_stored_key split: option.splits if_splits)
qed (auto simp: table_client_def table_update_def table_list_def split: if_splits)

lemma table_patch_ok:
  assumes "table_patch faulty s data p w = Some (None, p', w')"
  obtains q d x where "data (PodObject p) = Some (PodObject q, Inr d)" "table_stored w (podKey p) = Some x"
    "if d = EmptyPatchString then p' = x \<and> w' = table_next w else p' = merge_pod p q x \<and> w' = table_put p' (table_next w)"
proof -
  obtain obj r where o: "data (PodObject p) = Some (obj, r)" using assms by (cases "data (PodObject p)") (auto simp: table_patch_def)
  then obtain q where q: "obj = PodObject q" using assms by (cases obj) (auto simp: table_patch_def)
  then obtain d where d: "r = Inr d" using assms o by (cases r) (auto simp: table_patch_def)
  have f: "\<not> table_fails faulty w" using assms o q d by (auto simp: table_patch_def split: if_splits)
  then obtain x where x: "table_stored w (podKey p) = Some x"
    using assms o q d by (cases "table_stored w (podKey p)") (auto simp: table_patch_def)
  show thesis using assms o q d f x
    by (intro that [OF o [unfolded q d] x]) (auto simp: table_patch_def Let_def split: if_splits)
qed

lemma table_patch_error:
  assumes "table_patch faulty s data p w = Some (Some e, p', w')" and "data (PodObject p) = Some (PodObject q, r)"
  shows "p' = q \<and> (w' = w \<or> w' = table_next w)"
proof (cases r)
  case (Inr d)
  then show ?thesis using assms
    by (cases "table_stored w (podKey p)") (simp_all add: table_patch_def Let_def split: if_splits)
qed (use assms in \<open>simp add: table_patch_def\<close>)

interpretation tabs: pod_server "table_client faulty" table_json table_stored for faulty
proof (unfold_locales, goal_cases)
  case (1 w k x)
  then show ?case by (rule table_stored_key)
next
  case (2 p w p' w')
  then show ?case by (auto simp: table_client_def table_update_def split: if_splits)
next
  case (3 p w e p' w')
  then show ?case by (auto simp: table_client_def table_update_def split: if_splits)
next
  case (4 s data p w p' w')
  then have "table_patch faulty s data p w = Some (None, p', w')" by (simp add: table_client_def)
  then show ?case by (rule table_patch_ok) simp
next
  case (5 s data p w p' w' x q d a b)
  have k: "podKey x = podKey p" using 5(2) by (rule table_stored_key)
  have "table_patch faulty s data p w = Some (None, p', w')" using 5(1) by (simp add: table_client_def)
  then have t: "if d = EmptyPatchString then p' = x \<and> w' = table_next w else p' = merge_pod p q x \<and> w' = table_put p' (table_next w)"
    by (rule table_patch_ok) (use 5(2,3) in auto)
  have "d = EmptyPatchString \<longleftrightarrow> p = q" using 5(6-8) by (auto simp: pod_text_inj split: if_splits)
  with t k 5(2) show ?case by (cases "p = q") auto
next
  case (6 s data p w p' w' x q)
  then have "table_patch faulty s data p w = Some (None, p', w')" by (simp add: table_client_def)
  then show ?case by (rule table_patch_ok) (use 6(2,3) in auto)
next
  case (7 s data p w e p' w' q r)
  then have "table_patch faulty s data p w = Some (Some e, p', w')" by (simp add: table_client_def)
  from table_patch_error [OF this 7(2)] show ?case by auto
qed

lemma table_patch_world:
  assumes "table_patch faulty s data p w = Some (e, p', w')"
  shows "w' = w \<or> w' = table_next w \<or> (\<exists>y. w' = table_put y (table_next w))"
proof (cases e)
  case None
  with assms have "table_patch faulty s data p w = Some (None, p', w')" by simp
  then show ?thesis by (rule table_patch_ok) (auto split: if_splits)
next
  case (Some err)
  obtain obj r where o: "data (PodObject p) = Some (obj, r)" using assms by (cases "data (PodObject p)") (auto simp: table_patch_def)
  show ?thesis
  proof (cases obj)
    case (PodObject q)
    then show ?thesis using table_patch_error [of faulty s data p w err p' w' q r] assms o Some by auto
  qed (use assms o in \<open>auto simp: table_patch_def\<close>)
qed

lemma table_versions_next:
  "w' = w \<or> w' = table_next w \<or> (\<exists>y. w' = table_put y (table_next w)) \<Longrightarrow>
   table_versions w' k \<subseteq> table_versions w k \<union> {x. table_stored w' k = Some x}"
  using table_versions_step(1) [of w k] table_versions_step(2) [of _ "table_next w" k] by blast

interpretation tabh: pod_history "table_client faulty" table_json table_stored table_versions for faulty
proof (unfold_locales, goal_cases)
  case (3 p w e p' w' k)
  then have "w' = w \<or> w' = table_next w \<or> (\<exists>y. w' = table_put y (table_next w))"
    by (auto simp: table_client_def table_update_def split: if_splits)
  then show ?case by (rule table_versions_next)
next
  case (4 s data p w e p' w' k)
  then have "table_patch faulty s data p w = Some (e, p', w')" by (simp add: table_client_def)
  from table_versions_next [OF table_patch_world [OF this]] show ?case .
next
  case (5 ns l v w ps p)
  then obtain k x where "(k, x) \<in> set (DAList.impl_of (tablePods w))" "p = at_key k x"
    by (auto simp: table_client_def table_list_def)
  then show ?case by (auto simp: table_versions_def table_stored_def lookup_eq_map_of)
qed (auto simp: table_versions_def dest: table_stored_key)

end
