(* ===== verification/Boost_Controller.thy ===== *)
theory Boost_Controller
  imports Manager_Operations
begin

text \<open>
  \<^verbatim>\<open>internal/controller/boost_controller.go\<close> and \<^verbatim>\<open>boost_pod_handler.go\<close>: the reconciler of boosts, which
  writes their status, the event filter, which keeps the manager in step with the boost objects, and
  the handler of pod events. The API client, \<^verbatim>\<open>meta.SetStatusCondition\<close> and the comparison of versions
  belong to libraries and are arguments. \<^verbatim>\<open>equality.Semantic.DeepEqual\<close> does not tell nil and empty
  slices apart; neither do the records of the model, so it is equality here.
\<close>

section \<open>The API of boost objects\<close>

record ('q, 'w) boost_objects =
  GetBoost :: "string \<Rightarrow> string \<Rightarrow> 'w \<Rightarrow> go_error + 'q startup_cpu_boost"
  UpdateBoostStatus :: "'q startup_cpu_boost \<Rightarrow> 'w \<Rightarrow> go_error option \<times> 'w"

text \<open>\<^verbatim>\<open>meta.SetStatusCondition\<close> reads the clock, its first argument here, when the status changes.\<close>

type_synonym set_status_condition =
  "int \<Rightarrow> status_condition list \<Rightarrow> status_condition \<Rightarrow> status_condition list"

text \<open>
  What the documentation of the two libraries promises: an object that was read has the name it was
  asked for, and a read after a successful status update gives the object with that status; after a
  condition was set there is one of its type with its status, reason and message, setting it again
  changes nothing, and the conditions of other types stay.
\<close>

definition same_condition :: "status_condition \<Rightarrow> status_condition \<Rightarrow> bool" where
  "same_condition c c' \<longleftrightarrow> scType c' = scType c \<and> scStatus c' = scStatus c \<and> scReason c' = scReason c \<and>
     scMessage c' = scMessage c"

locale boost_objects_laws =
  fixes C :: "('q, 'w) boost_objects"
  assumes get_key: "GetBoost C ns n w = Inr b \<Longrightarrow> scbName b = n \<and> scbNamespace b = ns"
    and get_update: "GetBoost C ns n w = Inr b \<Longrightarrow> UpdateBoostStatus C (b\<lparr>scbStatus := st\<rparr>) w = (None, w') \<Longrightarrow>
      GetBoost C ns n w' = Inr (b\<lparr>scbStatus := st\<rparr>)"

locale status_condition_laws =
  fixes setCond :: set_status_condition
  assumes sets: "\<exists>c' \<in> set (setCond t cs c). same_condition c c'"
    and stable: "setCond t' (setCond t cs c) c = setCond t cs c"
    and others: "[c' \<leftarrow> setCond t cs c. scType c' \<noteq> scType c] = [c' \<leftarrow> cs. scType c' \<noteq> scType c]"

section \<open>The reconciler\<close>

record reconciler =
  LegacyRevertMode :: bool

record ctrl_result =
  Requeue :: bool

definition activeCondition :: "bool \<Rightarrow> status_condition" where
  "activeCondition found =
     (if found then \<lparr>scType = ''Active'', scStatus = ''True'', scReason = ''Ready'',
                     scMessage = ''Can boost new containers'', scLastTransitionTime = 0\<rparr>
      else \<lparr>scType = ''Active'', scStatus = ''False'', scReason = ''NotFound'',
             scMessage = ''StartupCPUBoost not found'', scLastTransitionTime = 0\<rparr>)"

definition newBoostStatus :: "set_status_condition \<Rightarrow> int \<Rightarrow> 'q boost option \<Rightarrow> boost_status \<Rightarrow> boost_status" where
  "newBoostStatus setCond t boost st =
     (let st1 = (case boost of
                   None \<Rightarrow> st
                 | Some b \<Rightarrow> st\<lparr>stActiveContainerBoosts := to_int32 (ActiveContainerBoosts (boostStats b)),
                                  stTotalContainerBoosts := to_int32 (TotalContainerBoosts (boostStats b))\<rparr>)
      in st1\<lparr>stConditions := setCond t (stConditions st1) (activeCondition (boost \<noteq> None))\<rparr>)"

definition Reconcile ::
  "('q, 'w) boost_objects \<Rightarrow> set_status_condition \<Rightarrow> go_runtime \<Rightarrow> string \<Rightarrow> string \<Rightarrow> ('q, 'w) manager \<Rightarrow>
   ctrl_result \<times> go_error option \<times> ('q, 'w) manager" where
  "Reconcile C setCond rt namespace name m =
     (case GetBoost C namespace name (apiState m) of
        Inl err \<Rightarrow> (\<lparr>Requeue = False\<rparr>, IgnoreNotFound (Some err), m)
      | Inr boostObj \<Rightarrow>
          (let boost = map_option (boostAt m) (GetRegularCPUBoost (scbName boostObj) (scbNamespace boostObj) m);
               newBoostObj = boostObj\<lparr>scbStatus := newBoostStatus setCond (timeNow rt) boost (scbStatus boostObj)\<rparr>;
               (err, w) = (if scbStatus newBoostObj \<noteq> scbStatus boostObj
                           then UpdateBoostStatus C newBoostObj (apiState m) else (None, apiState m));
               m' = m\<lparr>apiState := w\<rparr>
           in if err \<noteq> None then
                (if IsConflict err then (\<lparr>Requeue = True\<rparr>, None, m')
                 else (\<lparr>Requeue = False\<rparr>, IgnoreNotFound err, m'))
              else (\<lparr>Requeue = False\<rparr>, None, m')))"

abbreviation WantedServerVersionForNewRevert :: string where
  "WantedServerVersionForNewRevert \<equiv> ''v1.32.0''"

definition shouldUseLegacyRevertMode :: "(string \<Rightarrow> string \<Rightarrow> int) \<Rightarrow> string \<Rightarrow> bool" where
  "shouldUseLegacyRevertMode compareVersions serverVersion =
     (compareVersions WantedServerVersionForNewRevert serverVersion < 0)"

section \<open>The event filter\<close>

datatype 'q event_object = BoostObj "'q startup_cpu_boost" | PodObj ref | OtherObj

text \<open>
  The event filter keeps the manager in step with the boost objects. When the constructor of the boost
  fails, \<^verbatim>\<open>boost\<close> is a nil interface and goes to the manager nevertheless.
\<close>

definition recCreate ::
  "('q, 'd, 'w) deps \<Rightarrow> go_runtime \<Rightarrow> reconciler \<Rightarrow> 'q event_object \<Rightarrow> ('q, 'w) manager \<Rightarrow>
   (bool \<times> ('q, 'w) manager) option" where
  "recCreate D rt rec obj m =
     (case obj of
        BoostObj boostObj \<Rightarrow>
          (case NewStartupCPUBoost (dSel D) boostObj (LegacyRevertMode rec) m of
             (res, m1) \<Rightarrow> do {
               let boost = (case res of Inl _ \<Rightarrow> None | Inr r \<Rightarrow> Some r);
               (err, m2) \<leftarrow> AddRegularCPUBoost D rt boost m1;
               Some (True, m2)
             })
      | _ \<Rightarrow> Some (True, m))"

definition recDelete :: "'q event_object \<Rightarrow> ('q, 'w) manager \<Rightarrow> bool \<times> ('q, 'w) manager" where
  "recDelete obj m =
     (case obj of
        BoostObj boostObj \<Rightarrow> (True, DeleteRegularCPUBoost (scbNamespace boostObj) (scbName boostObj) m)
      | _ \<Rightarrow> (True, m))"

definition recUpdate ::
  "('q, 'd, 'w) deps \<Rightarrow> go_runtime \<Rightarrow> 'q event_object \<Rightarrow> ('q, 'w) manager \<Rightarrow>
   (bool \<times> ('q, 'w) manager) option" where
  "recUpdate D rt objNew m =
     (case objNew of
        BoostObj boostObj \<Rightarrow> do {
          (err, m1) \<leftarrow> UpdateRegularCPUBoost D rt boostObj m;
          Some (True, m1)
        }
      | _ \<Rightarrow> Some (True, m))"

definition recGeneric :: "'q event_object \<Rightarrow> ('q, 'w) manager \<Rightarrow> bool \<times> ('q, 'w) manager" where
  "recGeneric obj m = (True, m)"

section \<open>The handler of pod events\<close>

text \<open>A handler gives the requests that it adds to the work queue, as pairs of namespace and name.\<close>

type_synonym request = "string \<times> string"

definition boostRequest :: "ref option \<Rightarrow> ('q, 'w) manager \<Rightarrow> request list" where
  "boostRequest boost m =
     (case boost of None \<Rightarrow> [] | Some r \<Rightarrow> [(boostNamespace (boostAt m r), boostName (boostAt m r))])"

definition podCreate ::
  "('q, 'd, 'w) deps \<Rightarrow> go_runtime \<Rightarrow> 'q event_object \<Rightarrow> ('q, 'w) manager \<Rightarrow>
   (request list \<times> ('q, 'w) manager) option" where
  "podCreate D rt obj m =
     (case obj of
        PodObj p \<Rightarrow> do {
          (boost, err, m1) \<leftarrow> mgrUpsertPod D rt p m;
          Some (if err \<noteq> None then [] else boostRequest boost m1, m1)
        }
      | _ \<Rightarrow> Some ([], m))"

definition podDelete ::
  "('q, 'd, 'w) deps \<Rightarrow> go_runtime \<Rightarrow> 'q event_object \<Rightarrow> ('q, 'w) manager \<Rightarrow> request list \<times> ('q, 'w) manager" where
  "podDelete D rt obj m =
     (case obj of
        PodObj p \<Rightarrow>
          (case mgrDeletePod D rt p m of
             (boost, err, m1) \<Rightarrow> (if err \<noteq> None then [] else boostRequest boost m1, m1))
      | _ \<Rightarrow> ([], m))"

definition podUpdate ::
  "('q, 'd, 'w) deps \<Rightarrow> go_runtime \<Rightarrow> 'q event_object \<Rightarrow> 'q event_object \<Rightarrow> ('q, 'w) manager \<Rightarrow>
   (request list \<times> ('q, 'w) manager) option" where
  "podUpdate D rt objOld objNew m =
     (case (objNew, objOld) of
        (PodObj p, PodObj oldP) \<Rightarrow>
          (if podConditions (podAt m p) = podConditions (podAt m oldP) then Some ([], m)
           else do {
             (boost, err, m1) \<leftarrow> mgrUpsertPod D rt p m;
             Some (if err \<noteq> None then [] else boostRequest boost m1, m1)
           })
      | _ \<Rightarrow> Some ([], m))"

definition podGeneric :: "'q event_object \<Rightarrow> ('q, 'w) manager \<Rightarrow> request list \<times> ('q, 'w) manager" where
  "podGeneric obj m = ([], m)"

definition GetPodLabelSelector :: label_selector where
  "GetPodLabelSelector =
     \<lparr>matchLabels = nil_map, matchExpressions = [\<lparr>lrKey = BoostLabelKey, lrOperator = ''Exists'', lrValues = []\<rparr>]\<rparr>"

section \<open>Concrete libraries\<close>

text \<open>A server that keeps the boost objects in a list, and the update of conditions in place.\<close>

definition mem_boosts :: "('q, 'q startup_cpu_boost list) boost_objects" where
  "mem_boosts = \<lparr>
     GetBoost = (\<lambda>ns n w. case List.find (\<lambda>b. scbName b = n \<and> scbNamespace b = ns) w of
        None \<Rightarrow> Inl NotFound | Some b \<Rightarrow> Inr b),
     UpdateBoostStatus = (\<lambda>b w. (None,
        map (\<lambda>b'. if scbName b' = scbName b \<and> scbNamespace b' = scbNamespace b
                  then b'\<lparr>scbStatus := scbStatus b\<rparr> else b') w))\<rparr>"

primrec set_condition :: "int \<Rightarrow> status_condition list \<Rightarrow> status_condition \<Rightarrow> status_condition list" where
  "set_condition t [] c = [c\<lparr>scLastTransitionTime := t\<rparr>]"
| "set_condition t (c' # cs) c =
     (if scType c' = scType c
      then c'\<lparr>scStatus := scStatus c, scReason := scReason c, scMessage := scMessage c,
             scLastTransitionTime := (if scStatus c' = scStatus c then scLastTransitionTime c' else t)\<rparr> # cs
      else c' # set_condition t cs c)"

lemma find_status_update:
  "List.find (\<lambda>b. scbName b = n \<and> scbNamespace b = ns) w = Some b \<Longrightarrow>
   List.find (\<lambda>b. scbName b = n \<and> scbNamespace b = ns)
     (map (\<lambda>b'. if scbName b' = n \<and> scbNamespace b' = ns then b'\<lparr>scbStatus := st\<rparr> else b') w) =
   Some (b\<lparr>scbStatus := st\<rparr>)"
  by (induction w) (auto split: if_splits)

interpretation memo: boost_objects_laws mem_boosts
proof
  fix ns n and w w' :: "'q startup_cpu_boost list" and b st
  assume g: "GetBoost mem_boosts ns n w = Inr b"
  then show k: "scbName b = n \<and> scbNamespace b = ns"
    by (auto simp: mem_boosts_def find_Some_iff split: option.splits)
  assume "UpdateBoostStatus mem_boosts (b\<lparr>scbStatus := st\<rparr>) w = (None, w')"
  with g k show "GetBoost mem_boosts ns n w' = Inr (b\<lparr>scbStatus := st\<rparr>)"
    by (auto simp: mem_boosts_def find_status_update split: option.splits)
qed

interpretation setc: status_condition_laws set_condition
proof
  fix t t' cs c
  show "\<exists>c' \<in> set (set_condition t cs c). same_condition c c'"
    by (induction cs) (auto simp: same_condition_def)
  show "set_condition t' (set_condition t cs c) c = set_condition t cs c"
    by (induction cs) auto
  show "[c' \<leftarrow> set_condition t cs c. scType c' \<noteq> scType c] = [c' \<leftarrow> cs. scType c' \<noteq> scType c]"
    by (induction cs) auto
qed

section \<open>The status of a boost object\<close>

text \<open>What a status should say of the boost that the manager has, if it has one.\<close>

definition status_describes :: "'q boost option \<Rightarrow> boost_status \<Rightarrow> bool" where
  "status_describes boost st \<longleftrightarrow>
     (\<exists>c \<in> set (stConditions st). same_condition (activeCondition (boost \<noteq> None)) c) \<and>
     (\<forall>b. boost = Some b \<longrightarrow>
        stActiveContainerBoosts st = to_int32 (ActiveContainerBoosts (boostStats b)) \<and>
        stTotalContainerBoosts st = to_int32 (TotalContainerBoosts (boostStats b)))"

definition managed_boost :: "string \<Rightarrow> string \<Rightarrow> ('q, 'w) manager \<Rightarrow> 'q boost option" where
  "managed_boost namespace name m = map_option (boostAt m) (GetRegularCPUBoost name namespace m)"

lemma managed_boost_world [simp]: "managed_boost ns n (m\<lparr>apiState := w\<rparr>) = managed_boost ns n m"
  by (simp add: managed_boost_def GetRegularCPUBoost_def)

lemma activeCondition_type [simp]: "scType (activeCondition found) = ''Active''"
  by (simp add: activeCondition_def)

locale status_writer = boost_objects_laws C + status_condition_laws setCond
  for C :: "('q, 'w) boost_objects" and setCond
begin

lemma newBoostStatus_describes: "status_describes boost (newBoostStatus setCond t boost st)"
  using sets by (auto simp: status_describes_def newBoostStatus_def Let_def split: option.split)

lemma newBoostStatus_stable:
  "newBoostStatus setCond t' boost (newBoostStatus setCond t boost st) = newBoostStatus setCond t boost st"
  by (cases boost) (simp_all add: newBoostStatus_def Let_def stable)

lemma newBoostStatus_others:
  "[c \<leftarrow> stConditions (newBoostStatus setCond t boost st). scType c \<noteq> ''Active''] =
   [c \<leftarrow> stConditions st. scType c \<noteq> ''Active'']"
  using others [where c = "activeCondition (boost \<noteq> None)"]
  by (cases boost) (simp_all add: newBoostStatus_def Let_def)

lemma Reconcile_settled:
  assumes g: "GetBoost C ns n (apiState m) = Inr obj"
    and st: "newBoostStatus setCond (timeNow rt) (managed_boost ns n m) (scbStatus obj) = scbStatus obj"
  shows "Reconcile C setCond rt ns n m = (\<lparr>Requeue = False\<rparr>, None, m)"
  using st get_key [OF g] by (simp add: Reconcile_def g managed_boost_def)

lemma Reconcile_writes:
  assumes g: "GetBoost C ns n (apiState m) = Inr obj" and r: "Reconcile C setCond rt ns n m = (res, err, m')"
    and ok: "fst (UpdateBoostStatus C (obj\<lparr>scbStatus := newBoostStatus setCond (timeNow rt) (managed_boost ns n m) (scbStatus obj)\<rparr>)
               (apiState m)) = None"
  shows "GetBoost C ns n (apiState m') =
       Inr (obj\<lparr>scbStatus := newBoostStatus setCond (timeNow rt) (managed_boost ns n m) (scbStatus obj)\<rparr>)"
    and "m' = m\<lparr>apiState := apiState m'\<rparr>" and "res = \<lparr>Requeue = False\<rparr>" and "err = None"
proof -
  let ?st = "newBoostStatus setCond (timeNow rt) (managed_boost ns n m) (scbStatus obj)"
  obtain w where u: "UpdateBoostStatus C (obj\<lparr>scbStatus := ?st\<rparr>) (apiState m) = (None, w)"
    using ok by (metis prod.collapse)
  have "(res, err, m') = (\<lparr>Requeue = False\<rparr>, None, if ?st = scbStatus obj then m else m\<lparr>apiState := w\<rparr>)"
    using r by (auto simp: Reconcile_def g get_key [OF g] u managed_boost_def [symmetric] split: if_splits)
  then show "GetBoost C ns n (apiState m') = Inr (obj\<lparr>scbStatus := ?st\<rparr>)"
    and "m' = m\<lparr>apiState := apiState m'\<rparr>" "res = \<lparr>Requeue = False\<rparr>" "err = None"
    using g get_update [OF g u] by auto
qed

lemma reconcile_converges:
  assumes g: "GetBoost C ns n (apiState m) = Inr obj"
    and ok: "\<And>obj'. fst (UpdateBoostStatus C obj' (apiState m)) = None"
  shows "\<exists>st m'. Reconcile C setCond rt ns n m = (\<lparr>Requeue = False\<rparr>, None, m') \<and>
     GetBoost C ns n (apiState m') = Inr (obj\<lparr>scbStatus := st\<rparr>) \<and>
     status_describes (managed_boost ns n m) st \<and>
     [c \<leftarrow> stConditions st. scType c \<noteq> ''Active''] = [c \<leftarrow> stConditions (scbStatus obj). scType c \<noteq> ''Active''] \<and>
     (\<forall>rt'. Reconcile C setCond rt' ns n m' = (\<lparr>Requeue = False\<rparr>, None, m'))"
proof -
  let ?st = "newBoostStatus setCond (timeNow rt) (managed_boost ns n m) (scbStatus obj)"
  obtain res err m' where r: "Reconcile C setCond rt ns n m = (res, err, m')" by (metis prod_cases3)
  note w = Reconcile_writes [OF g r ok]
  have mb: "managed_boost ns n m' = managed_boost ns n m" using w(2) managed_boost_world by metis
  have "Reconcile C setCond rt' ns n m' = (\<lparr>Requeue = False\<rparr>, None, m')" for rt'
    by (rule Reconcile_settled [OF w(1)]) (simp add: mb newBoostStatus_stable)
  with r w(1,3,4) show ?thesis
    by (intro exI [of _ ?st] exI [of _ m'] conjI)
       (auto simp: newBoostStatus_describes newBoostStatus_others)
qed

end

interpretation memr: status_writer mem_boosts set_condition
  by unfold_locales

section \<open>Events of boosts and pods\<close>

text \<open>The boost object was turned into the boost.\<close>

definition built_from :: "'q startup_cpu_boost \<Rightarrow> selector \<Rightarrow> (string, 'q container_policy) alist \<Rightarrow> bool \<Rightarrow> 'q boost \<Rightarrow> bool" where
  "built_from obj sel rp legacy b \<longleftrightarrow> boostName b = scbName obj \<and> boostNamespace b = scbNamespace obj \<and>
     boostSelector b = sel \<and> resourcePolicies b = rp \<and>
     durationPolicies b = mapDurationPolicy (bsDurationPolicy (scbSpec obj)) \<and> legacyRevertMode b = legacy"

context boost_client
begin

lemma mgrUpsertPod_same:
  assumes "mgrUpsertPod D rt p m = Some (b, e, m')"
  shows "same_identity (boostAt m r) (boostAt m' r) \<and> regularBoosts m' = regularBoosts m"
proof (cases rule: mgrUpsertPod_outcome [of rt m p])
  case (failed r' e m1)
  note f = ups.keeps [OF failed(2)]
  have "heap.more m1 = heap.more m" using f by (simp add: boost_frame_def)
  from failed(3) assms frame_identity [OF f, of r] more_fields(1) [OF this] show ?thesis by simp
next
  case (tracked r' m1)
  note f = ups.keeps [OF tracked(2)]
  have "heap.more m1 = heap.more m" using f by (simp add: boost_frame_def)
  from tracked(3) assms frame_identity [OF f, of r] more_fields(1) [OF this] show ?thesis
    by (auto simp: deleteOrphan_def)
qed (use assms in auto)

lemma recCreate_registers:
  fixes m :: "('q, 'w) manager"
  assumes sel: "dSel D (scbSelector obj) = Inr sel"
    and rp: "mapResourcePolicy (bsResourcePolicy (scbSpec obj)) = Inr rp"
  shows "\<exists>m'. recCreate D rt rec (BoostObj obj) m = Some (True, m') \<and>
    (case GetRegularCPUBoost (scbName obj) (scbNamespace obj) m of
       Some r \<Rightarrow> GetRegularCPUBoost (scbName obj) (scbNamespace obj) m' = Some r
     | None \<Rightarrow> \<exists>r. GetRegularCPUBoost (scbName obj) (scbNamespace obj) m' = Some r \<and>
         built_from obj sel rp (LegacyRevertMode rec) (boostAt m' r))"
proof -
  obtain m1 where n: "NewStartupCPUBoost (dSel D) obj (LegacyRevertMode rec) m = (Inr (nextBoost m), m1)"
    and b: "built_from obj sel rp (LegacyRevertMode rec) (boostAt m1 (nextBoost m))"
    and lt: "nextBoost m < nextBoost m1" and reg: "regularBoosts m1 = regularBoosts m"
    by (simp add: NewStartupCPUBoost_def sel rp Let_def built_from_def)
  from lt show ?thesis
  proof (cases rule: AddRegularCPUBoost_outcome [of "nextBoost m" m1 rt])
    case (taken r')
    with b show ?thesis by (simp add: recCreate_def n GetRegularCPUBoost_def built_from_def reg)
  next
    case (added m')
    from added(5) [of "nextBoost m"] b have "built_from obj sel rp (LegacyRevertMode rec) (boostAt m' (nextBoost m))"
      by (simp add: built_from_def same_identity_fields)
    with added b show ?thesis by (simp add: recCreate_def n GetRegularCPUBoost_def built_from_def reg)
  qed
qed

lemma recUpdate_returns: "\<exists>m'. recUpdate D rt obj m = Some (True, m')"
proof (cases obj)
  case (BoostObj b)
  show ?thesis by (cases rule: UpdateRegularCPUBoost_outcome [of b m rt]) (simp_all add: recUpdate_def BoostObj)
qed (simp_all add: recUpdate_def)

lemma podCreate_returns:
  "\<exists>reqs m'. podCreate D rt obj m = Some (reqs, m')"
proof (cases obj)
  case (PodObj p)
  show ?thesis by (cases rule: mgrUpsertPod_outcome [of rt m p]) (simp_all add: podCreate_def PodObj)
qed (simp_all add: podCreate_def)

lemma podUpdate_eq:
  "podUpdate D rt old new m = (case (new, old) of
      (PodObj p, PodObj p0) \<Rightarrow> if podConditions (podAt m p) = podConditions (podAt m p0) then Some ([], m)
         else podCreate D rt new m
    | _ \<Rightarrow> Some ([], m))"
  by (simp add: podUpdate_def podCreate_def split: event_object.split)

end

lemma recCreate_panics:
  assumes "dSel D (scbSelector obj) = Inl e \<or> mapResourcePolicy (bsResourcePolicy (scbSpec obj)) = Inl e"
  shows "recCreate D rt rec (BoostObj obj) m = None"
  using assms by (auto simp: recCreate_def NewStartupCPUBoost_def AddRegularCPUBoost_def split: sum.split)

section \<open>Runs of the controller\<close>

text \<open>
  The events that reach the controller, in any order: events of boost objects, events of pods, whose
  objects the informer allocates, reconciliations, and changes of the cluster by others.
\<close>

inductive ctrl_step ::
  "('q, 'd, 'w) deps \<Rightarrow> ('q, 'w) boost_objects \<Rightarrow> set_status_condition \<Rightarrow> ('q, 'w) manager \<Rightarrow> ('q, 'w) manager \<Rightarrow> bool"
  for D C setCond where
  boost_created: "recCreate D rt rec obj m = Some (go, m') \<Longrightarrow> ctrl_step D C setCond m m'"
| boost_deleted: "recDelete obj m = (go, m') \<Longrightarrow> ctrl_step D C setCond m m'"
| boost_updated: "recUpdate D rt obj m = Some (go, m') \<Longrightarrow> ctrl_step D C setCond m m'"
| boost_generic: "recGeneric obj m = (go, m') \<Longrightarrow> ctrl_step D C setCond m m'"
| pods_informed: "ctrl_step D C setCond m (snd (allocPods pods m))"
| pod_created: "p < nextPod m \<Longrightarrow> podCreate D rt (PodObj p) m = Some (reqs, m') \<Longrightarrow> ctrl_step D C setCond m m'"
| pod_deleted: "podDelete D rt (PodObj p) m = (reqs, m') \<Longrightarrow> ctrl_step D C setCond m m'"
| pod_updated: "p < nextPod m \<Longrightarrow> podUpdate D rt old (PodObj p) m = Some (reqs, m') \<Longrightarrow> ctrl_step D C setCond m m'"
| pod_generic: "podGeneric obj m = (reqs, m') \<Longrightarrow> ctrl_step D C setCond m m'"
| reconciled: "Reconcile C setCond rt ns n m = (res, err, m') \<Longrightarrow> ctrl_step D C setCond m m'"
| cluster_changed: "ctrl_step D C setCond m (m\<lparr>apiState := w\<rparr>)"

lemma Reconcile_world: "Reconcile C setCond rt ns n m = (res, err, m') \<Longrightarrow> \<exists>w. m' = m\<lparr>apiState := w\<rparr>"
  by (cases m) (auto simp: Reconcile_def Let_def split: sum.splits prod.splits if_splits)

lemma recCreate_steps:
  assumes "recCreate D rt rec obj m = Some (go, m')"
  shows "m' = m \<or> (\<exists>m1. mgr_step D m m1 \<and> mgr_step D m1 m')"
proof (cases obj)
  case (BoostObj b)
  with assms obtain r m1 e where n: "NewStartupCPUBoost (dSel D) b (LegacyRevertMode rec) m = (Inr r, m1)"
    and a: "AddRegularCPUBoost D rt (Some r) m1 = Some (e, m')"
    by (auto simp: recCreate_def AddRegularCPUBoost_def split: prod.splits sum.splits bind_splits)
  from n have "r < nextBoost m1" by (auto simp: NewStartupCPUBoost_def Let_def split: sum.splits)
  with n a show ?thesis using mgr_step.new_boost mgr_step.add_boost by blast
qed (use assms in \<open>simp_all add: recCreate_def\<close>)

lemma podCreate_steps:
  assumes "p < nextPod m" and "podCreate D rt (PodObj p) m = Some (reqs, m')"
  shows "mgr_step D m m'"
  using assms by (auto simp: podCreate_def split: bind_splits intro: mgr_step.upsert_pod)

lemma ctrl_step_steps: "ctrl_step D C setCond m m' \<Longrightarrow> (mgr_step D)\<^sup>*\<^sup>* m m'"
proof (induction rule: ctrl_step.induct)
  case (boost_created rt rec obj m go m')
  then show ?case using recCreate_steps by (metis converse_rtranclp_into_rtranclp r_into_rtranclp rtranclp.rtrancl_refl)
next
  case (boost_deleted obj m go m')
  then show ?case
    by (cases obj) (auto simp: recDelete_def intro: r_into_rtranclp mgr_step.delete_boost)
next
  case (boost_updated rt obj m go m')
  then show ?case
    by (cases obj) (auto simp: recUpdate_def split: bind_splits intro: r_into_rtranclp mgr_step.update_boost)
next
  case (pod_deleted rt p m reqs m')
  then show ?case
    by (auto simp: podDelete_def split: prod.splits intro: r_into_rtranclp mgr_step.delete_pod)
next
  case (pod_updated p m rt old reqs m')
  then show ?case
    by (cases old) (auto simp: podUpdate_def split: if_splits bind_splits intro: r_into_rtranclp mgr_step.upsert_pod)
next
  case (reconciled rt ns n m res err m')
  then show ?case using Reconcile_world mgr_step.outside_world by (metis r_into_rtranclp)
qed (auto simp: recGeneric_def podGeneric_def
      intro: r_into_rtranclp mgr_step.new_pods mgr_step.outside_world podCreate_steps)

lemma ctrl_runs_reachable:
  "(ctrl_step D C setCond)\<^sup>*\<^sup>* m m' \<Longrightarrow> mgr_reachable D m \<Longrightarrow> mgr_reachable D m'"
proof (induction rule: rtranclp_induct)
  case (step m1 m2)
  have "(mgr_step D)\<^sup>*\<^sup>* m1 m2" using step.hyps(2) by (rule ctrl_step_steps)
  then show ?case using step.IH [OF step.prems]
    by (induction rule: rtranclp_induct) (auto intro: mgr_reachable.step)
qed

section \<open>What the controller guarantees\<close>

text \<open>A server without boosts, and the manager with the sample boost registered over a server that has its object.\<close>

definition no_boosts :: "('q, 'w) boost_objects" where
  "no_boosts = \<lparr>GetBoost = (\<lambda>_ _ _. Inl NotFound), UpdateBoostStatus = (\<lambda>_ w. (Some NotFound, w))\<rparr>"

definition sample_ctrl :: "(int, int startup_cpu_boost list) manager" where
  "sample_ctrl = (NewManager True (heap.make (\<lambda>_. sample_pod) 1 (\<lambda>_. sample_boost) 1 initMetrics [sample_scb]))\<lparr>
     regularBoosts := nsoPut ''boost'' ''prod'' 0 newNamespacedObjects\<rparr>"

lemma sample_ctrl_fields [simp]:
  "regularBoosts sample_ctrl = nsoPut ''boost'' ''prod'' 0 newNamespacedObjects"
  "boostAt sample_ctrl = (\<lambda>_. sample_boost)" "apiState sample_ctrl = [sample_scb]"
  by (simp_all add: sample_ctrl_def NewManager_def heap.defs manager.defs)

text \<open>
  C17. Whatever events reach the controller, in whatever order, the manager keeps its invariant, and
  every further update of a boost and every event of a pod is handled without a panic.
\<close>

theorem controller_runs:
  assumes "client_laws (dK D)" and "(ctrl_step D C setCond)\<^sup>*\<^sup>* (NewManager client h) m"
  shows "mgr_inv m \<and> (\<exists>m'. recUpdate D rt obj m = Some (True, m')) \<and>
     (\<exists>reqs m'. podCreate D rt obj m = Some (reqs, m')) \<and> (\<exists>reqs m'. podUpdate D rt old obj m = Some (reqs, m'))"
proof -
  have bc: "boost_client D" using assms(1) by (simp add: boost_client_def)
  have "mgr_inv m"
    using boost_client.mgr_reachable_mgr_inv [OF bc ctrl_runs_reachable [OF assms(2) mgr_reachable.start]] .
  moreover have "\<exists>reqs m'. podUpdate D rt old obj m = Some (reqs, m')"
    using boost_client.podCreate_returns [OF bc, of rt obj m]
    by (auto simp: boost_client.podUpdate_eq [OF bc] split: event_object.split)
  ultimately show ?thesis using boost_client.recUpdate_returns [OF bc] boost_client.podCreate_returns [OF bc] by blast
qed

theorem controller_runs_witness:
  "(ctrl_step sample_deps no_boosts set_condition)\<^sup>*\<^sup>* (NewManager True sample_heap)
     (DeleteRegularCPUBoost ''prod'' ''boost'' (NewManager True sample_heap)) \<and>
   mgr_inv (DeleteRegularCPUBoost ''prod'' ''boost'' (NewManager True sample_heap))"
proof -
  have "ctrl_step sample_deps no_boosts set_condition (NewManager True sample_heap)
      (DeleteRegularCPUBoost ''prod'' ''boost'' (NewManager True sample_heap))"
    by (rule boost_deleted [of "BoostObj sample_scb"]) (simp add: recDelete_def sample_scb_def)
  then have r: "(ctrl_step sample_deps no_boosts set_condition)\<^sup>*\<^sup>* (NewManager True sample_heap)
      (DeleteRegularCPUBoost ''prod'' ''boost'' (NewManager True sample_heap))" by blast
  with controller_runs [OF sample_client r] show ?thesis by blast
qed

text \<open>
  C26. The event of a new boost object. When the selector and the resource policies of the object are
  valid, a boost with the name, the selector and the policies of the object is registered, unless the
  name is taken, and then the boost that has it stays. When one of them is invalid, the handler panics:
  it registers the nil boost that the failed constructor gives.
\<close>

theorem boost_create_event:
  fixes m :: "('q, 'w) manager"
  assumes "client_laws (dK D)"
  shows "case (dSel D (scbSelector obj), mapResourcePolicy (bsResourcePolicy (scbSpec obj))) of
      (Inr sel, Inr rp) \<Rightarrow>
        (\<exists>m'. recCreate D rt rec (BoostObj obj) m = Some (True, m') \<and>
          (case GetRegularCPUBoost (scbName obj) (scbNamespace obj) m of
             Some r \<Rightarrow> GetRegularCPUBoost (scbName obj) (scbNamespace obj) m' = Some r
           | None \<Rightarrow> \<exists>r. GetRegularCPUBoost (scbName obj) (scbNamespace obj) m' = Some r \<and>
               built_from obj sel rp (LegacyRevertMode rec) (boostAt m' r)))
    | _ \<Rightarrow> recCreate D rt rec (BoostObj obj) m = None"
  using boost_client.recCreate_registers [OF boost_client.intro [OF assms], of obj _ _ rt rec m]
    recCreate_panics [of D obj _ rt rec m]
  by (auto split: sum.split)

theorem boost_create_event_witness:
  "\<exists>m'. recCreate sample_deps sample_rt \<lparr>LegacyRevertMode = False\<rparr> (BoostObj sample_scb) (NewManager True sample_heap) =
     Some (True, m') \<and> GetRegularCPUBoost ''boost'' ''prod'' m' \<noteq> None"
proof -
  have "dSel sample_deps (scbSelector sample_scb) = Inr (label_selector_matches (scbSelector sample_scb))"
    by (simp add: sample_deps_def sample_selector_def sample_scb_def)
  moreover have "\<exists>rp. mapResourcePolicy (bsResourcePolicy (scbSpec sample_scb)) = Inr rp"
    by (simp add: sample_scb_def sample_spec_def mapResourcePolicy_def policyOfSpec_def errors_Join_def)
  moreover have "scbName sample_scb = ''boost''" "scbNamespace sample_scb = ''prod''" by (simp_all add: sample_scb_def)
  ultimately show ?thesis
    using boost_create_event [OF sample_client, where obj = sample_scb and rt = sample_rt
      and m = "NewManager True sample_heap" and rec = "\<lparr>LegacyRevertMode = False\<rparr>"]
    by (auto simp: GetRegularCPUBoost_def nsoGet_new)
qed



text \<open>
  A reconciliation reports an error only when the server gave it one, neither a missing object nor
  a conflict; after a conflict it asks for another attempt; in all these cases the manager is unchanged
  but for the cluster.
\<close>

lemma reconcile_errors:
  "case Reconcile C setCond rt ns n m of (res, err, m') \<Rightarrow>
     (\<exists>w. m' = m\<lparr>apiState := w\<rparr>) \<and>
     (case err of
        Some e \<Rightarrow> \<not> Requeue res \<and> e \<noteq> NotFound \<and>
          (GetBoost C ns n (apiState m) = Inl e \<or>
           (\<exists>obj w. UpdateBoostStatus C obj (apiState m) = (Some e, w) \<and> e \<noteq> Conflict))
      | None \<Rightarrow> if Requeue res then \<exists>obj w. UpdateBoostStatus C obj (apiState m) = (Some Conflict, w) else True)"
proof -
  obtain res err m' where r: "Reconcile C setCond rt ns n m = (res, err, m')" by (metis prod_cases3)
  have "case err of
        Some e \<Rightarrow> \<not> Requeue res \<and> e \<noteq> NotFound \<and>
          (GetBoost C ns n (apiState m) = Inl e \<or>
           (\<exists>obj w. UpdateBoostStatus C obj (apiState m) = (Some e, w) \<and> e \<noteq> Conflict))
      | None \<Rightarrow> if Requeue res then \<exists>obj w. UpdateBoostStatus C obj (apiState m) = (Some Conflict, w) else True"
    using r by (auto simp: Reconcile_def Let_def IgnoreNotFound_def IsNotFound_def IsConflict_def
        split: sum.splits prod.splits if_splits) blast
  with Reconcile_world [OF r] show ?thesis by (simp add: r)
qed



text \<open>
  The update of a pod that leaves its conditions as they were is skipped. The skipped object would not
  have ended a boost that the old one did not end, since the condition policies look at nothing but the
  conditions. What the skip does lose is a change of the labels.
\<close>

lemma skipped_pod_update:
  assumes "podConditions (podAt m p) = podConditions (podAt m old)"
  shows "podUpdate D rt (PodObj old) (PodObj p) m = Some ([], m)"
    and "ends_boost rt b (podAt m p) = ends_boost rt b (podAt m old)"
  using assms pol.conditions_only [OF assms]
  by (simp_all add: podUpdate_def ends_boost_def validatePolicyOnPod_def)

end
