(* ===== verification/Revert_Pipeline.thy ===== *)
theory Revert_Pipeline
  imports Boost_Controller
begin

text \<open>
  The time based check loop of \<^verbatim>\<open>internal/boost/manager.go\<close>: \<^verbatim>\<open>Start\<close> and \<^verbatim>\<open>validateTimePolicyBoosts\<close>. One
  goroutine examines the timed boosts and sends a task for every pod whose fixed duration is over,
  \<^verbatim>\<open>maxGoroutines\<close> workers revert the pods and send a request or an error, one goroutine waits for the
  workers and closes the two channels, one logs the errors, and the caller collects the requests. The
  channels are bounded; a send waits for room, a receive for an element or for the close. A state of
  these goroutines is a \<open>pipeline\<close> and the step relation interleaves them in any order.
\<close>

section \<open>The goroutines\<close>

text \<open>\<^verbatim>\<open>podRevertTask\<close>: the boost and the pod.\<close>

type_synonym pod_revert_task = "ref \<times> ref"

text \<open>
  Where a worker stands: at its receive, in \<^verbatim>\<open>RevertResources\<close>, at a send on the channel of errors or of
  requests, or returned.
\<close>

datatype worker = Receiving | Reverting pod_revert_task | SendingError go_error | SendingRequest request | Returned

text \<open>
  \<open>found\<close> and \<open>results\<close> record what happened: the tasks that the first goroutine came upon, and the
  outcome of each call of \<^verbatim>\<open>RevertResources\<close>.
\<close>

record ('q, 'w) pipeline =
  boostsLeft :: "ref list"
  podsLeft :: "pod_revert_task list"
  revertTasks :: "pod_revert_task list"
  revertTasksClosed :: bool
  workers :: "worker list"
  reconcileTasks :: "request list"
  reconcileTasksClosed :: bool
  errorsChan :: "go_error list"
  errorsClosed :: bool
  received :: "request list"
  logged :: "go_error list"
  pipeMgr :: "('q, 'w) manager"
  tasksFound :: "pod_revert_task list"
  taskResults :: "(pod_revert_task \<times> (go_error + request)) list"

definition startPipeline :: "ref list \<Rightarrow> ('q, 'w) manager \<Rightarrow> ('q, 'w) pipeline" where
  "startPipeline timeBoosts m =
     \<lparr>boostsLeft = timeBoosts, podsLeft = [], revertTasks = [], revertTasksClosed = False,
      workers = replicate (maxGoroutines m) Receiving,
      reconcileTasks = [], reconcileTasksClosed = False, errorsChan = [], errorsClosed = False,
      received = [], logged = [], pipeMgr = m, tasksFound = [], taskResults = []\<rparr>"

text \<open>The channels have room for \<open>n\<close> elements, the \<^verbatim>\<open>maxGoroutines\<close> of the manager.\<close>

inductive pipe_step :: "('q, 'd, 'w) deps \<Rightarrow> nat \<Rightarrow> ('q, 'w) pipeline \<Rightarrow> ('q, 'w) pipeline \<Rightarrow> bool"
  for D :: "('q, 'd, 'w) deps" and n :: nat where
  examine: "boostsLeft s = b # bs \<Longrightarrow> podsLeft s = [] \<Longrightarrow>
    ts = map (Pair b) (ValidatePolicy rt b FixedDurationPolicyName (pipeMgr s)) \<Longrightarrow>
    pipe_step D n s (s\<lparr>boostsLeft := bs, podsLeft := ts, tasksFound := tasksFound s @ ts\<rparr>)"
| send_task: "podsLeft s = t # ts \<Longrightarrow> length (revertTasks s) < n \<Longrightarrow>
    pipe_step D n s (s\<lparr>podsLeft := ts, revertTasks := revertTasks s @ [t]\<rparr>)"
| close_tasks: "boostsLeft s = [] \<Longrightarrow> podsLeft s = [] \<Longrightarrow> \<not> revertTasksClosed s \<Longrightarrow>
    pipe_step D n s (s\<lparr>revertTasksClosed := True\<rparr>)"
| receive_task: "i < length (workers s) \<Longrightarrow> workers s ! i = Receiving \<Longrightarrow> revertTasks s = t # ts \<Longrightarrow>
    pipe_step D n s (s\<lparr>revertTasks := ts, workers := (workers s)[i := Reverting t]\<rparr>)"
| revert_failed: "i < length (workers s) \<Longrightarrow> workers s ! i = Reverting (b, p) \<Longrightarrow>
    RevertResources D rt b p (pipeMgr s) = Some (Some e, m') \<Longrightarrow>
    pipe_step D n s (s\<lparr>pipeMgr := m', workers := (workers s)[i := SendingError (Errorf ''pod'' [e])],
      taskResults := taskResults s @ [((b, p), Inl (Errorf ''pod'' [e]))]\<rparr>)"
| reverted: "i < length (workers s) \<Longrightarrow> workers s ! i = Reverting (b, p) \<Longrightarrow>
    RevertResources D rt b p (pipeMgr s) = Some (None, m') \<Longrightarrow>
    r = (boostNamespace (boostAt m' b), boostName (boostAt m' b)) \<Longrightarrow>
    pipe_step D n s (s\<lparr>pipeMgr := m', workers := (workers s)[i := SendingRequest r],
      taskResults := taskResults s @ [((b, p), Inr r)]\<rparr>)"
| send_error: "i < length (workers s) \<Longrightarrow> workers s ! i = SendingError e \<Longrightarrow> length (errorsChan s) < n \<Longrightarrow>
    pipe_step D n s (s\<lparr>errorsChan := errorsChan s @ [e], workers := (workers s)[i := Receiving]\<rparr>)"
| send_request: "i < length (workers s) \<Longrightarrow> workers s ! i = SendingRequest r \<Longrightarrow> length (reconcileTasks s) < n \<Longrightarrow>
    pipe_step D n s (s\<lparr>reconcileTasks := reconcileTasks s @ [r], workers := (workers s)[i := Receiving]\<rparr>)"
| worker_returns: "i < length (workers s) \<Longrightarrow> workers s ! i = Receiving \<Longrightarrow> revertTasks s = [] \<Longrightarrow> revertTasksClosed s \<Longrightarrow>
    pipe_step D n s (s\<lparr>workers := (workers s)[i := Returned]\<rparr>)"
| close_requests: "\<forall>x \<in> set (workers s). x = Returned \<Longrightarrow> \<not> reconcileTasksClosed s \<Longrightarrow>
    pipe_step D n s (s\<lparr>reconcileTasksClosed := True\<rparr>)"
| close_errors: "reconcileTasksClosed s \<Longrightarrow> \<not> errorsClosed s \<Longrightarrow>
    pipe_step D n s (s\<lparr>errorsClosed := True\<rparr>)"
| log_error: "errorsChan s = e # es \<Longrightarrow>
    pipe_step D n s (s\<lparr>errorsChan := es, logged := logged s @ [e]\<rparr>)"
| collect: "reconcileTasks s = r # rs \<Longrightarrow>
    pipe_step D n s (s\<lparr>reconcileTasks := rs, received := received s @ [r]\<rparr>)"

text \<open>The caller has all requests; and all goroutines have returned.\<close>

definition collected :: "('q, 'w) pipeline \<Rightarrow> bool" where
  "collected s \<longleftrightarrow> reconcileTasksClosed s \<and> reconcileTasks s = []"

definition finished :: "('q, 'w) pipeline \<Rightarrow> bool" where
  "finished s \<longleftrightarrow> collected s \<and> errorsClosed s \<and> errorsChan s = []"

text \<open>While the goroutines run, the controller may handle events.\<close>

inductive pipe_sys ::
  "('q, 'd, 'w) deps \<Rightarrow> ('q, 'w) boost_objects \<Rightarrow> set_status_condition \<Rightarrow> nat \<Rightarrow>
   ('q, 'w) pipeline \<Rightarrow> ('q, 'w) pipeline \<Rightarrow> bool"
  for D C setCond n where
  pipe: "pipe_step D n s s' \<Longrightarrow> pipe_sys D C setCond n s s'"
| interfere: "ctrl_step D C setCond (pipeMgr s) m' \<Longrightarrow> pipe_sys D C setCond n s (s\<lparr>pipeMgr := m'\<rparr>)"

section \<open>The check and the loop\<close>

text \<open>
  \<^verbatim>\<open>dedupeReconcileRequests\<close> puts the requests into a map and ranges over it: the result has every
  request once, in an order \<open>ordR\<close> that the runtime chooses.
\<close>

definition dedupeReconcileRequests :: "(request list \<Rightarrow> request list) \<Rightarrow> request list \<Rightarrow> request list" where
  "dedupeReconcileRequests ordR tasks = ordR (foldl (\<lambda>rs r. List.insert r rs) [] tasks)"

fun reconcileAll ::
  "('q, 'w) boost_objects \<Rightarrow> set_status_condition \<Rightarrow> go_runtime \<Rightarrow> request list \<Rightarrow> ('q, 'w) manager \<Rightarrow> ('q, 'w) manager" where
  "reconcileAll C setCond rt [] m = m"
| "reconcileAll C setCond rt ((ns, name) # reqs) m =
     reconcileAll C setCond rt reqs (snd (snd (Reconcile C setCond rt ns name m)))"

inductive validateTimePolicyBoosts ::
  "('q, 'd, 'w) deps \<Rightarrow> ('q, 'w) boost_objects \<Rightarrow> set_status_condition \<Rightarrow> ('q, 'w) manager \<Rightarrow> ('q, 'w) manager \<Rightarrow> bool"
  for D C setCond where
  "timeBoosts = nsoListAll (rangeOrder rt) (timedBoosts m) \<Longrightarrow>
   (pipe_sys D C setCond (maxGoroutines m))\<^sup>*\<^sup>* (startPipeline timeBoosts m) s \<Longrightarrow> collected s \<Longrightarrow>
   (\<And>rs. mset (ordR rs) = mset rs) \<Longrightarrow> reqs = dedupeReconcileRequests ordR (received s) \<Longrightarrow>
   m' = (if hasReconciler (pipeMgr s) then reconcileAll C setCond rt reqs (pipeMgr s) else pipeMgr s) \<Longrightarrow>
   validateTimePolicyBoosts D C setCond m m'"

text \<open>\<^verbatim>\<open>Start\<close>: a check at every tick until the context is done; the deferred call stops it.\<close>

inductive startLoop ::
  "('q, 'd, 'w) deps \<Rightarrow> ('q, 'w) boost_objects \<Rightarrow> set_status_condition \<Rightarrow> ('q, 'w) manager \<Rightarrow> ('q, 'w) manager \<Rightarrow> bool"
  for D C setCond where
  stop: "startLoop D C setCond m m"
| tick: "validateTimePolicyBoosts D C setCond m m1 \<Longrightarrow> startLoop D C setCond m1 m2 \<Longrightarrow> startLoop D C setCond m m2"
| between: "ctrl_step D C setCond m m1 \<Longrightarrow> startLoop D C setCond m1 m2 \<Longrightarrow> startLoop D C setCond m m2"

inductive Start ::
  "('q, 'd, 'w) deps \<Rightarrow> ('q, 'w) boost_objects \<Rightarrow> set_status_condition \<Rightarrow> ('q, 'w) manager \<Rightarrow> ('q, 'w) manager \<Rightarrow> bool"
  for D C setCond where
  "startLoop D C setCond (setRunning True m) m1 \<Longrightarrow> Start D C setCond m (setRunning False m1)"

section \<open>No deadlock\<close>

text \<open>What the channels and the workers keep, whoever moves.\<close>

definition pipe_inv :: "nat \<Rightarrow> ('q, 'w) pipeline \<Rightarrow> bool" where
  "pipe_inv n s \<longleftrightarrow> length (workers s) = n \<and>
     (revertTasksClosed s \<longrightarrow> boostsLeft s = [] \<and> podsLeft s = []) \<and>
     (Returned \<in> set (workers s) \<longrightarrow> revertTasksClosed s \<and> revertTasks s = []) \<and>
     (reconcileTasksClosed s \<longrightarrow> (\<forall>x \<in> set (workers s). x = Returned)) \<and>
     (errorsClosed s \<longrightarrow> reconcileTasksClosed s)"

lemma set_update_other: "x \<in> set (xs[i := y]) \<Longrightarrow> x = y \<or> x \<in> set xs"
  using set_update_subset_insert by fastforce

lemma all_returned_update:
  "\<forall>x \<in> set xs. x = Returned \<Longrightarrow> i < length xs \<Longrightarrow> xs ! i = Returned"
  by simp

lemma pipe_inv_start: "pipe_inv (maxGoroutines m) (startPipeline bs m)"
  by (auto simp: pipe_inv_def startPipeline_def)

lemma pipe_inv_step: "pipe_step D n s s' \<Longrightarrow> pipe_inv n s \<Longrightarrow> pipe_inv n s'"
proof (induction rule: pipe_step.induct)
  case (worker_returns i s)
  then show ?case by (auto simp: pipe_inv_def dest: set_update_other)
qed (auto simp: pipe_inv_def dest: set_update_other all_returned_update)

lemma pipe_inv_sys: "pipe_sys D C setCond n s s' \<Longrightarrow> pipe_inv n s \<Longrightarrow> pipe_inv n s'"
  by (induction rule: pipe_sys.induct) (auto simp: pipe_inv_step, simp add: pipe_inv_def)

lemma pipe_inv_run:
  "(pipe_sys D C setCond n)\<^sup>*\<^sup>* (startPipeline bs m) s \<Longrightarrow> n = maxGoroutines m \<Longrightarrow> pipe_inv n s"
  by (induction rule: rtranclp_induct) (auto intro: pipe_inv_start pipe_inv_sys)

lemma RevertResources_returns:
  assumes "client_laws (dK D)"
  shows "\<exists>e m'. RevertResources D rt b p m = Some (e, m')"
  unfolding RevertResources_def using assms
  by (cases rule: revertResources_outcome [of D rt b p m]) simp_all

lemma worker_moves:
  assumes "client_laws (dK D)" and "0 < n" and chans: "reconcileTasks s = []" "errorsChan s = []"
    and i: "i < length (workers s)" "workers s ! i \<noteq> Returned" and "pipe_inv n s"
  shows "\<exists>s'. pipe_step D n s s'"
proof (cases "workers s ! i")
  case Receiving
  show ?thesis
  proof (cases "revertTasks s")
    case Nil
    show ?thesis
    proof (cases "revertTasksClosed s")
      case False
      show ?thesis
      proof (cases "podsLeft s")
        case pods: Nil
        show ?thesis
          by (cases "boostsLeft s") (use pods False in \<open>blast intro: pipe_step.close_tasks pipe_step.examine\<close>)+
      next
        case (Cons t ts)
        with Nil assms(2) pipe_step.send_task [of s t ts n D] show ?thesis by auto
      qed
    qed (use Nil Receiving i in \<open>blast intro: pipe_step.worker_returns\<close>)
  qed (use Receiving i in \<open>blast intro: pipe_step.receive_task\<close>)
next
  case (Reverting t)
  obtain b p where t: "t = (b, p)" by fastforce
  obtain e m' where "RevertResources D sample_rt b p (pipeMgr s) = Some (e, m')"
    using RevertResources_returns [OF assms(1)] by blast
  with Reverting i t show ?thesis
    by (cases e) (blast intro: pipe_step.revert_failed pipe_step.reverted)+
next
  case (SendingError e)
  with i assms(2) chans pipe_step.send_error [of i s e n D] show ?thesis by auto
next
  case (SendingRequest r)
  with i assms(2) chans pipe_step.send_request [of i s r n D] show ?thesis by auto
qed (use i in simp)

lemma pipe_progress:
  assumes "client_laws (dK D)" and "0 < n" and "pipe_inv n s" and "\<not> finished s"
  shows "\<exists>s'. pipe_step D n s s'"
proof (cases "reconcileTasks s = [] \<and> errorsChan s = []")
  case True
  show ?thesis
  proof (cases "\<exists>i < length (workers s). workers s ! i \<noteq> Returned")
    case True
    with worker_moves [OF assms(1,2) _ _ _ _ assms(3)] \<open>reconcileTasks s = [] \<and> _\<close> show ?thesis by blast
  next
    case False
    then have "\<forall>x \<in> set (workers s). x = Returned" by (metis in_set_conv_nth)
    with assms(4) True pipe_step.close_requests [of s D n] pipe_step.close_errors [of s D n] show ?thesis
      by (cases "reconcileTasksClosed s") (auto simp: finished_def collected_def)
  qed
next
  case False
  then consider r rs where "reconcileTasks s = r # rs" | e es where "errorsChan s = e # es"
    by (cases "reconcileTasks s"; cases "errorsChan s") auto
  then show ?thesis by cases (blast intro: pipe_step.collect pipe_step.log_error)+
qed

section \<open>Termination\<close>

text \<open>
  Every step of the goroutines makes this pair smaller: a task has less far to go with every step, and
  only the examination of a boost, of which there are finitely many, makes new tasks.
\<close>

fun worker_weight :: "worker \<Rightarrow> nat" where
  "worker_weight Receiving = 1"
| "worker_weight (Reverting t) = 5"
| "worker_weight (SendingError e) = 4"
| "worker_weight (SendingRequest r) = 4"
| "worker_weight Returned = 0"

definition pipe_weight :: "('q, 'w) pipeline \<Rightarrow> nat" where
  "pipe_weight s = 6 * length (podsLeft s) + 5 * length (revertTasks s) + sum_list (map worker_weight (workers s)) +
     length (reconcileTasks s) + length (errorsChan s) + of_bool (\<not> revertTasksClosed s) +
     of_bool (\<not> reconcileTasksClosed s) + of_bool (\<not> errorsClosed s)"

lemma sum_list_update_nat:
  fixes xs :: "nat list"
  shows "i < length xs \<Longrightarrow> sum_list (xs[i := x]) + xs ! i = sum_list xs + x"
  by (induction xs arbitrary: i) (auto split: nat.split)

lemma worker_weight_update:
  assumes "i < length ws" and "ws ! i = v"
  shows "sum_list (map worker_weight (ws[i := w])) + worker_weight v = sum_list (map worker_weight ws) + worker_weight w"
  using sum_list_update_nat [of i "map worker_weight ws" "worker_weight w"] assms by (simp add: map_update)

lemma pipe_step_weight:
  "pipe_step D n s s' \<Longrightarrow>
   length (boostsLeft s') < length (boostsLeft s) \<or>
   length (boostsLeft s') = length (boostsLeft s) \<and> pipe_weight s' < pipe_weight s"
proof (induction rule: pipe_step.induct)
  case (receive_task i s t ts)
  with worker_weight_update [OF receive_task(1,2), of "Reverting t"] show ?case by (simp add: pipe_weight_def)
next
  case (revert_failed i s b p rt e m')
  with worker_weight_update [OF revert_failed(1,2), of "SendingError (Errorf ''pod'' [e])"] show ?case by (simp add: pipe_weight_def)
next
  case (reverted i s b p rt m' r)
  with worker_weight_update [OF reverted(1,2), of "SendingRequest r"] show ?case by (simp add: pipe_weight_def)
next
  case (send_error i s e)
  with worker_weight_update [OF send_error(1,2), of Receiving] show ?case by (simp add: pipe_weight_def)
next
  case (send_request i s r)
  with worker_weight_update [OF send_request(1,2), of Receiving] show ?case by (simp add: pipe_weight_def)
next
  case (worker_returns i s)
  with worker_weight_update [OF worker_returns(1,2), of Returned] show ?case by (simp add: pipe_weight_def)
qed (simp_all add: pipe_weight_def)

lemma pipe_terminates: "wfp ((pipe_step D n)\<inverse>\<inverse>)"
proof -
  let ?R = "inv_image (less_than <*lex*> less_than) (\<lambda>s. (length (boostsLeft s), pipe_weight s))"
  have "wf ?R" by (intro wf_inv_image wf_lex_prod wf_less_than)
  moreover have "{(s', s). pipe_step D n s s'} \<subseteq> ?R" using pipe_step_weight by (auto simp: inv_image_def)
  ultimately have "wf {(s', s). pipe_step D n s s'}" by (rule wf_subset)
  then show ?thesis by (simp add: wfp_def conversep_iff)
qed

lemma pipe_finishes:
  assumes K: "client_laws (dK D)" and "0 < n"
  shows "pipe_inv n s \<Longrightarrow> \<exists>s'. (pipe_step D n)\<^sup>*\<^sup>* s s' \<and> finished s'"
proof (induction s rule: wfp_induct_rule [OF pipe_terminates [of D n]])
  case (1 s)
  show ?case
  proof (cases "finished s")
    case False
    then obtain s1 where s1: "pipe_step D n s s1" using pipe_progress [OF K assms(2) 1(2)] by blast
    then obtain s' where "(pipe_step D n)\<^sup>*\<^sup>* s1 s'" "finished s'"
      using 1(1) [of s1] pipe_inv_step [OF s1 1(2)] by blast
    with s1 show ?thesis by (meson converse_rtranclp_into_rtranclp)
  qed blast
qed

section \<open>Every task is done once\<close>

definition in_progress :: "worker \<Rightarrow> pod_revert_task multiset" where
  "in_progress x = (case x of Reverting t \<Rightarrow> {#t#} | _ \<Rightarrow> {#})"

definition error_out :: "worker \<Rightarrow> go_error multiset" where
  "error_out x = (case x of SendingError e \<Rightarrow> {#e#} | _ \<Rightarrow> {#})"

definition request_out :: "worker \<Rightarrow> request multiset" where
  "request_out x = (case x of SendingRequest r \<Rightarrow> {#r#} | _ \<Rightarrow> {#})"

definition failures :: "('q, 'w) pipeline \<Rightarrow> go_error multiset" where
  "failures s = mset (List.map_filter (\<lambda>(t, res). case res of Inl e \<Rightarrow> Some e | Inr _ \<Rightarrow> None) (taskResults s))"

definition successes :: "('q, 'w) pipeline \<Rightarrow> request multiset" where
  "successes s = mset (List.map_filter (\<lambda>(t, res). case res of Inl _ \<Rightarrow> None | Inr r \<Rightarrow> Some r) (taskResults s))"

text \<open>Nothing is lost or doubled between the goroutines.\<close>

definition pipe_balance :: "('q, 'w) pipeline \<Rightarrow> bool" where
  "pipe_balance s \<longleftrightarrow>
     mset (tasksFound s) = mset (podsLeft s) + mset (revertTasks s) + sum_list (map in_progress (workers s)) +
       mset (map fst (taskResults s)) \<and>
     successes s = mset (received s) + mset (reconcileTasks s) + sum_list (map request_out (workers s)) \<and>
     failures s = mset (logged s) + mset (errorsChan s) + sum_list (map error_out (workers s))"

lemma sum_list_update_mset:
  fixes f :: "worker \<Rightarrow> 'a multiset"
  shows "i < length ws \<Longrightarrow> ws ! i = v \<Longrightarrow> sum_list (map f (ws[i := w])) + f v = sum_list (map f ws) + f w"
proof (induction ws arbitrary: i)
  case (Cons x ws)
  then show ?case by (cases i) (auto simp: union_assoc union_commute union_lcomm)
qed simp

lemmas out_defs = in_progress_def error_out_def request_out_def

lemma worker_update_sums:
  assumes "i < length ws" and "ws ! i = v"
  shows "sum_list (map in_progress (ws[i := w])) + in_progress v = sum_list (map in_progress ws) + in_progress w"
    "sum_list (map error_out (ws[i := w])) + error_out v = sum_list (map error_out ws) + error_out w"
    "sum_list (map request_out (ws[i := w])) + request_out v = sum_list (map request_out ws) + request_out w"
  by (rule sum_list_update_mset [OF assms])+

lemma map_filter_snoc: "List.map_filter f (xs @ [x]) = List.map_filter f xs @ (case f x of None \<Rightarrow> [] | Some y \<Rightarrow> [y])"
  by (induction xs) (auto simp: List.map_filter_simps split: option.split)

lemma pipe_balance_step: "pipe_step D n s s' \<Longrightarrow> pipe_balance s \<Longrightarrow> pipe_balance s'"
proof (induction rule: pipe_step.induct)
  case (receive_task i s t ts)
  with worker_update_sums [OF receive_task(1,2), of "Reverting t"] show ?case
    by (simp add: pipe_balance_def out_defs failures_def successes_def)
next
  case (revert_failed i s b p rt e m')
  with worker_update_sums [OF revert_failed(1,2), of "SendingError (Errorf ''pod'' [e])"] show ?case
    by (simp add: pipe_balance_def out_defs failures_def successes_def map_filter_snoc)
next
  case (reverted i s b p rt m' r)
  with worker_update_sums [OF reverted(1,2), of "SendingRequest r"] show ?case
    by (simp add: pipe_balance_def out_defs failures_def successes_def map_filter_snoc)
next
  case (send_error i s e)
  with worker_update_sums [OF send_error(1,2), of Receiving] show ?case
    by (simp add: pipe_balance_def out_defs failures_def successes_def)
next
  case (send_request i s r)
  with worker_update_sums [OF send_request(1,2), of Receiving] show ?case
    by (simp add: pipe_balance_def out_defs failures_def successes_def)
next
  case (worker_returns i s)
  with worker_update_sums [OF worker_returns(1,2), of Returned] show ?case
    by (simp add: pipe_balance_def out_defs failures_def successes_def)
qed (simp_all add: pipe_balance_def failures_def successes_def)

lemma sum_list_empty: "\<forall>x \<in> set xs. f x = {#} \<Longrightarrow> sum_list (map f xs) = {#}"
  by (induction xs) auto

lemma sum_list_replicate_empty [simp]: "sum_list (replicate k {#}) = {#}"
  by (induction k) simp_all

lemma pipe_balance_run:
  "(pipe_sys D C setCond n)\<^sup>*\<^sup>* (startPipeline bs m) s \<Longrightarrow> pipe_balance s"
proof (induction rule: rtranclp_induct)
  case base
  show ?case
    by (auto simp: pipe_balance_def startPipeline_def failures_def successes_def out_defs List.map_filter_simps sum_list_empty)
next
  case (step s s')
  from step(2) show ?case
  proof (cases rule: pipe_sys.cases)
    case pipe
    with step.IH show ?thesis by (simp add: pipe_balance_step)
  next
    case (interfere m')
    with step.IH show ?thesis by (simp add: pipe_balance_def failures_def successes_def)
  qed
qed

lemma set_map_filter: "set (List.map_filter f xs) = {y. \<exists>x \<in> set xs. f x = Some y}"
  by (induction xs) (auto simp: List.map_filter_simps split: option.split)

lemma successes_set: "set_mset (successes s) = {r. \<exists>t. (t, Inr r) \<in> set (taskResults s)}"
proof -
  have "(case x of (t, res) \<Rightarrow> case res of Inl _ \<Rightarrow> None | Inr r \<Rightarrow> Some r) = Some r \<longleftrightarrow> x = (fst x, Inr r)"
    for x :: "pod_revert_task \<times> (go_error + request)" and r
    by (cases x) (auto split: sum.split)
  then show ?thesis unfolding successes_def set_mset_mset set_map_filter by (metis (no_types, lifting) fst_conv)
qed

lemma foldl_List_insert: "set (foldl (\<lambda>rs r. List.insert r rs) acc xs) = set acc \<union> set xs \<and>
    (distinct acc \<longrightarrow> distinct (foldl (\<lambda>rs r. List.insert r rs) acc xs))"
  by (induction xs arbitrary: acc) auto

lemma dedupe_requests:
  assumes "\<And>rs. mset (ordR rs) = mset rs"
  shows "set (dedupeReconcileRequests ordR xs) = set xs" "distinct (dedupeReconcileRequests ordR xs)"
proof -
  let ?xs = "foldl (\<lambda>rs r. List.insert r rs) [] xs"
  have "mset (dedupeReconcileRequests ordR xs) = mset ?xs" by (simp add: dedupeReconcileRequests_def assms)
  then have "set (dedupeReconcileRequests ordR xs) = set ?xs \<and> distinct (dedupeReconcileRequests ordR xs) = distinct ?xs"
    by (metis mset_eq_setD mset_eq_imp_distinct_iff)
  with foldl_List_insert [of "[]" xs] show "set (dedupeReconcileRequests ordR xs) = set xs" "distinct (dedupeReconcileRequests ordR xs)"
    by simp_all
qed

section \<open>The manager during a check\<close>

lemma pipe_step_mgr: "pipe_step D n s s' \<Longrightarrow> pipeMgr s' = pipeMgr s \<or> mgr_step D (pipeMgr s) (pipeMgr s')"
  by (induction rule: pipe_step.induct) (auto intro: mgr_step.revert_pod)

lemma pipe_run_reachable:
  "(pipe_sys D C setCond n)\<^sup>*\<^sup>* s s' \<Longrightarrow> mgr_reachable D (pipeMgr s) \<Longrightarrow> mgr_reachable D (pipeMgr s')"
proof (induction rule: rtranclp_induct)
  case (step s1 s2)
  note r = step.IH [OF step.prems]
  from step(2) show ?case
  proof (cases rule: pipe_sys.cases)
    case pipe
    then show ?thesis using pipe_step_mgr r mgr_reachable.step by metis
  next
    case (interfere m')
    then show ?thesis using ctrl_runs_reachable [OF r_into_rtranclp, of D C setCond "pipeMgr s1" m'] r by simp
  qed
qed

lemma reconcileAll_reachable: "mgr_reachable D m \<Longrightarrow> mgr_reachable D (reconcileAll C setCond rt reqs m)"
proof (induction reqs arbitrary: m)
  case (Cons req reqs)
  obtain ns name where req: "req = (ns, name)" by fastforce
  obtain res err m' where r: "Reconcile C setCond rt ns name m = (res, err, m')" by (metis prod_cases3)
  have "mgr_reachable D m'" using ctrl_runs_reachable [OF r_into_rtranclp] ctrl_step.reconciled [OF r] Cons.prems by blast
  with Cons.IH r req show ?case by simp
qed simp

lemma validate_reachable:
  assumes "validateTimePolicyBoosts D C setCond m m'" and "mgr_reachable D m"
  shows "mgr_reachable D m'"
  using assms
proof (induction rule: validateTimePolicyBoosts.induct)
  case (1 timeBoosts rt m s ordR reqs m')
  have "mgr_reachable D (pipeMgr s)" using pipe_run_reachable [OF 1(2)] 1(7) by (simp add: startPipeline_def)
  with 1(6) show ?case by (simp add: reconcileAll_reachable)
qed

lemma startLoop_reachable: "startLoop D C setCond m m' \<Longrightarrow> mgr_reachable D m \<Longrightarrow> mgr_reachable D m'"
  by (induction rule: startLoop.induct) (auto intro: validate_reachable ctrl_runs_reachable)

section \<open>What the check loop guarantees\<close>

lemma collected_balance:
  assumes "0 < maxGoroutines m" and "(pipe_sys D C setCond (maxGoroutines m))\<^sup>*\<^sup>* (startPipeline timeBoosts m) s"
    and "collected s"
  shows "boostsLeft s = [] \<and> mset (map fst (taskResults s)) = mset (tasksFound s) \<and>
    mset (received s) = successes s \<and> (finished s \<longrightarrow> mset (logged s) = failures s)"
proof -
  have inv: "pipe_inv (maxGoroutines m) s" by (rule pipe_inv_run [OF assms(2) refl])
  with assms(3) have w: "\<forall>x \<in> set (workers s). x = Returned" by (simp add: pipe_inv_def collected_def)
  moreover have "workers s \<noteq> []" using inv assms(1) by (auto simp: pipe_inv_def)
  ultimately have "Returned \<in> set (workers s)" by (cases "workers s") auto
  with inv have e: "boostsLeft s = []" "podsLeft s = []" "revertTasks s = []" by (simp_all add: pipe_inv_def)
  have o: "sum_list (map in_progress (workers s)) = {#}" "sum_list (map request_out (workers s)) = {#}"
    "sum_list (map error_out (workers s)) = {#}" using w by (auto intro!: sum_list_empty simp: out_defs)
  note b = pipe_balance_run [OF assms(2), unfolded pipe_balance_def o e]
  from b e assms(3) show ?thesis by (simp add: finished_def collected_def)
qed

text \<open>
  C7. Every expired pod is reverted exactly once per check: when the caller has collected the requests,
  every timed boost was examined, each task that the examination gave has exactly one outcome, whatever the
  interleaving and whatever events the controller handled meanwhile; and the boosts with a successful
  outcome, each once, are the requests that are reconciled. When all goroutines are done, the
  errors in the log are exactly the failures.
\<close>

theorem revert_exactly_once:
  assumes "0 < maxGoroutines m" and "(pipe_sys D C setCond (maxGoroutines m))\<^sup>*\<^sup>* (startPipeline timeBoosts m) s"
    and "collected s" and "\<And>rs. mset (ordR rs) = mset rs"
  shows "boostsLeft s = [] \<and> mset (map fst (taskResults s)) = mset (tasksFound s) \<and>
     set (dedupeReconcileRequests ordR (received s)) = {r. \<exists>t. (t, Inr r) \<in> set (taskResults s)} \<and>
     distinct (dedupeReconcileRequests ordR (received s)) \<and>
     (finished s \<longrightarrow> mset (logged s) = failures s)"
proof -
  note b = collected_balance [OF assms(1-3)]
  then have "set (received s) = {r. \<exists>t. (t, Inr r) \<in> set (taskResults s)}" by (metis set_mset_mset successes_set)
  with b dedupe_requests [of ordR "received s", OF assms(4)] show ?thesis by simp
qed

lemma pipe_sys_runs: "(pipe_step D n)\<^sup>*\<^sup>* s s' \<Longrightarrow> (pipe_sys D C setCond n)\<^sup>*\<^sup>* s s'"
  by (erule rtranclp_mono [THEN predicate2D, rotated]) (auto intro: pipe_sys.pipe)

lemma sample_maxGoroutines [simp]: "maxGoroutines sample_mgr = 10"
  by (simp add: sample_mgr_def NewManager_def heap.defs manager.defs)

lemma sample_run_exists:
  "\<exists>s. (pipe_sys sample_deps no_boosts set_condition 10)\<^sup>*\<^sup>* (startPipeline [0] sample_mgr) s \<and> finished s"
  using pipe_finishes [OF sample_client, of 10] pipe_inv_start [of sample_mgr "[0]"] pipe_sys_runs
  by (metis sample_maxGoroutines zero_less_numeral)

theorem revert_exactly_once_witness:
  "\<exists>s. (pipe_sys sample_deps no_boosts set_condition (maxGoroutines sample_mgr))\<^sup>*\<^sup>* (startPipeline [0] sample_mgr) s \<and>
     collected s \<and> boostsLeft s = [] \<and> mset (map fst (taskResults s)) = mset (tasksFound s)"
proof -
  obtain s where s: "(pipe_sys sample_deps no_boosts set_condition (maxGoroutines sample_mgr))\<^sup>*\<^sup>* (startPipeline [0] sample_mgr) s"
    "collected s" using sample_run_exists by (auto simp: finished_def)
  from revert_exactly_once [OF _ s, of "\<lambda>rs. rs"] s show ?thesis by auto
qed

section \<open>The goroutines as a sequence of reverts\<close>

text \<open>
  A sequential check: events and single reverts, one after the other, with the outcome of each revert. It has no
  channels and no workers. A revert is one step because \<^verbatim>\<open>RevertResources\<close> holds the lock of its boost to the end.
\<close>

inductive seq_check ::
  "('q, 'd, 'w) deps \<Rightarrow> ('q, 'w) boost_objects \<Rightarrow> set_status_condition \<Rightarrow> ('q, 'w) manager \<Rightarrow>
   ((ref \<times> ref) \<times> (go_error + request)) list \<Rightarrow> ('q, 'w) manager \<Rightarrow> bool"
  for D :: "('q, 'd, 'w) deps" and C setCond and m :: "('q, 'w) manager" where
  nothing_yet: "seq_check D C setCond m [] m"
| then_event: "seq_check D C setCond m rs m1 \<Longrightarrow> ctrl_step D C setCond m1 m2 \<Longrightarrow> seq_check D C setCond m rs m2"
| then_failed: "seq_check D C setCond m rs m1 \<Longrightarrow> RevertResources D rt b p m1 = Some (Some e, m2) \<Longrightarrow>
    seq_check D C setCond m (rs @ [((b, p), Inl (Errorf ''pod'' [e]))]) m2"
| then_reverted: "seq_check D C setCond m rs m1 \<Longrightarrow> RevertResources D rt b p m1 = Some (None, m2) \<Longrightarrow>
    seq_check D C setCond m (rs @ [((b, p), Inr (boostNamespace (boostAt m2 b), boostName (boostAt m2 b)))]) m2"

lemma seq_check_step:
  assumes "seq_check D C setCond m (taskResults s) (pipeMgr s)" and "pipe_sys D C setCond n s s'"
  shows "seq_check D C setCond m (taskResults s') (pipeMgr s')"
  using assms(2)
proof (cases rule: pipe_sys.cases)
  case pipe
  then show ?thesis
  proof (cases rule: pipe_step.cases)
    case (revert_failed i b p rt e m')
    then show ?thesis using then_failed [OF assms(1) revert_failed(4)] by simp
  next
    case (reverted i b p rt m' r)
    then show ?thesis using then_reverted [OF assms(1) reverted(4)] by simp
  qed (use assms(1) in simp_all)
next
  case (interfere m')
  then show ?thesis using then_event [OF assms(1)] by simp
qed



text \<open>
  C12. A check always comes to an end. The goroutines cannot run forever, in no reachable state that is
  not the end are they all blocked, and from every reachable state they can run to the end.
\<close>

theorem pipeline_terminates:
  assumes "client_laws (dK D)" and "0 < maxGoroutines m"
    and "(pipe_sys D C setCond (maxGoroutines m))\<^sup>*\<^sup>* (startPipeline timeBoosts m) s"
  shows "wfp ((pipe_step D (maxGoroutines m))\<inverse>\<inverse>) \<and>
     (finished s \<or> (\<exists>s'. pipe_step D (maxGoroutines m) s s')) \<and>
     (\<exists>s'. (pipe_step D (maxGoroutines m))\<^sup>*\<^sup>* s s' \<and> finished s')"
  using pipe_terminates pipe_progress [OF assms(1,2)] pipe_finishes [OF assms(1,2)] pipe_inv_run [OF assms(3) refl] by blast

theorem pipeline_terminates_witness:
  "\<exists>s'. (pipe_step sample_deps 10)\<^sup>*\<^sup>* (startPipeline [0] sample_mgr) s' \<and> finished s'"
  using pipeline_terminates [OF sample_client, of sample_mgr no_boosts set_condition "[0]" "startPipeline [0] sample_mgr"]
  by simp

text \<open>
  The manager keeps its invariant through the whole life of the check loop, with its checks
  and the events between and during them, and it does not count as running once \<^verbatim>\<open>Start\<close> has returned.
\<close>

lemma start_keeps_invariant:
  assumes "client_laws (dK D)" and "mgr_reachable D m" and "Start D C setCond m m'"
  shows "mgr_inv m' \<and> \<not> IsRunning m'"
  using assms(3,1,2)
proof (induction rule: Start.induct)
  case (1 m m1)
  have "mgr_reachable D (setRunning True m)" using 1(3) mgr_step.set_running by (rule mgr_reachable.step)
  then have "mgr_reachable D m1" by (rule startLoop_reachable [OF 1(1)])
  then have "mgr_reachable D (setRunning False m1)" using mgr_step.set_running by (rule mgr_reachable.step)
  with boost_client.mgr_reachable_mgr_inv [OF boost_client.intro [OF 1(2)]] show ?case
    by (simp add: IsRunning_def setRunning_def)
qed

end
