(* ===== verification/Pod_Lifecycle.thy ===== *)
theory Pod_Lifecycle
  imports Pod_Server Revert_Pipeline
begin

text \<open>
  The way of a pod through the components: the webhook boosts it, a boost tracks it, and the revert brings the
  original resources back to the API server, with the update of older clusters and with the two patches of
  newer ones.
\<close>

section \<open>Reverting on the server\<close>

text \<open>What a revert does to the boost, whatever it does to the pod.\<close>

lemma RevertResources_tracking:
  assumes "client_laws (dK D)" and "RevertResources D rt r p m = Some (e, m')"
  shows "boostPod (boostAt m' r) n = (if e = None \<and> n = podName (podAt m p) then None else boostPod (boostAt m r) n)"
    and "r' \<noteq> r \<Longrightarrow> boostPod (boostAt m' r') n = boostPod (boostAt m r') n"
proof -
  note r = assms(2) [unfolded RevertResources_def]
  from assms(1) have "boostPod (boostAt m' r) n = (if e = None \<and> n = podName (podAt m p) then None else boostPod (boostAt m r) n) \<and>
      (r' \<noteq> r \<longrightarrow> boostPod (boostAt m' r') n = boostPod (boostAt m r') n)"
  proof (cases rule: revertResources_outcome [of D rt r p m])
    case (failed e' h1)
    then show ?thesis using r pod_only_boosts(1) [OF failed(2)] by simp
  next
    case (reverted h1)
    then show ?thesis
      using r pod_only_boosts(1) [OF reverted(1)]
      by (auto simp: boostPod_def setBoost_def untrack_def lookup_delete)
  qed
  then show "boostPod (boostAt m' r) n = (if e = None \<and> n = podName (podAt m p) then None else boostPod (boostAt m r) n)"
    "r' \<noteq> r \<Longrightarrow> boostPod (boostAt m' r') n = boostPod (boostAt m r') n" by blast+
qed

lemma revertResources_world:
  assumes "RevertResources D rt r p m = Some (e, m')"
  obtains m1 where "(if legacyRevertMode (boostAt m r) then updateBoostPodLegacy D p m else updateBoostPod D p m) = Some (e, m1)"
    "apiState m' = apiState m1"
  using assms unfolding RevertResources_def revertResources_def
  by (auto simp: bind_eq_Some_conv Let_def setBoost_def split: option.splits if_splits)

lemma RevertResourceBoost_parts:
  assumes "RevertResourceBoost Q J p = Some (q, None)"
  obtains p1 where "revertBoostResources Q J p = Some (p1, None)" "revertBoostLabels p1 = Some (q, None)"
    "same_key p p1" "same_key p q"
proof -
  obtain p1 where p1: "revertBoostResources Q J p = Some (p1, None)" "revertBoostLabels p1 = Some (q, None)"
    using assms by (auto simp: RevertResourceBoost_def bind_eq_Some_conv split: option.splits)
  have "same_key p p1" using revertBoostResources_key [of Q J p] p1(1) by auto
  moreover have "same_key p q" using RevertResourceBoost_key [of Q J p] assms by auto
  ultimately show thesis by (rule that [OF p1])
qed

text \<open>
  Both ways of reverting: after a success the server holds the reverted pod, and every other pod is as it was
  in any case.
\<close>

lemma updateBoostPod_stores:
  assumes S: "pod_server (dK D) (dJ D) stored" and q: "RevertResourceBoost (dQ D) (dJ D) (podAt m p) = Some (q, None)"
    and s: "stored (apiState m) (podKey (podAt m p)) = Some (podAt m p)"
    and u: "updateBoostPod D p m = Some (e, m1)"
  shows "(e = None \<longrightarrow> stored (apiState m1) (podKey (podAt m p)) = Some q) \<and>
    (\<forall>k. k \<noteq> podKey (podAt m p) \<longrightarrow> stored (apiState m1) k = stored (apiState m) k)"
proof -
  let ?p = "podAt m p"
  note S0 = pod_server.axioms(1) [OF S]
  obtain p1 where p1: "revertBoostResources (dQ D) (dJ D) ?p = Some (p1, None)" "revertBoostLabels p1 = Some (q, None)"
    "same_key ?p p1" by (rule RevertResourceBoost_parts [OF q])
  obtain e1 x1 w1 where 1: "PatchPod (dK D) (Some ResizeSubResourceName)
      (revertBoostResourcesPatchData (dQ D) (dJ D)) ?p (apiState m) = Some (e1, x1, w1)"
    using u by (auto simp: updateBoostPod_def bind_eq_Some_conv)
  show ?thesis
  proof (cases e1)
    case (Some err)
    have "stored w1 = stored (apiState m)"
      using pod_store.patch_fails [OF S0 1 [unfolded Some]] pod_json.resources_data [OF pod_server.axioms(2) [OF S] p1(1)] by blast
    with u 1 Some show ?thesis by (auto simp: updateBoostPod_def)
  next
    case None
    have w1: "x1 = p1" "stored w1 = (stored (apiState m))(podKey ?p \<mapsto> p1)"
      using pod_server.resources_merged [OF S p1(1) s 1 [unfolded None]] merge_pod_self [OF revert_fields_resources(1) [OF p1(1)]]
      by simp_all
    obtain e2 x2 w2 where 2: "PatchPod (dK D) None (revertBoostLabelsPatchData (dJ D)) p1 w1 = Some (e2, x2, w2)"
      and m1: "e = e2" "apiState m1 = w2"
      using u 1 None w1(1) by (auto simp: updateBoostPod_def bind_eq_Some_conv)
    show ?thesis
    proof (cases e2)
      case (Some err)
      have "stored w2 = stored w1"
        using pod_store.patch_fails [OF S0 2 [unfolded Some]] pod_json.labels_data [OF pod_server.axioms(2) [OF S] p1(2)] by blast
      then show ?thesis using m1 Some w1(2) by simp
    next
      case None
      have "stored w1 (podKey p1) = Some p1" using w1(2) p1(3) by simp
      from pod_server.labels_patched [OF S p1(2) this 2 [unfolded None]] show ?thesis using m1 w1(2) p1(3) by simp
    qed
  qed
qed

lemma updateBoostPodLegacy_stores:
  assumes S: "pod_server (dK D) (dJ D) stored" and q: "RevertResourceBoost (dQ D) (dJ D) (podAt m p) = Some (q, None)"
    and u: "updateBoostPodLegacy D p m = Some (e, m1)"
  shows "(e = None \<longrightarrow> stored (apiState m1) (podKey (podAt m p)) = Some q) \<and>
    (\<forall>k. k \<noteq> podKey (podAt m p) \<longrightarrow> stored (apiState m1) k = stored (apiState m) k)"
proof -
  note K = pod_server.axioms(1) [OF S]
  have k: "same_key (podAt m p) q" by (rule RevertResourceBoost_parts [OF q])
  obtain e2 x2 w2 where 2: "UpdatePod (dK D) q (apiState m) = (e2, x2, w2)" and m1: "e = e2" "apiState m1 = w2"
    using u q by (auto simp: updateBoostPodLegacy_def setPod_def split: prod.splits)
  show ?thesis
  proof (cases e2)
    case None
    from pod_store.update_stores [OF K 2 [unfolded None]] show ?thesis using m1 k by simp
  next
    case (Some err)
    from pod_store.update_fails [OF K 2 [unfolded Some]] show ?thesis using m1 Some by simp
  qed
qed

lemma RevertResources_stores:
  assumes "pod_server (dK D) (dJ D) stored" and "RevertResourceBoost (dQ D) (dJ D) (podAt m p) = Some (q, None)"
    and "stored (apiState m) (podKey (podAt m p)) = Some (podAt m p)" and "RevertResources D rt r p m = Some (e, m')"
  shows "(e = None \<longrightarrow> stored (apiState m') (podKey (podAt m p)) = Some q) \<and>
    (\<forall>k. k \<noteq> podKey (podAt m p) \<longrightarrow> stored (apiState m') k = stored (apiState m) k)"
proof -
  obtain m1 where "(if legacyRevertMode (boostAt m r) then updateBoostPodLegacy D p m else updateBoostPod D p m) = Some (e, m1)"
    "apiState m' = apiState m1" by (rule revertResources_world [OF assms(4)])
  then show ?thesis
    using updateBoostPod_stores [OF assms(1-3)] updateBoostPodLegacy_stores [OF assms(1,2)] by (metis (full_types))
qed

section \<open>Properties\<close>

lemma reverts_to_key:
  assumes "reverts_to val pod q"
  shows "same_key pod q"
proof -
  have q: "q = pod\<lparr>podContainers := podContainers q, podLabels := podLabels q, podAnnotations := podAnnotations q\<rparr>"
    using assms unfolding reverts_to_def by blast
  show ?thesis using arg_cong [OF q, of podName] arg_cong [OF q, of podNamespace] by simp
qed

lemma updateBoostPod_drops:
  assumes S: "pod_server (dK D) (dJ D) stored" and a: "BoostAnnotationFromPod (dJ D) (podAt m p) = Inl err"
    and s: "stored (apiState m) (podKey (podAt m p)) = Some (podAt m p)" and u: "updateBoostPod D p m = Some (None, m1)"
  shows "\<exists>q. stored (apiState m1) (podKey (podAt m p)) = Some q \<and> podContainers q = podContainers (podAt m p) \<and>
         map_get (podLabels q) BoostLabelKey = None \<and> map_get (podAnnotations q) BoostAnnotationKey = None"
proof -
  let ?p = "podAt m p"
  obtain x1 w1 where 1: "PatchPod (dK D) (Some ResizeSubResourceName)
      (revertBoostResourcesPatchData (dQ D) (dJ D)) ?p (apiState m) = Some (None, x1, w1)"
    using u by (auto simp: updateBoostPod_def bind_eq_Some_conv Let_def split: option.splits)
  have "revertBoostResources (dQ D) (dJ D) ?p = Some (?p, Some (Errorf ''failed to get boost annotation from pod'' [err]))"
    by (simp add: revertBoostResources_def a)
  from pod_server.resources_not_patched [OF S this s 1] have w1: "x1 = ?p" "stored w1 = stored (apiState m)" by blast+
  obtain x2 w2 where 2: "PatchPod (dK D) None (revertBoostLabelsPatchData (dJ D)) ?p w1 = Some (None, x2, w2)"
    and m1: "apiState m1 = w2"
    using u 1 w1(1) by (auto simp: updateBoostPod_def bind_eq_Some_conv)
  obtain q where q: "revertBoostLabels ?p = Some (q, None)" by (simp add: revertBoostLabels_def)
  have "stored w2 = (stored w1)(podKey ?p \<mapsto> q)"
    using pod_server.labels_patched [OF S q _ 2] s w1(2) by simp
  then show ?thesis using q m1 by (auto simp: revertBoostLabels_def map_get_delete)
qed


definition table_deps :: "(int, int \<times> nat, table) deps" where
  "table_deps = \<lparr>dQ = nano_quantity, dJ = table_json, dK = table_client True, dSel = sample_selector\<rparr>"

definition table_world :: "bool list \<Rightarrow> int pod \<Rightarrow> table" where
  "table_world fs pod = \<lparr>tablePods = DAList.update (podKey pod) pod DAList.empty, tableHistory = [pod], tableFailures = fs\<rparr>"

definition table_mgr :: "bool list \<Rightarrow> bool \<Rightarrow> int pod \<Rightarrow> (int, table) manager" where
  "table_mgr fs legacy pod = NewManager True \<lparr>podAt = (\<lambda>_. pod), nextPod = 1,
     boostAt = (\<lambda>_. sample_boost\<lparr>legacyRevertMode := legacy, trackedPods := DAList.update ''web-1'' 0 DAList.empty\<rparr>),
     nextBoost = 1, metricsState = initMetrics, apiState = table_world fs pod\<rparr>"

lemma table_world_fields [simp]:
  "table_stored (table_world fs pod) k = (if k = podKey pod then Some pod else None)"
  "tableFailures (table_world fs pod) = fs"
  by (auto simp: table_world_def table_stored_def lookup_update)

lemma table_mgr_fields [simp]:
  "podAt (table_mgr fs legacy pod) = (\<lambda>_. pod)" "apiState (table_mgr fs legacy pod) = table_world fs pod"
  "legacyRevertMode (boostAt (table_mgr fs legacy pod) r) = legacy"
  by (simp_all add: table_mgr_def NewManager_def heap.defs manager.defs)

text \<open>The handler of the samples removes limits.\<close>

abbreviation sample_handler :: pod_handler where
  "sample_handler \<equiv> \<lparr>removeLimits = True, podLevelResourcesEnabled = False\<rparr>"

lemma annotatePod_label: "annotatePod J name a pod = Some pod' \<Longrightarrow> map_get (podLabels pod') BoostLabelKey = Some name"
  by (auto simp: annotatePod_def bind_eq_Some_conv map_get_assign)

lemma sample_pod_plain:
  "map_get (podLabels sample_pod) BoostLabelKey = None" "podKey sample_pod = (''prod'', ''web-1'')"
  "distinct (map ctrName (podContainers sample_pod))" "\<forall>c \<in> set (podContainers sample_pod). ascii_string (ctrName c)"
  by (simp_all add: sample_pod_def sample_container_def ascii_string_def sample_labels_def map_get_def lookup_update)

lemma boosted_by:
  assumes "case boostLoop nano_quantity (rangeOrder sample_rt) sample_handler b
      (computePodQOS nano_quantity (rangeOrder sample_rt) sample_pod False)
      [0 ..< length (podContainers sample_pod)] (sample_pod, NewBoostAnnotation (timeNow sample_rt)) of
      Some (pod1, a) \<Rightarrow> map_len (InitCPURequests a) > 0 | None \<Rightarrow> False"
  obtains pod' q where "boostContainerResources nano_quantity table_json sample_rt sample_handler b sample_pod = Some pod'"
    "pod' \<noteq> sample_pod" "RevertResourceBoost nano_quantity table_json pod' = Some (q, None)" "podKey q = (''prod'', ''web-1'')"
proof -
  obtain pod1 a where l: "boostLoop nano_quantity (rangeOrder sample_rt) sample_handler b
      (computePodQOS nano_quantity (rangeOrder sample_rt) sample_pod False)
      [0 ..< length (podContainers sample_pod)] (sample_pod, NewBoostAnnotation (timeNow sample_rt)) = Some (pod1, a)"
    "map_len (InitCPURequests a) > 0" using assms by (auto split: option.splits)
  have "rfc3339_time (timeNow sample_rt)" by (simp add: rfc3339_time_def sample_rt_def)
  from boosting.boost_then_revert [OF boosting.intro [OF nano.quantity_laws_axioms tabc.annotation_codec_axioms] sample_pod_plain(3,4) this]
  obtain pod' where b: "boostContainerResources nano_quantity table_json sample_rt sample_handler b sample_pod = Some pod'"
    "pod' = sample_pod \<or> (\<exists>q. RevertResourceBoost nano_quantity table_json pod' = Some (q, None) \<and> reverts_to nano_val sample_pod q)"
    by blast
  have "annotatePod table_json (boostName b) a pod1 = Some pod'"
    using b(1) l by (simp add: boostContainerResources_def)
  then have "pod' \<noteq> sample_pod" using annotatePod_label sample_pod_plain(1) by fastforce
  moreover from this b(2) obtain q where q: "RevertResourceBoost nano_quantity table_json pod' = Some (q, None)"
    "reverts_to nano_val sample_pod q" by blast
  moreover have "podKey q = (''prod'', ''web-1'')"
    using reverts_to_key [OF q(2)] sample_pod_plain(2) by simp
  ultimately show thesis using that b(1) by blast
qed

lemma boosted_sample:
  obtains pod' q where "boostContainerResources nano_quantity table_json sample_rt sample_handler sample_boost sample_pod = Some pod'"
    "pod' \<noteq> sample_pod" "RevertResourceBoost nano_quantity table_json pod' = Some (q, None)" "podKey q = (''prod'', ''web-1'')"
proof (rule boosted_by)
  show "case boostLoop nano_quantity (rangeOrder sample_rt) sample_handler sample_boost
      (computePodQOS nano_quantity (rangeOrder sample_rt) sample_pod False)
      [0 ..< length (podContainers sample_pod)] (sample_pod, NewBoostAnnotation (timeNow sample_rt)) of
      Some (pod1, a) \<Rightarrow> map_len (InitCPURequests a) > 0 | None \<Rightarrow> False"
    by code_simp
qed




section \<open>A second attempt\<close>

text \<open>
  The calls change the pod in the memory of the program before they send it, and the boost tracks that pod. So
  a failed attempt leaves its marks: after a failed update the annotation is gone from the tracked pod, after a
  failed first patch its resources are the original ones already.
\<close>

lemma updateBoostPodLegacy_failed:
  assumes S: "pod_server (dK D) (dJ D) stored" and q: "RevertResourceBoost (dQ D) (dJ D) (podAt m p) = Some (q, None)"
    and f: "fst (UpdatePod (dK D) q (apiState m)) \<noteq> None" and u: "updateBoostPodLegacy D p m = Some (e, m1)"
  shows "podAt m1 p = q \<and> stored (apiState m1) = stored (apiState m)"
proof -
  obtain e' x w where x: "UpdatePod (dK D) q (apiState m) = (Some e', x, w)"
    using f by (cases "UpdatePod (dK D) q (apiState m)") auto
  with pod_store.update_fails [OF pod_server.axioms(1) [OF S] x] q u show ?thesis
    by (auto simp: updateBoostPodLegacy_def setPod_def)
qed

lemma reverted_not_readable:
  assumes "RevertResourceBoost Q J x = Some (q, None)"
  shows "BoostAnnotationFromPod J q = Inl (OtherError ''boost annotation not found'')"
proof -
  obtain p1 where "revertBoostLabels p1 = Some (q, None)" by (rule RevertResourceBoost_parts [OF assms])
  from revert_fields_labels(6) [OF this] show ?thesis by (simp add: BoostAnnotationFromPod_def)
qed

lemma updateBoostPod_failed:
  assumes S: "pod_server (dK D) (dJ D) stored" and q: "revertBoostResources (dQ D) (dJ D) (podAt m p) = Some (q, None)"
    and f: "PatchPod (dK D) (Some ResizeSubResourceName) (revertBoostResourcesPatchData (dQ D) (dJ D)) (podAt m p) (apiState m) =
      Some (Some e', x, w)" and u: "updateBoostPod D p m = Some (e, m1)"
  shows "podAt m1 p = q \<and> stored (apiState m1) = stored (apiState m)"
proof -
  have "x = q \<and> stored w = stored (apiState m)"
    using pod_store.patch_fails [OF pod_server.axioms(1) [OF S] f] pod_json.resources_data [OF pod_server.axioms(2) [OF S] q] by blast
  with f u show ?thesis by (auto simp: updateBoostPod_def setPod_def)
qed

text \<open>An attempt with the resources in memory reverted already: the first patch is the difference of the pod and itself.\<close>

lemma updateBoostPod_again:
  assumes S: "pod_server (dK D) (dJ D) stored" and q: "revertBoostResources (dQ D) (dJ D) (podAt m p) = Some (podAt m p, None)"
    and s: "stored (apiState m) (podKey (podAt m p)) = Some x" and u: "updateBoostPod D p m = Some (None, m1)"
  shows "\<exists>y. stored (apiState m1) (podKey (podAt m p)) = Some y \<and> podContainers y = podContainers x \<and>
     map_get (podLabels y) BoostLabelKey = None \<and> map_get (podAnnotations y) BoostAnnotationKey = None"
proof -
  obtain x1 w1 where 1: "PatchPod (dK D) (Some ResizeSubResourceName)
      (revertBoostResourcesPatchData (dQ D) (dJ D)) (podAt m p) (apiState m) = Some (None, x1, w1)"
    using u by (auto simp: updateBoostPod_def bind_eq_Some_conv Let_def split: option.splits)
  have w1: "x1 = x" "stored w1 (podKey x) = Some x"
    using pod_server.resources_merged [OF S q s 1] pod_store.stored_key [OF pod_server.axioms(1) [OF S] s] by simp_all
  obtain x2 w2 where 2: "PatchPod (dK D) None (revertBoostLabelsPatchData (dJ D)) x w1 = Some (None, x2, w2)"
    and m1: "apiState m1 = w2" using u 1 w1(1) by (auto simp: updateBoostPod_def bind_eq_Some_conv)
  obtain y where y: "revertBoostLabels x = Some (y, None)" by (simp add: revertBoostLabels_def)
  have "stored w2 (podKey x) = Some y" using pod_server.labels_patched [OF S y w1(2) 2] by simp
  with m1 revert_fields_labels(3,5,6) [OF y] pod_store.stored_key [OF pod_server.axioms(1) [OF S] s] show ?thesis by auto
qed

lemma RevertResources_pod:
  assumes "client_laws (dK D)" and "RevertResources D rt r p m = Some (e, m')"
  obtains m1 where "(if legacyRevertMode (boostAt m r) then updateBoostPodLegacy D p m else updateBoostPod D p m) = Some (e, m1)"
    "apiState m' = apiState m1" "podAt m' = podAt m1" "legacyRevertMode (boostAt m' r) = legacyRevertMode (boostAt m r)"
proof -
  have "same_identity (boostAt m r) (boostAt m' r)"
    using revertResources_frame [OF assms(1)] assms(2) unfolding RevertResources_def boost_frame_def by blast
  from same_identity_fields(6) [OF this] that assms(2) show thesis
    unfolding RevertResources_def revertResources_def
    by (auto simp: bind_eq_Some_conv Let_def setBoost_def split: option.splits if_splits)
qed


lemma table_patch_succeeds:
  assumes "data (PodObject p) = Some (PodObject q, Inr d)" and "\<not> table_fails faulty w" and "table_stored w (podKey p) \<noteq> None"
  shows "\<exists>p' w'. table_patch faulty s data p w = Some (None, p', w') \<and> tableFailures w' = tl (tableFailures w) \<and>
    podKey p' = podKey p \<and> table_stored w' (podKey p) \<noteq> None"
proof -
  obtain x where x: "table_stored w (podKey p) = Some x" using assms(3) by blast
  from table_stored_key [OF x] have k: "podNamespace x = podNamespace p" "podName x = podName p" by simp_all
  have f: "tableFailures (table_next w) = tl (tableFailures w)" "tableFailures (table_put y (table_next w)) = tl (tableFailures w)" for y
    by (simp_all add: table_next_def table_put_def)
  show ?thesis
    by (cases "d = EmptyPatchString") (simp_all add: table_patch_def Let_def assms(1,2) x k f)
qed

text \<open>On the server in memory, reverting with patches succeeds when no failure is planned.\<close>

lemma table_updateBoostPod:
  fixes h :: "(int, table, 'm) heap_scheme"
  assumes "tableFailures (apiState h) = []" and "table_stored (apiState h) (podKey (podAt h p)) \<noteq> None"
  shows "\<exists>h'. updateBoostPod table_deps p h = Some (None, h')"
proof -
  have d: "dQ table_deps = nano_quantity" "dJ table_deps = table_json" "dK table_deps = table_client True"
    by (simp_all add: table_deps_def)
  obtain q e where q: "revertBoostResources nano_quantity table_json (podAt h p) = Some (q, e)"
    using revertBoostResources_total by blast
  obtain dd where dd: "revertBoostResourcesPatchData nano_quantity table_json (PodObject (podAt h p)) = Some (PodObject q, Inr dd)"
    using tabj.resources_data [OF q] by blast
  have nf: "\<not> table_fails True w" if "tableFailures w = []" for w using that by (simp add: table_fails_def)
  obtain p1 w1 where 1: "table_patch True (Some ResizeSubResourceName) (revertBoostResourcesPatchData nano_quantity table_json)
      (podAt h p) (apiState h) = Some (None, p1, w1)" "tableFailures w1 = []" "podKey p1 = podKey (podAt h p)"
    "table_stored w1 (podKey (podAt h p)) \<noteq> None"
    using table_patch_succeeds [of "revertBoostResourcesPatchData nano_quantity table_json", OF dd nf [OF assms(1)] assms(2)] assms(1)
    by (metis list.sel(2))
  obtain q2 where q2: "revertBoostLabels p1 = Some (q2, None)" by (simp add: revertBoostLabels_def)
  obtain d2 where "revertBoostLabelsPatchData table_json (PodObject p1) = Some (PodObject q2, Inr d2)"
    using tabj.labels_data [OF q2] by blast
  then obtain p2 w2 where "table_patch True None (revertBoostLabelsPatchData table_json) p1 w1 = Some (None, p2, w2)"
    using table_patch_succeeds [of "revertBoostLabelsPatchData table_json" p1 q2 d2, OF _ nf [OF 1(2)]] 1(3,4) by metis
  with 1 show ?thesis by (simp add: updateBoostPod_def d table_client_def)
qed


section \<open>What a check leaves tracked\<close>

text \<open>The names of the pods stay, and a boost tracks what it tracked but for the pods that were reverted.\<close>

definition done_names :: "('q, 'w) manager \<Rightarrow> ('q, 'w) pipeline \<Rightarrow> ref \<Rightarrow> string set" where
  "done_names m s b = {podName (podAt m p) | p r. ((b, p), Inr r) \<in> set (taskResults s)}"

definition tracking_of :: "('q, 'w) manager \<Rightarrow> ('q, 'w) pipeline \<Rightarrow> bool" where
  "tracking_of m s \<longleftrightarrow> (\<forall>p. podName (podAt (pipeMgr s) p) = podName (podAt m p)) \<and>
     (\<forall>b n. boostPod (boostAt (pipeMgr s) b) n = (if n \<in> done_names m s b then None else boostPod (boostAt m b) n))"

lemma tracking_of_revert:
  assumes K: "client_laws (dK D)" and t: "tracking_of m s" and r: "RevertResources D rt b p (pipeMgr s) = Some (e, m')"
    and s': "pipeMgr s' = m'"
    and d: "\<And>c. done_names m s' c = done_names m s c \<union> (if c = b \<and> e = None then {podName (podAt m p)} else {})"
  shows "tracking_of m s'"
proof -
  have f: "boost_frame b (pipeMgr s) m'" using revertResources_frame [OF K] r unfolding RevertResources_def by blast
  have n0: "podName (podAt (pipeMgr s) q) = podName (podAt m q)" for q using t by (simp add: tracking_of_def)
  have "boostPod (boostAt m' c) n = (if n \<in> done_names m s' c then None else boostPod (boostAt m c) n)" for c n
    using RevertResources_tracking [OF K r, where n = n] t unfolding tracking_of_def d n0 by (cases "c = b") auto
  with boost_frame_podName [OF f] n0 show ?thesis by (simp add: tracking_of_def s')
qed

lemma tracking_of_step:
  assumes "client_laws (dK D)" and "tracking_of m s" and "pipe_step D n s s'"
  shows "tracking_of m s'"
  using assms(3)
proof (cases rule: pipe_step.cases)
  case (revert_failed i b p rt e m')
  show ?thesis
    by (rule tracking_of_revert [OF assms(1,2) revert_failed(4)]) (simp_all add: revert_failed(1) done_names_def)
next
  case (reverted i b p rt m' r)
  show ?thesis
    by (rule tracking_of_revert [OF assms(1,2) reverted(4)]) (auto simp: reverted(1) done_names_def simp del: split_paired_Ex)
qed (use assms(2) in \<open>simp_all add: tracking_of_def done_names_def\<close>)



end
