(* ===== verification/Pod_Safety.thy ===== *)
theory Pod_Safety
  imports Pod_Lifecycle
begin

text \<open>
  The webhook, the controller, the manager and the API server together, for the whole life of a
  cluster: pods are created through the webhook, informers deliver any version of them at any time, boosts
  come and go, and pods are reverted. The theory shows that the original resources of a pod are never lost, as
  long as the server does not refuse the first patch of a revert, or the program uses updates.
\<close>

section \<open>Versions of a pod\<close>

abbreviation boost_note :: "'q pod \<Rightarrow> string option" where
  "boost_note p \<equiv> map_get (podAnnotations p) BoostAnnotationKey"

text \<open>The pod \<open>x\<close> has the resources that were requested as \<open>x0\<close>.\<close>

definition original :: "('q \<Rightarrow> rat) \<Rightarrow> 'q pod \<Rightarrow> 'q container list \<Rightarrow> bool" where
  "original val x0 cs \<longleftrightarrow> list_all2 (restored val) (podContainers x0) cs"

text \<open>Containers with a note: what it says leads back to the original resources.\<close>

definition recoverable ::
  "('q, 'd) quantity_api \<Rightarrow> 'q json_api \<Rightarrow> ('q \<Rightarrow> rat) \<Rightarrow> 'q pod \<Rightarrow> string option \<Rightarrow> 'q container list \<Rightarrow> bool" where
  "recoverable Q J val x0 note cs \<longleftrightarrow>
     (case note of
        None \<Rightarrow> original val x0 cs
      | Some s \<Rightarrow> \<exists>b cs'. UnmarshalAnnotation J s = Inr b \<and> revertContainers Q b cs = Some (cs', None) \<and> original val x0 cs')"

text \<open>
  A version of a pod that was requested as \<open>x0\<close> and created as \<open>y\<close>: it has the note of \<open>y\<close> or none.
\<close>

definition version_of ::
  "('q, 'd) quantity_api \<Rightarrow> 'q json_api \<Rightarrow> ('q \<Rightarrow> rat) \<Rightarrow> 'q pod \<times> 'q pod \<Rightarrow> 'q pod \<Rightarrow> bool" where
  "version_of Q J val a x \<longleftrightarrow>
     recoverable Q J val (fst a) (boost_note x) (podContainers x) \<and> (boost_note x = None \<or> boost_note x = boost_note (snd a))"

lemma recoverable_RevertResourceBoost:
  assumes "recoverable Q J val x0 (boost_note x) (podContainers x)"
  shows "boost_note x = None \<and> original val x0 (podContainers x) \<or>
    (\<exists>q. RevertResourceBoost Q J x = Some (q, None) \<and> original val x0 (podContainers q) \<and> boost_note q = None)"
proof (cases "boost_note x")
  case (Some s)
  with assms obtain b cs where b: "UnmarshalAnnotation J s = Inr b" "revertContainers Q b (podContainers x) = Some (cs, None)"
    "original val x0 cs" by (auto simp: recoverable_def)
  then show ?thesis
    using Some by (simp add: RevertResourceBoost_def revertBoostResources_def BoostAnnotationFromPod_def revertBoostLabels_def)
qed (use assms in \<open>simp add: recoverable_def\<close>)

text \<open>The first half of a revert, in the memory of the program.\<close>

lemma version_resources:
  assumes v: "version_of Q J val a x" and q: "revertBoostResources Q J x = Some (q, e)"
  shows "boost_note q = boost_note x" and "version_of Q J val a q" and "original val (fst a) (podContainers q)"
    and "e \<noteq> None \<longleftrightarrow> boost_note x = None" and "e \<noteq> None \<Longrightarrow> q = x"
proof -
  have n: "boost_note q = boost_note x" using revert_fields_resources(2) [OF q] by simp
  have "version_of Q J val a q \<and> original val (fst a) (podContainers q) \<and> (e \<noteq> None \<longleftrightarrow> boost_note x = None) \<and> (e \<noteq> None \<longrightarrow> q = x)"
  proof (cases "boost_note x")
    case None
    with q have "q = x" "e \<noteq> None" by (auto simp: revertBoostResources_def BoostAnnotationFromPod_def)
    with v None show ?thesis by (simp add: version_of_def recoverable_def)
  next
    case (Some s)
    with v obtain b cs where b: "UnmarshalAnnotation J s = Inr b" "revertContainers Q b (podContainers x) = Some (cs, None)"
      "original val (fst a) cs" by (auto simp: version_of_def recoverable_def)
    with q Some have q': "podContainers q = cs" "e = None" by (auto simp: revertBoostResources_def BoostAnnotationFromPod_def)
    have "recoverable Q J val (fst a) (Some s) cs"
      unfolding recoverable_def using b(1,3) revertContainers_idem [OF b(2)] by auto
    with v b(3) Some n q' show ?thesis unfolding version_of_def by (metis option.distinct(1))
  qed
  with n show "boost_note q = boost_note x" "version_of Q J val a q" "original val (fst a) (podContainers q)"
    "e \<noteq> None \<longleftrightarrow> boost_note x = None" "e \<noteq> None \<Longrightarrow> q = x" by blast+
qed

lemma version_labels:
  assumes "original val (fst a) (podContainers x)" and "revertBoostLabels x = Some (q, e)"
  shows "version_of Q J val a q" and "podContainers q = podContainers x"
  using assms(1) revert_fields_labels(3,6) [OF assms(2)] by (simp_all add: version_of_def recoverable_def)

text \<open>
  The first patch, on the pod \<open>s\<close> of the server: whatever version the program worked on, the server has the
  original resources afterwards, if it had them before in case the program had.
\<close>

lemma version_merged:
  assumes x: "version_of Q J val a x" and s: "version_of Q J val a s"
    and q: "revertBoostResources Q J x = Some (q, None)"
    and mono: "original val (fst a) (podContainers x) \<Longrightarrow> original val (fst a) (podContainers s)"
  shows "version_of Q J val a (merge_pod x q s)" and "original val (fst a) (podContainers (merge_pod x q s))"
proof -
  note v = version_resources [OF x q]
  have n: "boost_note (merge_pod x q s) = boost_note s"
    using revert_fields_resources(2) [OF q] by (simp add: merge_pod_get)
  show o: "original val (fst a) (podContainers (merge_pod x q s))"
    using v(3) mono by (auto simp: merge_value_def)
  show "version_of Q J val a (merge_pod x q s)"
  proof (cases "podContainers x = podContainers q \<or> boost_note s = None")
    case True
    then have "boost_note s = None \<or> podContainers (merge_pod x q s) = podContainers s" by (auto simp: merge_value_def)
    moreover have "recoverable Q J val (fst a) None cs \<longleftrightarrow> original val (fst a) cs" for cs by (simp add: recoverable_def)
    ultimately show ?thesis using s o n unfolding version_of_def by metis
  next
    case False
    have "boost_note x \<noteq> None" using v(4) by simp
    then have "boost_note q = boost_note s" using v(1) x s False by (auto simp: version_of_def)
    with v(2) n False show ?thesis by (simp add: version_of_def merge_value_def)
  qed
qed

section \<open>A cluster\<close>

text \<open>
  A cluster: the libraries of the program, the pods that the API server holds, all versions of them that it ever
  held, the value of quantities, and the mode in which the program reverts.
\<close>

type_synonym pod_key = "string \<times> string"

record ('q, 'd, 'w) cluster =
  clDeps :: "('q, 'd, 'w) deps"
  clStored :: "'w \<Rightarrow> pod_key \<Rightarrow> 'q pod option"
  clVersions :: "'w \<Rightarrow> pod_key \<Rightarrow> 'q pod set"
  clVal :: "'q \<Rightarrow> rat"
  clDecVal :: "'d \<Rightarrow> rat"
  clLegacy :: bool

text \<open>The pods that were created so far, each as it was requested and as it was created.\<close>

type_synonym 'q admissions = "pod_key \<Rightarrow> ('q pod \<times> 'q pod) option"

definition settled :: "('q, 'd, 'w) cluster \<Rightarrow> 'q pod \<Rightarrow> 'w \<Rightarrow> pod_key \<Rightarrow> bool" where
  "settled S x0 w k \<longleftrightarrow> (\<forall>s. clStored S w k = Some s \<longrightarrow> original (clVal S) x0 (podContainers s))"

text \<open>
  A pod in the memory of the program or on its way there. With patches it is also required that the
  server has the original resources as soon as such a pod has them.
\<close>

definition safe_pod :: "('q, 'd, 'w) cluster \<Rightarrow> 'q admissions \<Rightarrow> 'w \<Rightarrow> 'q pod \<Rightarrow> bool" where
  "safe_pod S adm w x \<longleftrightarrow> (\<forall>a. adm (podKey x) = Some a \<longrightarrow>
     version_of (dQ (clDeps S)) (dJ (clDeps S)) (clVal S) a x \<and>
     (\<not> clLegacy S \<longrightarrow> original (clVal S) (fst a) (podContainers x) \<longrightarrow> settled S (fst a) w (podKey x)))"

definition world_safe :: "('q, 'd, 'w) cluster \<Rightarrow> 'q admissions \<Rightarrow> 'w \<Rightarrow> bool" where
  "world_safe S adm w \<longleftrightarrow> (\<forall>k. \<forall>x \<in> clVersions S w k. safe_pod S adm w x)"

definition pods_safe :: "('q, 'd, 'w) cluster \<Rightarrow> 'q admissions \<Rightarrow> ('q, 'w, 'm) heap_scheme \<Rightarrow> bool" where
  "pods_safe S adm h \<longleftrightarrow> (\<forall>r. legacyRevertMode (boostAt h r) = clLegacy S) \<and>
     (\<forall>p. safe_pod S adm (apiState h) (podAt h p)) \<and> world_safe S adm (apiState h)"

text \<open>What a call leaves of this.\<close>

definition world_step :: "('q, 'd, 'w) cluster \<Rightarrow> 'q admissions \<Rightarrow> 'w \<Rightarrow> 'w \<Rightarrow> bool" where
  "world_step S adm w w' \<longleftrightarrow> (\<forall>x. safe_pod S adm w x \<longrightarrow> safe_pod S adm w' x) \<and> (world_safe S adm w \<longrightarrow> world_safe S adm w')"

lemma world_step_refl [simp]: "world_step S adm w w"
  by (simp add: world_step_def)

lemma world_step_trans: "world_step S adm w1 w2 \<Longrightarrow> world_step S adm w2 w3 \<Longrightarrow> world_step S adm w1 w3"
  unfolding world_step_def by blast

lemma pods_safe_step:
  assumes "pods_safe S adm h" and "world_step S adm (apiState h) (apiState h')"
    and "\<And>r. legacyRevertMode (boostAt h' r) = legacyRevertMode (boostAt h r)"
    and "\<And>p. podAt h' p = podAt h p \<or> safe_pod S adm (apiState h') (podAt h' p)"
  shows "pods_safe S adm h'"
  using assms unfolding pods_safe_def world_step_def by metis

text \<open>
  The locale: the server keeps the laws of its documentation, and a program that patches has a server that
  does not refuse the first patch for a pod that it holds. The property \<open>second_attempt\<close> shows
  what happens otherwise.
\<close>

locale pod_system = boosting "dQ (clDeps S)" "clVal S" "clDecVal S" "dJ (clDeps S)" +
  pod_history "dK (clDeps S)" "dJ (clDeps S)" "clStored S" "clVersions S"
  for S :: "('q, 'd, 'w) cluster" +
  assumes resize_works: "\<not> clLegacy S \<Longrightarrow> clStored S w (podKey p) \<noteq> None \<Longrightarrow>
    PatchPod (dK (clDeps S)) (Some ResizeSubResourceName) (revertBoostResourcesPatchData (dQ (clDeps S)) (dJ (clDeps S))) p w =
      Some (e, p', w') \<Longrightarrow> e = None"
begin

lemma world_stepI:
  assumes frame: "\<And>k'. k' \<noteq> k \<Longrightarrow> clStored S w' k' = clStored S w k'"
    and vs: "\<And>k'. clVersions S w' k' \<subseteq> clVersions S w k' \<union> {x. clStored S w' k' = Some x}"
    and settled: "\<And>a. adm k = Some a \<Longrightarrow> settled S (fst a) w k \<Longrightarrow> settled S (fst a) w' k"
    and new: "\<And>s. clStored S w' k = Some s \<Longrightarrow> clStored S w k \<noteq> Some s \<Longrightarrow> safe_pod S adm w' s"
  shows "world_step S adm w w'"
proof -
  have "settled S (fst a) w k' \<Longrightarrow> settled S (fst a) w' k'" if "adm k' = Some a" for a k'
  proof (cases "k' = k")
    case True
    then show "settled S (fst a) w k' \<Longrightarrow> settled S (fst a) w' k'" using settled that by blast
  next
    case False
    then show "settled S (fst a) w k' \<Longrightarrow> settled S (fst a) w' k'" by (simp add: settled_def frame)
  qed
  then have s: "safe_pod S adm w x \<Longrightarrow> safe_pod S adm w' x" for x unfolding safe_pod_def by blast
  have "safe_pod S adm w' x" if x: "x \<in> clVersions S w' k'" and w: "world_safe S adm w" for x k'
  proof (cases "x \<in> clVersions S w k'")
    case True
    then show ?thesis using w s unfolding world_safe_def by blast
  next
    case False
    then have "clStored S w' k' = Some x" "clStored S w k' \<noteq> Some x" using x vs current by blast+
    then show ?thesis using frame [of k'] new [of x] by metis
  qed
  with s show ?thesis unfolding world_step_def world_safe_def by blast
qed

lemma same_store:
  assumes "clStored S w' = clStored S w" and "\<And>k. clVersions S w' k \<subseteq> clVersions S w k \<union> {x. clStored S w' k = Some x}"
  shows "world_step S adm w w'"
  by (rule world_stepI [where k = undefined]) (use assms in \<open>auto simp: settled_def\<close>)

lemma merged:
  assumes "version_of (dQ (clDeps S)) (dJ (clDeps S)) (clVal S) a x" and "version_of (dQ (clDeps S)) (dJ (clDeps S)) (clVal S) a s"
    and "revertBoostResources (dQ (clDeps S)) (dJ (clDeps S)) x = Some (q, None)" and "clStored S w (podKey x) = Some s"
    and "original (clVal S) (fst a) (podContainers x) \<longrightarrow> settled S (fst a) w (podKey x)" and "p' = merge_pod x q s"
  shows "version_of (dQ (clDeps S)) (dJ (clDeps S)) (clVal S) a p'" and "original (clVal S) (fst a) (podContainers p')"
proof -
  have "original (clVal S) (fst a) (podContainers s)" if "original (clVal S) (fst a) (podContainers x)"
    using assms(4,5) that by (simp add: settled_def)
  from version_merged [OF assms(1-3) this] show "version_of (dQ (clDeps S)) (dJ (clDeps S)) (clVal S) a p'"
    "original (clVal S) (fst a) (podContainers p')" by (simp_all only: assms(6))
qed

text \<open>The first patch.\<close>

lemma resize_safe:
  assumes l: "\<not> clLegacy S" and w: "world_safe S adm w" and x: "safe_pod S adm w x"
    and u: "PatchPod (dK (clDeps S)) (Some ResizeSubResourceName) (revertBoostResourcesPatchData (dQ (clDeps S)) (dJ (clDeps S))) x w =
      Some (e, p', w')"
  shows "world_step S adm w w' \<and> safe_pod S adm w' p' \<and>
    (e = None \<longrightarrow> clStored S w' (podKey p') = Some p' \<and>
      (\<forall>a. adm (podKey p') = Some a \<longrightarrow> original (clVal S) (fst a) (podContainers p')))"
proof -
  obtain q e0 where q: "revertBoostResources (dQ (clDeps S)) (dJ (clDeps S)) x = Some (q, e0)"
    using revertBoostResources_total by blast
  have kq: "podKey q = podKey x" using revertBoostResources_key [of "dQ (clDeps S)" "dJ (clDeps S)" x] q by auto
  note vs = patch_versions [OF u]
  show ?thesis
  proof (cases "clStored S w (podKey x)")
    case None
    with u obtain err where e: "e = Some err" using patch_exists by (cases e) auto
    have m: "p' = q" "clStored S w' = clStored S w" using patch_fails [OF u [unfolded e]] resources_data [OF q] by blast+
    have "version_of (dQ (clDeps S)) (dJ (clDeps S)) (clVal S) a q" if "adm (podKey x) = Some a" for a
      using version_resources(2) [OF _ q] x that unfolding safe_pod_def by blast
    then have "safe_pod S adm w' p'" using None by (simp add: m safe_pod_def kq settled_def)
    then show ?thesis using same_store [OF m(2) vs] e by simp
  next
    case (Some s)
    have e: "e = None" using resize_works [OF l _ u] Some by simp
    note s = current [OF Some]
    have ks: "podKey s = podKey x" using versions_key [OF s] .
    have ss: "safe_pod S adm w s" using w s by (auto simp: world_safe_def)
    show ?thesis
    proof (cases e0)
      case None
      note m = resources_merged [OF q [unfolded None] Some u [unfolded e]]
      have v: "version_of (dQ (clDeps S)) (dJ (clDeps S)) (clVal S) a p'" "original (clVal S) (fst a) (podContainers p')"
        if "adm (podKey x) = Some a" for a
        using merged [OF _ _ q [unfolded None] Some _ conjunct1 [OF m]] x ss that l unfolding safe_pod_def ks by blast+
      have k: "podKey p' = podKey x" using m ks by simp
      have st: "settled S (fst a) w' (podKey x)" if "adm (podKey x) = Some a" for a using v [OF that] m by (simp add: settled_def)
      then have sp: "safe_pod S adm w' p'" using v unfolding safe_pod_def k by blast
      have "world_step S adm w w'"
        by (rule world_stepI [where k = "podKey x"]) (use m sp st vs in auto)
      then show ?thesis using m v k sp by simp
    next
      case (Some err)
      have m: "p' = s \<and> clStored S w' = clStored S w"
        using resources_not_patched [OF q [unfolded Some] \<open>clStored S w (podKey x) = Some s\<close> u [unfolded e]] .
      have v: "original (clVal S) (fst a) (podContainers s)" if "adm (podKey x) = Some a" for a
      proof -
        have "version_of (dQ (clDeps S)) (dJ (clDeps S)) (clVal S) a x" using x that unfolding safe_pod_def by blast
        from version_resources(3,5) [OF this q] Some have "original (clVal S) (fst a) (podContainers x)" by simp
        then have "settled S (fst a) w (podKey x)" using x l that unfolding safe_pod_def by blast
        with \<open>clStored S w (podKey x) = Some s\<close> show ?thesis by (simp add: settled_def)
      qed
      have "world_step S adm w w'" by (rule same_store [OF conjunct2 [OF m] vs])
      moreover from this have "safe_pod S adm w' s" using ss unfolding world_step_def by blast
      ultimately show ?thesis using m v ks \<open>clStored S w (podKey x) = Some s\<close> by simp
    qed
  qed
qed

text \<open>The second patch, and the update of older clusters.\<close>

lemma labels_safe:
  assumes x: "safe_pod S adm w x" and s: "clStored S w (podKey x) = Some x"
    and o: "\<And>a. adm (podKey x) = Some a \<Longrightarrow> original (clVal S) (fst a) (podContainers x)"
    and u: "PatchPod (dK (clDeps S)) None (revertBoostLabelsPatchData (dJ (clDeps S))) x w = Some (e, p', w')"
  shows "world_step S adm w w' \<and> safe_pod S adm w' p' \<and>
    (e = None \<longrightarrow> clStored S w' (podKey p') = Some p' \<and> boost_note p' = None)"
proof -
  obtain q where q: "revertBoostLabels x = Some (q, None)" by (simp add: revertBoostLabels_def)
  have k: "podKey q = podKey x" using revert_fields_labels(1,2) [OF q] by simp
  note vs = patch_versions [OF u]
  have v: "version_of (dQ (clDeps S)) (dJ (clDeps S)) (clVal S) a q" "original (clVal S) (fst a) (podContainers q)"
    if "adm (podKey x) = Some a" for a
    using version_labels [OF o [OF that] q] o [OF that] by simp_all
  have p': "p' = q \<and> (if e = None then clStored S w' = (clStored S w)(podKey x \<mapsto> q) else clStored S w' = clStored S w)"
  proof (cases e)
    case None
    from labels_patched [OF q s u [unfolded None]] None show ?thesis by simp
  next
    case (Some err)
    from patch_fails [OF u [unfolded Some]] labels_data [OF q] Some show ?thesis by force
  qed
  have st: "settled S (fst a) w' (podKey x)" if "adm (podKey x) = Some a" for a
    using p' v(2) [OF that] o [OF that] s by (auto simp: settled_def split: if_splits)
  have sq: "safe_pod S adm w' q" using v(1) st unfolding safe_pod_def k by blast
  have "world_step S adm w w'"
    by (rule world_stepI [where k = "podKey x"]) (use p' sq st vs in \<open>auto split: if_splits\<close>)
  with sq p' k revert_fields_labels(6) [OF q] show ?thesis by simp
qed

lemma update_safe:
  assumes x: "safe_pod S adm w x" and l: "clLegacy S"
    and q: "RevertResourceBoost (dQ (clDeps S)) (dJ (clDeps S)) x = Some (q, None)"
    and u: "UpdatePod (dK (clDeps S)) q w = (e, p', w')"
  shows "world_step S adm w w' \<and> safe_pod S adm w' p' \<and>
    (e = None \<longrightarrow> clStored S w' (podKey p') = Some p' \<and> boost_note p' = None)"
proof -
  obtain p1 where p1: "revertBoostResources (dQ (clDeps S)) (dJ (clDeps S)) x = Some (p1, None)"
    "revertBoostLabels p1 = Some (q, None)" "same_key x q" by (rule RevertResourceBoost_parts [OF q])
  have k: "podKey q = podKey x" using p1(3) by simp
  have v: "version_of (dQ (clDeps S)) (dJ (clDeps S)) (clVal S) a q" "original (clVal S) (fst a) (podContainers q)"
    if "adm (podKey x) = Some a" for a
  proof -
    have "version_of (dQ (clDeps S)) (dJ (clDeps S)) (clVal S) a x" using x that unfolding safe_pod_def by blast
    from version_labels [OF version_resources(3) [OF this p1(1)] p1(2)] version_resources(3) [OF this p1(1)]
    show "version_of (dQ (clDeps S)) (dJ (clDeps S)) (clVal S) a q" "original (clVal S) (fst a) (podContainers q)" by simp_all
  qed
  have p': "p' = q \<and> (if e = None then clStored S w' = (clStored S w)(podKey q \<mapsto> q) else clStored S w' = clStored S w)"
    using update_stores [of q w p' w'] update_fails [of q w _ p' w'] u by (cases e) simp_all
  have sq: "safe_pod S adm w' q" using v(1) l unfolding safe_pod_def k by blast
  have "world_step S adm w w'"
  proof (rule world_stepI [where k = "podKey x"])
    show "settled S (fst a) w' (podKey x)" if "adm (podKey x) = Some a" "settled S (fst a) w (podKey x)" for a
      using p' v(2) [OF that(1)] that(2) by (auto simp: settled_def k split: if_splits)
  qed (use p' sq k update_versions [OF u] in \<open>auto split: if_splits\<close>)
  with sq p' k revert_fields_labels(6) [OF p1(2)] show ?thesis by simp
qed

section \<open>The operations\<close>

text \<open>Reverting keeps the pods safe, and after a success the server has the pod without the note.\<close>

lemma updateBoostPod_safe:
  fixes h :: "('q, 'w, 'm) heap_scheme"
  assumes h: "pods_safe S adm h" and l: "\<not> clLegacy S" and u: "updateBoostPod (clDeps S) p h = Some (e, h')"
  shows "world_step S adm (apiState h) (apiState h') \<and> safe_pod S adm (apiState h') (podAt h' p) \<and>
    (e = None \<longrightarrow> clStored S (apiState h') (podKey (podAt h' p)) = Some (podAt h' p) \<and> boost_note (podAt h' p) = None)"
proof -
  obtain e1 p1 w1 where 1: "PatchPod (dK (clDeps S)) (Some ResizeSubResourceName)
      (revertBoostResourcesPatchData (dQ (clDeps S)) (dJ (clDeps S))) (podAt h p) (apiState h) = Some (e1, p1, w1)"
    using u by (auto simp: updateBoostPod_def bind_eq_Some_conv)
  have w: "world_safe S adm (apiState h)" "safe_pod S adm (apiState h) (podAt h p)" using h by (simp_all add: pods_safe_def)
  note r = resize_safe [OF l w 1]
  show ?thesis
  proof (cases e1)
    case (Some err)
    with u 1 have "e \<noteq> None" "apiState h' = w1" "podAt h' p = p1" by (auto simp: updateBoostPod_def setPod_def)
    with r show ?thesis by auto
  next
    case None
    with u 1 obtain p2 w2 where 2: "PatchPod (dK (clDeps S)) None (revertBoostLabelsPatchData (dJ (clDeps S))) p1 w1 = Some (e, p2, w2)"
      and h': "apiState h' = w2" "podAt h' p = p2" by (auto simp: updateBoostPod_def setPod_def bind_eq_Some_conv)
    have p1: "safe_pod S adm w1 p1" "clStored S w1 (podKey p1) = Some p1"
      "\<And>a. adm (podKey p1) = Some a \<Longrightarrow> original (clVal S) (fst a) (podContainers p1)" using r None by blast+
    from labels_safe [OF p1 2] world_step_trans [OF conjunct1 [OF r]] show ?thesis unfolding h' by blast
  qed
qed

lemma updateBoostPodLegacy_safe:
  fixes h :: "('q, 'w, 'm) heap_scheme"
  assumes h: "pods_safe S adm h" and l: "clLegacy S" and u: "updateBoostPodLegacy (clDeps S) p h = Some (e, h')"
  shows "world_step S adm (apiState h) (apiState h') \<and> safe_pod S adm (apiState h') (podAt h' p) \<and>
    (e = None \<longrightarrow> clStored S (apiState h') (podKey (podAt h' p)) = Some (podAt h' p) \<and> boost_note (podAt h' p) = None)"
proof -
  have x: "safe_pod S adm (apiState h) (podAt h p)" using h by (simp add: pods_safe_def)
  obtain q e0 where q: "RevertResourceBoost (dQ (clDeps S)) (dJ (clDeps S)) (podAt h p) = Some (q, e0)"
    using RevertResourceBoost_key by blast
  show ?thesis
  proof (cases e0)
    case (Some err)
    then obtain q0 e1 where r: "revertBoostResources (dQ (clDeps S)) (dJ (clDeps S)) (podAt h p) = Some (q0, Some e1)" "q = q0"
      using q by (auto simp: RevertResourceBoost_def revertBoostLabels_def bind_eq_Some_conv split: option.splits)
    have v: "version_of (dQ (clDeps S)) (dJ (clDeps S)) (clVal S) a (podAt h p)" if "adm (podKey (podAt h p)) = Some a" for a
      using x that unfolding safe_pod_def by blast
    have "podKey q = podKey (podAt h p)" using revertBoostResources_key [of "dQ (clDeps S)" "dJ (clDeps S)" "podAt h p"] r by auto
    then have "safe_pod S adm (apiState h) q" using version_resources(2) [OF v r(1)] l unfolding safe_pod_def r(2) by auto
    with u q Some show ?thesis by (auto simp: updateBoostPodLegacy_def setPod_def)
  next
    case None
    obtain e2 p2 w2 where 2: "UpdatePod (dK (clDeps S)) q (apiState h) = (e2, p2, w2)" by (metis prod_cases3)
    with u q None have "e = e2" "apiState h' = w2" "podAt h' p = p2" by (auto simp: updateBoostPodLegacy_def setPod_def)
    with update_safe [OF x l q [unfolded None] 2] show ?thesis by simp
  qed
qed

lemma revertResources_safe:
  fixes h :: "('q, 'w, 'm) heap_scheme"
  assumes h: "pods_safe S adm h" and u: "revertResources (clDeps S) rt r p h = Some (e, h')"
  shows "pods_safe S adm h' \<and>
    (e = None \<longrightarrow> clStored S (apiState h') (podKey (podAt h' p)) = Some (podAt h' p) \<and> boost_note (podAt h' p) = None)"
proof -
  have K: "client_laws (dK (clDeps S))" by unfold_locales
  obtain h1 where h1: "(if legacyRevertMode (boostAt h r) then updateBoostPodLegacy (clDeps S) p h else updateBoostPod (clDeps S) p h) = Some (e, h1)"
    "apiState h' = apiState h1" "podAt h' = podAt h1"
    by (rule RevertResources_pod [OF K u [folded RevertResources_def]])
  have "legacyRevertMode (boostAt h r) = clLegacy S" using h by (simp add: pods_safe_def)
  with updateBoostPod_safe [OF h, of p e h1] updateBoostPodLegacy_safe [OF h, of p e h1] h1(1)
  have s: "world_step S adm (apiState h) (apiState h1)" "safe_pod S adm (apiState h1) (podAt h1 p)"
    "e = None \<longrightarrow> clStored S (apiState h1) (podKey (podAt h1 p)) = Some (podAt h1 p) \<and> boost_note (podAt h1 p) = None"
    by (simp_all split: if_splits)
  have "pod_only p h h1"
    using h1(1) updateBoostPod_outcome [OF K, of p h] updateBoostPodLegacy_outcome [OF K, of p h] by (auto split: if_splits)
  then have o: "podAt h1 p' = podAt h p'" if "p' \<noteq> p" for p' using pod_only_boosts(7) that by blast
  have "pods_safe S adm h'"
  proof (rule pods_safe_step [OF h])
    show "legacyRevertMode (boostAt h' r') = legacyRevertMode (boostAt h r')" for r'
      using same_identity_fields(6) [OF frame_identity [OF revertResources_frame [OF K u]]] .
    show "podAt h' p' = podAt h p' \<or> safe_pod S adm (apiState h') (podAt h' p')" for p'
      using o s(2) h1 by (cases "p' = p") simp_all
  qed (simp add: h1 s(1))
  with s(3) h1 show ?thesis by simp
qed

lemma upsert_tracked_safe:
  fixes h :: "('q, 'w, 'm) heap_scheme"
  assumes "pods_safe S adm h"
  shows "pods_safe S adm (upsert_tracked (clDeps S) rt r p h)"
proof (rule pods_safe_step [OF assms])
  show "legacyRevertMode (boostAt (upsert_tracked (clDeps S) rt r p h) r') = legacyRevertMode (boostAt h r')" for r'
    by (rule same_identity_fields(6) [OF frame_identity [OF upsert_tracked_frame]])
qed (simp_all add: upsert_tracked_pods(1) upsert_tracked_def setBoost_def)

lemma boostUpsertPod_safe:
  fixes h :: "('q, 'w, 'm) heap_scheme"
  assumes "boostUpsertPod (clDeps S) rt r p h = Some (e, h')" and "pods_safe S adm h"
  shows "pods_safe S adm h'"
  using assms(1) revertResources_safe [OF upsert_tracked_safe [OF assms(2)]] upsert_tracked_safe [OF assms(2)]
  by (auto simp: boostUpsertPod_eq split: if_splits)

end

text \<open>So the boosts meet the contract of the loops of the manager, with the safety of all pods as the frame.\<close>

sublocale pod_system \<subseteq> safe: boost_api "boostUpsertPod (clDeps S) rt r" "\<lambda>h h'. pods_safe S adm h \<longrightarrow> pods_safe S adm h'"
  for rt r adm
proof unfold_locales
  have K: "client_laws (dK (clDeps S))" by unfold_locales
  show "\<exists>e h'. boostUpsertPod (clDeps S) rt r p h = Some (e, h')" for p h
    by (rule boostUpsertPod_returns [OF K])
  show "podAt h' q = podAt h q" if "boostUpsertPod (clDeps S) rt r p h = Some (e, h')" "q \<noteq> p" for p h e h' q
    by (rule boostUpsertPod_other_pods [OF K that])
qed (auto intro: boostUpsertPod_safe)

context pod_system
begin

lemma same_pods_safe:
  assumes "pods_safe S adm h" and "podAt h' = podAt h" and "boostAt h' = boostAt h" and "apiState h' = apiState h"
  shows "pods_safe S adm h'"
  using assms by (simp add: pods_safe_def)

lemma deleteOrphan_safe: "pods_safe S adm m \<Longrightarrow> pods_safe S adm (deleteOrphan m p)"
  by (erule same_pods_safe) (simp_all add: deleteOrphan_def)

lemma foldl_deleteOrphan_safe: "pods_safe S adm m \<Longrightarrow> pods_safe S adm (foldl deleteOrphan m ps)"
  by (induction ps arbitrary: m) (simp_all add: deleteOrphan_safe)

lemma allocPods_safe:
  assumes "pods_safe S adm m" and "\<And>x. x \<in> set xs \<Longrightarrow> safe_pod S adm (apiState m) x"
  shows "pods_safe S adm (snd (allocPods xs m))"
  by (rule pods_safe_step [OF assms(1)]) (use assms(2) in \<open>auto simp: allocPods_def Let_def\<close>)

lemma mapOrphanedPods_safe:
  assumes "mapOrphanedPods (clDeps S) rt r m = Some (e, m')" and "pods_safe S adm m"
  shows "pods_safe S adm m'"
  using assms by (auto simp: mapOrphanedPods_def bind_eq_Some_conv Let_def dest!: safe.loop_frame [where adm = adm] intro!: foldl_deleteOrphan_safe)

lemma syncBoostPods_safe:
  assumes "syncBoostPods (clDeps S) rt r m = Some (e, m')" and m: "pods_safe S adm m"
  shows "pods_safe S adm m'"
proof (cases "m' = m")
  case False
  then obtain ps oks errs m1 where ps: "ListPods (dK (clDeps S)) (boostNamespace (boostAt m r)) BoostLabelKey (boostName (boostAt m r)) (apiState m) = Inr ps"
    and l: "upsertLoop (boostUpsertPod (clDeps S) rt r) (\<lambda>p h. boostPod (boostAt h r) (podName (podAt h p)) = None)
      (\<lambda>e. Errorf ''failed to sync pod'' [e]) (fst (allocPods ps m)) [] [] (snd (allocPods ps m)) = Some (oks, errs, m')"
    using assms(1) by (auto simp: syncBoostPods_def bind_eq_Some_conv split: if_splits sum.splits prod.splits)
  have "safe_pod S adm (apiState m) x" if "x \<in> set ps" for x
    using list_versions [OF ps that] m by (auto simp: pods_safe_def world_safe_def)
  from allocPods_safe [OF m this] safe.loop_frame [OF l, of adm] show ?thesis by blast
qed (use m in simp)

lemma postProcessNewBoost_safe:
  assumes "postProcessNewBoost (clDeps S) rt r m = Some m'" and "pods_safe S adm m"
  shows "pods_safe S adm m'"
proof -
  have "pods_safe S adm (timed_put r m)"
    by (rule same_pods_safe [OF assms(2)]) (simp_all add: timed_put_def split: option.split)
  then show ?thesis using assms(1)
    by (auto simp: postProcessNewBoost_def Let_def bind_eq_Some_conv timed_put_def [symmetric] dest: mapOrphanedPods_safe syncBoostPods_safe)
qed

lemma AddRegularCPUBoost_safe:
  assumes "AddRegularCPUBoost (clDeps S) rt boost m = Some (e, m')" and "pods_safe S adm m"
  shows "pods_safe S adm m'"
proof -
  obtain r where r: "boost = Some r" using assms(1) by (auto simp: AddRegularCPUBoost_def bind_eq_Some_conv)
  show ?thesis
  proof (cases "nsoGet (boostName (boostAt m r)) (boostNamespace (boostAt m r)) (regularBoosts m)")
    case None
    let ?m1 = "m\<lparr>regularBoosts := nsoPut (boostName (boostAt m r)) (boostNamespace (boostAt m r)) r (regularBoosts m),
      metricsState := NewBoostConfiguration (boostNamespace (boostAt m r)) (metricsState m)\<rparr>"
    have "pods_safe S adm ?m1" by (rule same_pods_safe [OF assms(2)]) simp_all
    then show ?thesis using assms(1) None
      by (auto simp: AddRegularCPUBoost_def r Let_def bind_eq_Some_conv dest: postProcessNewBoost_safe)
  qed (use assms in \<open>auto simp: AddRegularCPUBoost_def r\<close>)
qed

lemma recCreate_safe:
  assumes "recCreate (clDeps S) rt rec obj m = Some (go, m')" and "LegacyRevertMode rec = clLegacy S" and "pods_safe S adm m"
  shows "pods_safe S adm m'"
proof (cases obj)
  case (BoostObj b)
  obtain res m1 where n: "NewStartupCPUBoost (dSel (clDeps S)) b (LegacyRevertMode rec) m = (res, m1)" by fastforce
  have "pods_safe S adm m1"
    using n assms(2,3) by (auto simp: NewStartupCPUBoost_def Let_def pods_safe_def split: sum.splits if_splits)
  then show ?thesis using assms(1) n by (auto simp: recCreate_def BoostObj bind_eq_Some_conv dest: AddRegularCPUBoost_safe)
qed (use assms in \<open>simp_all add: recCreate_def\<close>)

lemma recUpdate_safe:
  assumes "recUpdate (clDeps S) rt obj m = Some (go, m')" and "pods_safe S adm m"
  shows "pods_safe S adm m'"
proof (cases obj)
  case (BoostObj b)
  with assms(1) obtain e where u: "UpdateRegularCPUBoost (clDeps S) rt b m = Some (e, m')"
    by (auto simp: recUpdate_def bind_eq_Some_conv)
  show ?thesis
  proof (cases "nsoGet (scbName b) (scbNamespace b) (regularBoosts m)")
    case None
    with u assms(2) show ?thesis by (simp add: UpdateRegularCPUBoost_def)
  next
    case (Some r)
    obtain e1 m1 where f: "UpdateFromSpec (dSel (clDeps S)) r b m = (e1, m1)" by fastforce
    have "pods_safe S adm m1"
      using f assms(2) by (auto simp: UpdateFromSpec_def setBoost_def pods_safe_def split: sum.splits if_splits)
    then show ?thesis using u Some f
      by (cases e1) (auto simp: UpdateRegularCPUBoost_def bind_eq_Some_conv dest: postProcessNewBoost_safe)
  qed
qed (use assms in \<open>simp_all add: recUpdate_def\<close>)

lemma recDelete_safe: "recDelete obj m = (go, m') \<Longrightarrow> pods_safe S adm m \<Longrightarrow> pods_safe S adm m'"
  by (cases obj) (auto simp: recDelete_def DeleteRegularCPUBoost_def pods_safe_def)

lemma mgrUpsertPod_safe:
  assumes "mgrUpsertPod (clDeps S) rt p m = Some (b, e, m')" and "pods_safe S adm m"
  shows "pods_safe S adm m'"
proof (cases "getMatchingBoost rt (podAt m p) m")
  case None
  with assms show ?thesis by (auto simp: mgrUpsertPod_def pods_safe_def)
next
  case (Some r)
  with assms(1) obtain m1 where u: "boostUpsertPod (clDeps S) rt r p m = Some (e, m1)" "m' = (if e = None then deleteOrphan m1 p else m1)"
    by (auto simp: mgrUpsertPod_def bind_eq_Some_conv)
  from boostUpsertPod_safe [OF u(1) assms(2)] deleteOrphan_safe u(2) show ?thesis by simp
qed

lemma podCreate_safe: "podCreate (clDeps S) rt obj m = Some (reqs, m') \<Longrightarrow> pods_safe S adm m \<Longrightarrow> pods_safe S adm m'"
  by (cases obj) (auto simp: podCreate_def bind_eq_Some_conv dest: mgrUpsertPod_safe)

lemma podUpdate_safe: "podUpdate (clDeps S) rt old obj m = Some (reqs, m') \<Longrightarrow> pods_safe S adm m \<Longrightarrow> pods_safe S adm m'"
  by (cases obj; cases old) (auto simp: podUpdate_def bind_eq_Some_conv split: if_splits dest: mgrUpsertPod_safe)

lemma podDelete_safe:
  assumes "podDelete (clDeps S) rt obj m = (reqs, m')" and "pods_safe S adm m"
  shows "pods_safe S adm m'"
proof (cases obj)
  case (PodObj p)
  have "pods_safe S adm (snd (boostDeletePod (clDeps S) rt r p m))" for r
  proof (rule pods_safe_step [OF assms(2)])
    show "legacyRevertMode (boostAt (snd (boostDeletePod (clDeps S) rt r p m)) r') = legacyRevertMode (boostAt m r')" for r'
      by (rule same_identity_fields(6) [OF frame_identity [OF boostDeletePod_frame]])
  qed (simp_all add: boostDeletePod_def Let_def setBoost_def)
  then have "pods_safe S adm m1" if "boostDeletePod (clDeps S) rt r p m = (e, m1)" for r e m1 using that by (metis snd_conv)
  then show ?thesis using assms(1) deleteOrphan_safe [OF assms(2)]
    by (cases "getMatchingBoost rt (podAt m p) m") (auto simp: podDelete_def PodObj mgrDeletePod_def split: prod.splits)
qed (use assms in \<open>simp_all add: podDelete_def\<close>)

end

section \<open>The life of a cluster\<close>

text \<open>What the server makes of the answer of the webhook to the request for the pod \<open>x0\<close>.\<close>

definition accepted :: "'q json_api \<Rightarrow> admission_response \<Rightarrow> 'q pod \<Rightarrow> 'q pod \<Rightarrow> bool" where
  "accepted J resp x0 y \<longleftrightarrow>
     (case resp of
        Allowed _ \<Rightarrow> y = x0
      | PatchResponseFromRaw _ marshaled \<Rightarrow> MarshalPod J y = Inr marshaled
      | Errored _ _ \<Rightarrow> False)"

text \<open>The server stores a new pod, under a name that was never used; it may fill in fields such as the name.\<close>

definition pod_stored :: "('q, 'd, 'w) cluster \<Rightarrow> 'q admissions \<Rightarrow> 'q pod \<Rightarrow> 'q pod \<Rightarrow> ('q, 'w) manager \<Rightarrow> 'w \<Rightarrow> bool" where
  "pod_stored S adm y s m w' \<longleftrightarrow> podContainers s = podContainers y \<and> boost_note s = boost_note y \<and>
     adm (podKey s) = None \<and> (\<forall>p. podKey (podAt m p) \<noteq> podKey s) \<and> clVersions S (apiState m) (podKey s) = {} \<and>
     clStored S w' = (clStored S (apiState m))(podKey s \<mapsto> s) \<and>
     (\<forall>k. clVersions S w' k \<subseteq> clVersions S (apiState m) k \<union> {x. clStored S w' k = Some x})"

definition valid_request :: "'q pod \<Rightarrow> bool" where
  "valid_request x0 \<longleftrightarrow> distinct (map ctrName (podContainers x0)) \<and> (\<forall>c \<in> set (podContainers x0). ascii_string (ctrName c)) \<and>
     boost_note x0 = None"

text \<open>Others change pods, but neither their containers nor the note of the boost, and delete them.\<close>

definition others_change :: "('q, 'd, 'w) cluster \<Rightarrow> 'w \<Rightarrow> 'w \<Rightarrow> bool" where
  "others_change S w w' \<longleftrightarrow>
     (\<forall>k. clVersions S w' k \<subseteq> clVersions S w k \<union> {x. clStored S w' k = Some x}) \<and>
     (\<forall>k s'. clStored S w' k = Some s' \<longrightarrow>
        (\<exists>s. clStored S w k = Some s \<and> podContainers s' = podContainers s \<and> boost_note s' = boost_note s))"

text \<open>
  The steps: requests that pass the webhook or miss it, changes by others, informers that deliver a version of
  a pod, events of boosts and of pods, reverts of any pod by any boost, as the manager's checks do them, and
  reconciliations, which do not touch pods.
\<close>

inductive sys_step ::
  "('q, 'd, 'w) cluster \<Rightarrow> 'q admissions \<times> ('q, 'w) manager \<Rightarrow> 'q admissions \<times> ('q, 'w) manager \<Rightarrow> bool"
  for S :: "('q, 'd, 'w) cluster" where
  admitted: "Handle (clDeps S) rt decode raw hdl req m = Some resp \<Longrightarrow> decode (req :: string) = Inr x0 \<Longrightarrow>
    valid_request x0 \<Longrightarrow> rfc3339_time (timeNow rt) \<Longrightarrow> accepted (dJ (clDeps S)) resp x0 y \<Longrightarrow>
    pod_stored S adm y s m w' \<Longrightarrow> sys_step S (adm, m) (adm(podKey s \<mapsto> (x0, s)), m\<lparr>apiState := w'\<rparr>)"
| bypassed: "valid_request x0 \<Longrightarrow> pod_stored S adm x0 s m w' \<Longrightarrow>
    sys_step S (adm, m) (adm(podKey s \<mapsto> (x0, s)), m\<lparr>apiState := w'\<rparr>)"
| changed: "others_change S (apiState m) w' \<Longrightarrow> sys_step S (adm, m) (adm, m\<lparr>apiState := w'\<rparr>)"
| delivered: "x \<in> clVersions S (apiState m) k \<Longrightarrow> sys_step S (adm, m) (adm, snd (allocPods [x] m))"
| boost_created: "recCreate (clDeps S) rt rec obj m = Some (go, m') \<Longrightarrow> LegacyRevertMode rec = clLegacy S \<Longrightarrow>
    sys_step S (adm, m) (adm, m')"
| boost_updated: "recUpdate (clDeps S) rt obj m = Some (go, m') \<Longrightarrow> sys_step S (adm, m) (adm, m')"
| boost_deleted: "recDelete obj m = (go, m') \<Longrightarrow> sys_step S (adm, m) (adm, m')"
| pod_created: "podCreate (clDeps S) rt obj m = Some (reqs, m') \<Longrightarrow> sys_step S (adm, m) (adm, m')"
| pod_updated: "podUpdate (clDeps S) rt old obj m = Some (reqs, m') \<Longrightarrow> sys_step S (adm, m) (adm, m')"
| pod_deleted: "podDelete (clDeps S) rt obj m = (reqs, m') \<Longrightarrow> sys_step S (adm, m) (adm, m')"
| reverted: "RevertResources (clDeps S) rt r p m = Some (e, m') \<Longrightarrow> sys_step S (adm, m) (adm, m')"
| reconciled: "Reconcile C setCond rt ns n m = (res, err, m') \<Longrightarrow> clStored S (apiState m') = clStored S (apiState m) \<Longrightarrow>
    clVersions S (apiState m') = clVersions S (apiState m) \<Longrightarrow> sys_step S (adm, m) (adm, m')"
| running: "sys_step S (adm, m) (adm, setRunning b m)"

inductive sys_reachable :: "('q, 'd, 'w) cluster \<Rightarrow> 'q admissions \<times> ('q, 'w) manager \<Rightarrow> bool"
  for S :: "('q, 'd, 'w) cluster" where
  start: "(\<And>r. legacyRevertMode (boostAt h r) = clLegacy S) \<Longrightarrow> sys_reachable S (Map.empty, NewManager client h)"
| step: "sys_reachable S s \<Longrightarrow> sys_step S s s' \<Longrightarrow> sys_reachable S s'"

text \<open>The checks of the manager, with all their goroutines, are such steps.\<close>

lemma check_is_run:
  "(pipe_step (clDeps S) n)\<^sup>*\<^sup>* t t' \<Longrightarrow> (sys_step S)\<^sup>*\<^sup>* (adm, pipeMgr t) (adm, pipeMgr t')"
proof (induction rule: rtranclp_induct)
  case (step t1 t2)
  from step.hyps(2) have "(sys_step S)\<^sup>=\<^sup>= (adm, pipeMgr t1) (adm, pipeMgr t2)"
    by (cases rule: pipe_step.cases) (auto intro: sys_step.reverted)
  with step.IH show ?case by (auto intro: rtranclp.rtrancl_into_rtrancl)
qed simp

lemma original_refl: "original val x0 (podContainers x0)"
  by (simp add: original_def restored_def same_resources_def list_all2_refl)

lemma recoverableI:
  assumes "RevertResourceBoost Q J x = Some (q, None)" and "original val x0 (podContainers q)"
  shows "recoverable Q J val x0 (boost_note x) (podContainers x)"
proof -
  obtain p1 where p1: "revertBoostResources Q J x = Some (p1, None)" "revertBoostLabels p1 = Some (q, None)"
    by (rule RevertResourceBoost_parts [OF assms(1)])
  from p1(1) obtain s b where "boost_note x = Some s" "UnmarshalAnnotation J s = Inr b"
    "revertContainers Q b (podContainers x) = Some (podContainers p1, None)"
    by (auto simp: revertBoostResources_def BoostAnnotationFromPod_def bind_eq_Some_conv split: option.splits sum.splits)
  with assms(2) revert_fields_labels(3) [OF p1(2)] show ?thesis by (simp add: recoverable_def)
qed

context pod_system
begin

text \<open>The webhook.\<close>

lemma Handle_recoverable:
  assumes "Handle (clDeps S) rt decode raw hdl req m = Some resp" and "decode req = Inr x0" and v: "valid_request x0"
    and t: "rfc3339_time (timeNow rt)" and a: "accepted (dJ (clDeps S)) resp x0 y"
  shows "recoverable (dQ (clDeps S)) (dJ (clDeps S)) (clVal S) x0 (boost_note y) (podContainers y)"
proof -
  have "y = x0 \<or> (\<exists>q. RevertResourceBoost (dQ (clDeps S)) (dJ (clDeps S)) y = Some (q, None) \<and> reverts_to (clVal S) x0 q)"
  proof (cases "GetCPUBoostForPod rt x0 m")
    case None
    with assms show ?thesis by (auto simp: Handle_def accepted_def)
  next
    case (Some r)
    have n: "distinct (map ctrName (podContainers x0))" "\<forall>c \<in> set (podContainers x0). ascii_string (ctrName c)"
      using v by (simp_all add: valid_request_def)
    obtain y' where y': "boostContainerResources (dQ (clDeps S)) (dJ (clDeps S)) rt hdl (boostAt m r) x0 = Some y'"
      "y' = x0 \<or> (\<exists>q. RevertResourceBoost (dQ (clDeps S)) (dJ (clDeps S)) y' = Some (q, None) \<and> reverts_to (clVal S) x0 q)"
      using boost_then_revert [OF n t] by blast
    obtain d where d: "MarshalPod (dJ (clDeps S)) y' = Inr d" using marshals by blast
    have "MarshalPod (dJ (clDeps S)) y = Inr d" using assms(1,2) a Some y'(1) d by (auto simp: Handle_def accepted_def)
    with d have "y = y'" using marshal_inj by blast
    with y'(2) show ?thesis by simp
  qed
  then show ?thesis
  proof
    assume "y = x0"
    then show ?thesis using v original_refl by (simp add: recoverable_def valid_request_def)
  next
    assume "\<exists>q. RevertResourceBoost (dQ (clDeps S)) (dJ (clDeps S)) y = Some (q, None) \<and> reverts_to (clVal S) x0 q"
    then show ?thesis by (auto simp: reverts_to_def original_def intro: recoverableI)
  qed
qed

lemma pod_stored_safe:
  assumes m: "pods_safe S adm m" and n: "pod_stored S adm y s m w'"
    and r: "recoverable (dQ (clDeps S)) (dJ (clDeps S)) (clVal S) x0 (boost_note y) (podContainers y)"
  shows "pods_safe S (adm(podKey s \<mapsto> (x0, s))) (m\<lparr>apiState := w'\<rparr>)"
proof -
  let ?k = "podKey s"
  let ?adm = "adm(?k \<mapsto> (x0, s))"
  have y: "podContainers s = podContainers y" "boost_note s = boost_note y"
    and fresh: "\<And>p. podKey (podAt m p) \<noteq> ?k" "clVersions S (apiState m) ?k = {}"
    and st: "clStored S w' = (clStored S (apiState m))(?k \<mapsto> s)"
    and vs: "\<And>k. clVersions S w' k \<subseteq> clVersions S (apiState m) k \<union> {x. clStored S w' k = Some x}"
    using n unfolding pod_stored_def by blast+
  have "version_of (dQ (clDeps S)) (dJ (clDeps S)) (clVal S) (x0, s) s" using r by (simp add: version_of_def y)
  moreover have "settled S x0 w' ?k" if "original (clVal S) x0 (podContainers s)" using that by (simp add: settled_def st)
  ultimately have s: "safe_pod S ?adm w' s" unfolding safe_pod_def by simp
  have other: "safe_pod S ?adm w' x" if "safe_pod S adm (apiState m) x" "podKey x \<noteq> ?k" for x
  proof -
    have e1: "?adm (podKey x) = adm (podKey x)" by (rule fun_upd_other [OF that(2)])
    have e2: "clStored S w' (podKey x) = clStored S (apiState m) (podKey x)" unfolding st by (rule fun_upd_other [OF that(2)])
    show ?thesis using that(1) unfolding safe_pod_def settled_def e1 e2 .
  qed
  have v: "safe_pod S ?adm w' x" if x: "x \<in> clVersions S w' k" for x k
  proof (cases "k = ?k")
    case True
    then have "x = s" using x vs [of k] fresh(2) st by auto
    with s show ?thesis by simp
  next
    case False
    then have e: "clStored S w' k = clStored S (apiState m) k" unfolding st by (rule fun_upd_other)
    have xm: "x \<in> clVersions S (apiState m) k" using x vs [of k] current [of "apiState m" k x] unfolding e by blast
    with versions_key False have "podKey x \<noteq> ?k" by metis
    with xm m other show ?thesis unfolding pods_safe_def world_safe_def by blast
  qed
  have "safe_pod S ?adm w' (podAt m p)" for p using m fresh(1) other unfolding pods_safe_def by blast
  with m v show ?thesis unfolding pods_safe_def world_safe_def by simp
qed

lemma others_change_safe:
  assumes "others_change S w w'"
  shows "world_step S adm w w'"
proof -
  have vs: "clVersions S w' k \<subseteq> clVersions S w k \<union> {x. clStored S w' k = Some x}" for k
    using assms unfolding others_change_def by blast
  have st: "\<exists>s. clStored S w k = Some s \<and> podContainers s' = podContainers s \<and> boost_note s' = boost_note s"
    if "clStored S w' k = Some s'" for k s' using assms that unfolding others_change_def by blast
  have "settled S x0 w k \<Longrightarrow> settled S x0 w' k" for x0 k using st unfolding settled_def by metis
  then have s: "safe_pod S adm w x \<Longrightarrow> safe_pod S adm w' x" for x unfolding safe_pod_def by blast
  have "safe_pod S adm w' x" if x: "x \<in> clVersions S w' k" and w: "world_safe S adm w" for x k
  proof (cases "x \<in> clVersions S w k")
    case True
    then show ?thesis using w s unfolding world_safe_def by blast
  next
    case False
    then have x': "clStored S w' k = Some x" using x vs [of k] by blast
    from st [OF this] obtain y where y: "clStored S w k = Some y" "podContainers x = podContainers y" "boost_note x = boost_note y" by blast
    have k: "podKey x = podKey y" using stored_key [OF x'] stored_key [OF y(1)] by simp
    have "safe_pod S adm w' y" using w s current [OF y(1)] unfolding world_safe_def by blast
    then show ?thesis unfolding safe_pod_def version_of_def k y(2,3) .
  qed
  with s show ?thesis unfolding world_step_def world_safe_def by blast
qed

lemma sys_step_safe:
  assumes "sys_step S (adm, m) (adm', m')" and m: "pods_safe S adm m"
  shows "pods_safe S adm' m'"
  using assms(1)
proof (cases rule: sys_step.cases)
  case (admitted rt decode raw hdl req resp x0 y s w')
  show ?thesis
    unfolding admitted(1,2) by (rule pod_stored_safe [OF m admitted(8) Handle_recoverable [OF admitted(3-7)]])
next
  case (bypassed x0 s w')
  have "recoverable (dQ (clDeps S)) (dJ (clDeps S)) (clVal S) x0 (boost_note x0) (podContainers x0)"
    using bypassed(3) original_refl by (simp add: recoverable_def valid_request_def)
  from pod_stored_safe [OF m bypassed(4) this] show ?thesis unfolding bypassed(1,2) .
next
  case (changed w')
  show ?thesis unfolding changed(1,2)
    by (rule pods_safe_step [OF m]) (simp_all add: others_change_safe [OF changed(3)])
next
  case (delivered x k)
  have "safe_pod S adm (apiState m) x" using m delivered(3) unfolding pods_safe_def world_safe_def by blast
  then show ?thesis unfolding delivered(1,2) by (intro allocPods_safe [OF m]) simp
next
  case (boost_created rt rec obj go)
  from recCreate_safe [OF boost_created(2,3) m] show ?thesis unfolding boost_created(1) .
next
  case (boost_updated rt obj go)
  from recUpdate_safe [OF boost_updated(2) m] show ?thesis unfolding boost_updated(1) .
next
  case (boost_deleted obj go)
  from recDelete_safe [OF boost_deleted(2) m] show ?thesis unfolding boost_deleted(1) .
next
  case (pod_created rt obj reqs)
  from podCreate_safe [OF pod_created(2) m] show ?thesis unfolding pod_created(1) .
next
  case (pod_updated rt old obj reqs)
  from podUpdate_safe [OF pod_updated(2) m] show ?thesis unfolding pod_updated(1) .
next
  case (pod_deleted rt obj reqs)
  from podDelete_safe [OF pod_deleted(2) m] show ?thesis unfolding pod_deleted(1) .
next
  case (reverted rt r p e)
  then show ?thesis using revertResources_safe [OF m] unfolding RevertResources_def by blast
next
  case (reconciled C setCond rt ns n res err)
  obtain w where w: "m' = m\<lparr>apiState := w\<rparr>" using Reconcile_world [OF reconciled(2)] by blast
  show ?thesis unfolding reconciled(1)
  proof (rule pods_safe_step [OF m])
    show "world_step S adm (apiState m) (apiState m')" by (rule same_store) (simp_all add: reconciled(3,4))
  qed (simp_all add: w)
next
  case (running b)
  with m show ?thesis by (simp add: setRunning_def pods_safe_def)
qed

lemma sys_reachable_safe: "sys_reachable S s \<Longrightarrow> pods_safe S (fst s) (snd s)"
proof (induction rule: sys_reachable.induct)
  case (start h client)
  then show ?case by (simp add: pods_safe_def safe_pod_def world_safe_def NewManager_def heap.defs manager.defs)
next
  case (step s s')
  then show ?case using sys_step_safe [of "fst s" "snd s" "fst s'" "snd s'"] by simp
qed

lemma reverted_original:
  assumes "pods_safe S adm m" and "adm k = Some (x0, y)" and "clStored S (apiState m) k = Some s"
  shows "recoverable (dQ (clDeps S)) (dJ (clDeps S)) (clVal S) x0 (boost_note s) (podContainers s)"
proof -
  have "safe_pod S adm (apiState m) s" using assms(1) current [OF assms(3)] unfolding pods_safe_def world_safe_def by blast
  moreover have "podKey s = k" by (rule stored_key [OF assms(3)])
  ultimately show ?thesis using assms(2) by (simp add: safe_pod_def version_of_def)
qed

end

section \<open>A cluster in memory\<close>

text \<open>The server in memory: with updates it may fail at will, with patches it does not.\<close>

definition table_cluster :: "bool \<Rightarrow> (int, int \<times> nat, table) cluster" where
  "table_cluster legacy = \<lparr>clDeps = table_deps\<lparr>dK := table_client legacy\<rparr>, clStored = table_stored, clVersions = table_versions,
     clVal = nano_val, clDecVal = dec_val, clLegacy = legacy\<rparr>"

lemma table_cluster_fields [simp]:
  "clStored (table_cluster legacy) = table_stored" "clVersions (table_cluster legacy) = table_versions"
  "clVal (table_cluster legacy) = nano_val" "clDecVal (table_cluster legacy) = dec_val" "clLegacy (table_cluster legacy) = legacy"
  "dQ (clDeps (table_cluster legacy)) = nano_quantity" "dJ (clDeps (table_cluster legacy)) = table_json"
  "dK (clDeps (table_cluster legacy)) = table_client legacy" "dSel (clDeps (table_cluster legacy)) = sample_selector"
  by (simp_all add: table_cluster_def table_deps_def)

lemma table_resize_works:
  assumes "\<not> legacy" and "table_stored w (podKey p) \<noteq> None"
    and "PatchPod (table_client legacy) s (revertBoostResourcesPatchData nano_quantity table_json) p w = Some (e, p', w')"
  shows "e = None"
proof -
  obtain q e0 where "revertBoostResources nano_quantity table_json p = Some (q, e0)" using revertBoostResources_total by blast
  then obtain d where d: "revertBoostResourcesPatchData nano_quantity table_json (PodObject p) = Some (PodObject q, Inr d)"
    using tabj.resources_data by blast
  have "\<not> table_fails legacy w" using assms(1) by (simp add: table_fails_def)
  from table_patch_succeeds [of "revertBoostResourcesPatchData nano_quantity table_json" p q d legacy w s, OF d this assms(2)] assms(3)
  show ?thesis by (auto simp: table_client_def)
qed

interpretation tabsys: pod_system "table_cluster legacy" for legacy
proof -
  have "boosting nano_quantity nano_val dec_val table_json"
    by (rule boosting.intro [OF nano.quantity_laws_axioms tabc.annotation_codec_axioms])
  then show "pod_system (table_cluster legacy)"
    unfolding pod_system_def pod_system_axioms_def table_cluster_fields
    using tabh.pod_history_axioms table_resize_works by blast
qed

text \<open>A run of the cluster in memory: a boost is created, the webhook boosts a pod, and its object reaches the controller.\<close>

definition run_boost :: "int boost" where
  "run_boost = sample_boost\<lparr>legacyRevertMode := True\<rparr>"

definition empty_table :: table where
  "empty_table = \<lparr>tablePods = DAList.empty, tableHistory = [], tableFailures = []\<rparr>"

definition run_heap :: "(int, table) heap" where
  "run_heap = \<lparr>podAt = (\<lambda>_. sample_pod\<lparr>podName := ''''\<rparr>), nextPod = 0, boostAt = (\<lambda>_. run_boost), nextBoost = 0,
     metricsState = initMetrics, apiState = empty_table\<rparr>"

definition run_registered :: "(int, table) manager" where
  "run_registered = (NewManager True run_heap)\<lparr>nextBoost := 1, regularBoosts := nsoPut ''boost'' ''prod'' 0 newNamespacedObjects,
     timedBoosts := nsoPut ''boost'' ''prod'' 0 newNamespacedObjects, metricsState := NewBoostConfiguration ''prod'' initMetrics\<rparr>"

lemma run_boost_fields [simp]:
  "boostName run_boost = ''boost''" "boostNamespace run_boost = ''prod''" "legacyRevertMode run_boost"
  "Matches run_boost sample_pod" "DAList.lookup (durationPolicies run_boost) FixedDurationPolicyName \<noteq> None"
  by (simp_all add: run_boost_def sample_boost_def Matches_def sample_scb_def sample_pod_def label_selector_matches_def sample_labels_def
      mapDurationPolicy_def sample_spec_def lookup_update list_all_iff)

lemma run_new: "NewStartupCPUBoost sample_selector sample_scb True (NewManager True run_heap) = (Inr 0, (NewManager True run_heap)\<lparr>nextBoost := 1\<rparr>)"
  by (simp add: NewStartupCPUBoost_def sample_selector_def sample_scb_def sample_spec_def mapResourcePolicy_def policyOfSpec_def
      errors_Join_def NewManager_def run_heap_def heap.defs manager.defs run_boost_def sample_boost_def fun_upd_idem)

lemma run_created:
  "recCreate (clDeps (table_cluster True)) sample_rt \<lparr>LegacyRevertMode = True\<rparr> (BoostObj sample_scb) (NewManager True run_heap) = Some (True, run_registered)"
proof -
  have f: "boostAt (NewManager True run_heap) = (\<lambda>_. run_boost)" "metricsState (NewManager True run_heap) = initMetrics"
    "apiState (NewManager True run_heap) = empty_table" "hasClient (NewManager True run_heap)"
    by (simp_all add: NewManager_def run_heap_def heap.defs manager.defs)
  have l: "nsoList g ns newNamespacedObjects = ([] :: ref list)" for g ns by (simp add: nsoList_def newNamespacedObjects_def)
  have t: "ListPods (table_client True) ns k v empty_table = Inr []" for ns k v
    by (simp add: table_client_def table_list_def empty_table_def DAList.empty.rep_eq)
  obtain d where d: "DAList.lookup (durationPolicies run_boost) FixedDurationPolicyName = Some d" using run_boost_fields(5) by blast
  show ?thesis
    by (simp add: Let_def d recCreate_def run_new AddRegularCPUBoost_def postProcessNewBoost_def mapOrphanedPods_def syncBoostPods_def
        f l t nsoGet_new run_registered_def)
qed


lemma run_registered_fields [simp]:
  "podAt run_registered = (\<lambda>_. sample_pod\<lparr>podName := ''''\<rparr>)" "nextPod run_registered = 0" "boostAt run_registered = (\<lambda>_. run_boost)"
  "apiState run_registered = empty_table" "GetCPUBoostForPod sample_rt sample_pod run_registered = Some 0"
  by (simp_all add: run_registered_def NewManager_def run_heap_def heap.defs manager.defs GetCPUBoostForPod_def getMatchingBoost_def sample_nsoList)

lemma empty_versions: "table_versions empty_table k = {}"
  by (simp add: table_versions_def table_stored_def empty_table_def)

lemma table_put_failures: "tableFailures (table_put s empty_table) = []"
  by (simp add: table_put_def empty_table_def)

text \<open>The run up to the moment when the controller has the object of the boosted pod, at the reference 0.\<close>

lemma boosted_run:
  obtains m s q where "sys_reachable (table_cluster True) ([(''prod'', ''web-1'') \<mapsto> (sample_pod, s)], m)" "podAt m 0 = s"
    "podKey s = (''prod'', ''web-1'')" "boost_note s \<noteq> None" "RevertResourceBoost nano_quantity table_json s = Some (q, None)"
    "podKey q = (''prod'', ''web-1'')" "table_stored (apiState m) (''prod'', ''web-1'') = Some s" "tableFailures (apiState m) = []"
    "legacyRevertMode (boostAt m 0)"
proof -
  let ?S = "table_cluster True"
  have "case boostLoop nano_quantity (rangeOrder sample_rt) sample_handler run_boost
      (computePodQOS nano_quantity (rangeOrder sample_rt) sample_pod False)
      [0 ..< length (podContainers sample_pod)] (sample_pod, NewBoostAnnotation (timeNow sample_rt)) of
      Some (pod1, a) \<Rightarrow> map_len (InitCPURequests a) > 0 | None \<Rightarrow> False" by code_simp
  then obtain s q where s: "boostContainerResources nano_quantity table_json sample_rt sample_handler run_boost sample_pod = Some s"
    "RevertResourceBoost nano_quantity table_json s = Some (q, None)" "podKey q = (''prod'', ''web-1'')"
    by (rule boosted_by)
  have "same_key s q" by (rule RevertResourceBoost_parts [OF s(2)])
  with s(3) have k: "podNamespace s = ''prod''" "podName s = ''web-1''" by simp_all
  have "boost_note s \<noteq> None" using s(2)
    by (cases "boost_note s") (simp_all add: RevertResourceBoost_def revertBoostResources_def BoostAnnotationFromPod_def)
  let ?w = "table_put s empty_table" and ?m = "run_registered"
  have 0: "sys_reachable ?S (Map.empty, NewManager True run_heap)"
    by (rule sys_reachable.start) (simp add: run_heap_def)
  have 1: "sys_reachable ?S (Map.empty, ?m)"
    by (rule sys_reachable.step [OF 0], rule sys_step.boost_created [OF run_created]) simp
  have H: "Handle (clDeps ?S) sample_rt (\<lambda>_. Inr sample_pod) id sample_handler '''' ?m = Some (PatchResponseFromRaw '''' (pod_text s))"
    by (simp add: Handle_def s(1))
  have "pod_stored ?S Map.empty s s ?m ?w"
    using k table_versions_step(2) [of s empty_table] by (simp add: pod_stored_def empty_versions)
  moreover have "valid_request sample_pod" using sample_pod_plain(3,4) by (simp add: valid_request_def sample_pod_def map_get_def nil_map_def)
  moreover have "rfc3339_time (timeNow sample_rt)" by (simp add: rfc3339_time_def sample_rt_def)
  moreover have "accepted (dJ (clDeps ?S)) (PatchResponseFromRaw '''' (pod_text s)) sample_pod s" by (simp add: accepted_def)
  ultimately have "sys_step ?S (Map.empty, ?m) ([podKey s \<mapsto> (sample_pod, s)], ?m\<lparr>apiState := ?w\<rparr>)"
    using sys_step.admitted [OF H] by blast
  with 1 have 2: "sys_reachable ?S ([podKey s \<mapsto> (sample_pod, s)], ?m\<lparr>apiState := ?w\<rparr>)" by (rule sys_reachable.step)
  have "s \<in> clVersions ?S (apiState (?m\<lparr>apiState := ?w\<rparr>)) (podKey s)" by (simp add: table_versions_def)
  from sys_reachable.step [OF 2 sys_step.delivered [OF this]]
  have 3: "sys_reachable ?S ([podKey s \<mapsto> (sample_pod, s)], snd (allocPods [s] (?m\<lparr>apiState := ?w\<rparr>)))" .
  show thesis
    by (rule that [of s "snd (allocPods [s] (?m\<lparr>apiState := ?w\<rparr>))" q])
       (use 3 k s \<open>boost_note s \<noteq> None\<close> in \<open>simp_all add: allocPods_def Let_def table_put_failures\<close>)
qed



section \<open>Properties\<close>





end
