(* ===== verification/Go_Memory.thy ===== *)
theory Go_Memory
  imports Main "HOL-Library.Monad_Syntax"
begin

text \<open>
  The memory of a Go program as far as pointers and slices matter: numbered cells, of which those below a
  limit are allocated. A pointer is an address or nil, a slice is a part of the array in a cell. The locale
  \<open>copyable\<close> is the contract of a deep copy, and the lemmas below it compose deep copies of structures, pointers
  and slices from those of their parts.
\<close>

section \<open>Cells\<close>

type_synonym addr = nat

record 'c memory =
  cells :: "addr \<Rightarrow> 'c"
  nextAddr :: addr

definition fetch :: "'c memory \<Rightarrow> addr \<Rightarrow> 'c option" where
  "fetch m x = (if x < nextAddr m then Some (cells m x) else None)"

definition alloc :: "'c \<Rightarrow> 'c memory \<Rightarrow> addr \<times> 'c memory" where
  "alloc c m = (nextAddr m, m\<lparr>cells := (cells m)(nextAddr m := c), nextAddr := Suc (nextAddr m)\<rparr>)"

definition store :: "addr \<Rightarrow> 'c \<Rightarrow> 'c memory \<Rightarrow> 'c memory" where
  "store x c m = m\<lparr>cells := (cells m)(x := c)\<rparr>"

text \<open>A memory that only has more cells.\<close>

definition extends :: "'c memory \<Rightarrow> 'c memory \<Rightarrow> bool" where
  "extends m m' \<longleftrightarrow> nextAddr m \<le> nextAddr m' \<and> (\<forall>x < nextAddr m. cells m' x = cells m x)"

abbreviation new_cells :: "'c memory \<Rightarrow> 'c memory \<Rightarrow> addr set" where
  "new_cells m m' \<equiv> {nextAddr m ..< nextAddr m'}"

lemma extends_refl [simp]: "extends m m"
  by (simp add: extends_def)

lemma extends_trans [trans]: "extends m1 m2 \<Longrightarrow> extends m2 m3 \<Longrightarrow> extends m1 m3"
  by (auto simp: extends_def)

lemma extends_fetch: "extends m m' \<Longrightarrow> x < nextAddr m \<Longrightarrow> fetch m' x = fetch m x"
  by (auto simp: extends_def fetch_def)

lemma fetch_lt: "fetch m x = Some c \<Longrightarrow> x < nextAddr m"
  by (simp add: fetch_def split: if_splits)

lemma extends_alloc: "alloc c m = (y, m') \<Longrightarrow> extends m m' \<and> y = nextAddr m \<and> nextAddr m' = Suc y \<and> fetch m' y = Some c"
  by (auto simp: extends_def alloc_def fetch_def)

lemma nextAddr_store [simp]: "nextAddr (store x c m) = nextAddr m"
  by (simp add: store_def)

lemma fetch_store: "fetch (store x c m) z = (if z = x \<and> z < nextAddr m then Some c else fetch m z)"
  by (simp add: store_def fetch_def)

lemma extends_store: "extends m m' \<Longrightarrow> nextAddr m \<le> y \<Longrightarrow> extends m (store y c m')"
  by (simp add: extends_def store_def)

section \<open>The contract of a deep copy\<close>

text \<open>
  \<open>val m a\<close> is the value that the structure \<open>a\<close> stands for in the memory \<open>m\<close>, with all pointers followed;
  \<open>None\<close> for a structure with dangling pointers. \<open>reach m a\<close> are the cells that this value depends on. A deep
  copy of a structure with a value returns, changes no cell, and gives a structure of the
  same value in new cells only.
\<close>

locale copyable =
  fixes copy :: "'a \<Rightarrow> 'c memory \<Rightarrow> ('a \<times> 'c memory) option"
    and val :: "'c memory \<Rightarrow> 'a \<Rightarrow> 'v option"
    and reach :: "'c memory \<Rightarrow> 'a \<Rightarrow> addr set"
  assumes copies: "val m a = Some v \<Longrightarrow> \<exists>b m'. copy a m = Some (b, m') \<and> extends m m' \<and>
      val m' b = Some v \<and> reach m' b \<subseteq> new_cells m m'"
    and local_val: "val m a = Some v \<Longrightarrow> (\<And>x. x \<in> reach m a \<Longrightarrow> fetch m' x = fetch m x) \<Longrightarrow>
      val m' a = Some v \<and> reach m' a = reach m a"
    and allocated: "val m a = Some v \<Longrightarrow> reach m a \<subseteq> {..< nextAddr m}"
begin

lemma extends_val:
  assumes "val m a = Some v" and "extends m m'"
  shows "val m' a = Some v" and "reach m' a = reach m a"
  using local_val [OF assms(1)] allocated [OF assms(1)] extends_fetch [OF assms(2)] by blast+

lemma store_val:
  assumes "val m a = Some v" and "y \<notin> reach m a"
  shows "val (store y c m) a = Some v" and "reach (store y c m) a = reach m a"
proof -
  have "fetch (store y c m) x = fetch m x" if "x \<in> reach m a" for x
    using that assms(2) by (auto simp: fetch_store)
  from local_val [OF assms(1) this] show "val (store y c m) a = Some v" "reach (store y c m) a = reach m a" by blast+
qed

text \<open>The original and the copy are independent: nothing that is done to the cells of one reaches the other.\<close>

lemma copy_independent:
  assumes "val m a = Some v"
  obtains b m' where "copy a m = Some (b, m')" "extends m m'" "val m' a = Some v" "val m' b = Some v"
    "reach m' a \<inter> reach m' b = {}"
    "\<And>m''. (\<And>x. x \<notin> reach m' b \<Longrightarrow> fetch m'' x = fetch m' x) \<Longrightarrow> val m'' a = Some v"
    "\<And>m''. (\<And>x. x \<notin> reach m' a \<Longrightarrow> fetch m'' x = fetch m' x) \<Longrightarrow> val m'' b = Some v"
proof -
  obtain b m' where c: "copy a m = Some (b, m')" "extends m m'" "val m' b = Some v" "reach m' b \<subseteq> new_cells m m'"
    using copies [OF assms] by blast
  note a = extends_val [OF assms c(2)]
  have d: "reach m' a \<inter> reach m' b = {}" using allocated [OF assms] c(4) unfolding a(2) by fastforce
  show thesis
  proof (rule that [OF c(1,2) a(1) c(3) d])
    show "val m'' a = Some v" if "\<And>x. x \<notin> reach m' b \<Longrightarrow> fetch m'' x = fetch m' x" for m''
      using local_val [OF a(1), of m''] that d by blast
    show "val m'' b = Some v" if "\<And>x. x \<notin> reach m' a \<Longrightarrow> fetch m'' x = fetch m' x" for m''
      using local_val [OF c(3), of m''] that d by blast
  qed
qed

end

section \<open>Flat structures, pairs and structures\<close>

text \<open>\<^verbatim>\<open>*out = *in\<close> for a structure without pointers.\<close>

definition copyFlat :: "'a \<Rightarrow> 'c memory \<Rightarrow> ('a \<times> 'c memory) option" where
  "copyFlat a m = Some (a, m)"

interpretation flat: copyable copyFlat "\<lambda>m a. Some a" "\<lambda>m a. {}"
  by unfold_locales (auto simp: copyFlat_def)

definition copyBoth ::
  "('a \<Rightarrow> 'c memory \<Rightarrow> ('a \<times> 'c memory) option) \<Rightarrow> ('b \<Rightarrow> 'c memory \<Rightarrow> ('b \<times> 'c memory) option) \<Rightarrow>
   'a \<times> 'b \<Rightarrow> 'c memory \<Rightarrow> (('a \<times> 'b) \<times> 'c memory) option" where
  "copyBoth c1 c2 p m = do {
     (a, m1) \<leftarrow> c1 (fst p) m;
     (b, m2) \<leftarrow> c2 (snd p) m1;
     Some ((a, b), m2)
   }"

definition bothVal :: "('c memory \<Rightarrow> 'a \<Rightarrow> 'v option) \<Rightarrow> ('c memory \<Rightarrow> 'b \<Rightarrow> 'w option) \<Rightarrow>
    'c memory \<Rightarrow> 'a \<times> 'b \<Rightarrow> ('v \<times> 'w) option" where
  "bothVal v1 v2 m p = do { x \<leftarrow> v1 m (fst p); y \<leftarrow> v2 m (snd p); Some (x, y) }"

definition bothReach :: "('c memory \<Rightarrow> 'a \<Rightarrow> addr set) \<Rightarrow> ('c memory \<Rightarrow> 'b \<Rightarrow> addr set) \<Rightarrow>
    'c memory \<Rightarrow> 'a \<times> 'b \<Rightarrow> addr set" where
  "bothReach r1 r2 m p = r1 m (fst p) \<union> r2 m (snd p)"

lemma copyable_both:
  assumes "copyable c1 v1 r1" and "copyable c2 v2 r2"
  shows "copyable (copyBoth c1 c2) (bothVal v1 v2) (bothReach r1 r2)"
proof (rule copyable.intro)
  note f = copyable.copies [OF assms(1)] copyable.copies [OF assms(2)]
  fix m p w
  assume "bothVal v1 v2 m p = Some w"
  then obtain x y where w: "w = (x, y)" and x: "v1 m (fst p) = Some x" and y: "v2 m (snd p) = Some y"
    by (auto simp: bothVal_def bind_eq_Some_conv)
  show "bothReach r1 r2 m p \<subseteq> {..< nextAddr m}"
    using copyable.allocated [OF assms(1) x] copyable.allocated [OF assms(2) y] by (simp add: bothReach_def)
  show "bothVal v1 v2 m' p = Some w \<and> bothReach r1 r2 m' p = bothReach r1 r2 m p"
    if "\<And>z. z \<in> bothReach r1 r2 m p \<Longrightarrow> fetch m' z = fetch m z" for m'
    using copyable.local_val [OF assms(1) x, of m'] copyable.local_val [OF assms(2) y, of m'] that
    by (auto simp: bothReach_def bothVal_def w)
  obtain a m1 where a: "c1 (fst p) m = Some (a, m1)" "extends m m1" "v1 m1 a = Some x" "r1 m1 a \<subseteq> new_cells m m1"
    using f(1) [OF x] by blast
  obtain b m2 where b: "c2 (snd p) m1 = Some (b, m2)" "extends m1 m2" "v2 m2 b = Some y" "r2 m2 b \<subseteq> new_cells m1 m2"
    using f(2) [OF copyable.extends_val(1) [OF assms(2) y a(2)]] by blast
  note a' = copyable.extends_val [OF assms(1) a(3) b(2)]
  have "bothReach r1 r2 m2 (a, b) \<subseteq> new_cells m m2"
    using a(2,4) b(2,4) unfolding bothReach_def fst_conv snd_conv a'(2) by (fastforce simp: extends_def)
  then show "\<exists>q m'. copyBoth c1 c2 p m = Some (q, m') \<and> extends m m' \<and> bothVal v1 v2 m' q = Some w \<and>
      bothReach r1 r2 m' q \<subseteq> new_cells m m'"
    using a b a' extends_trans [OF a(2) b(2)]
    by (intro exI [of _ "(a, b)"] exI [of _ m2]) (simp add: copyBoth_def bothVal_def w)
qed

text \<open>A structure is a tuple of its fields under another name.\<close>

lemma copyable_struct:
  assumes "copyable c v r" and "\<And>a m. copy a m = map_option (map_prod put id) (c (get a) m)"
    and "\<And>x. get (put x) = x" and "\<And>m a. val m a = map_option f (v m (get a))" and "\<And>m a. reach m a = r m (get a)"
  shows "copyable copy val reach"
proof (rule copyable.intro)
  fix m a w
  assume "val m a = Some w"
  then obtain x where w: "w = f x" and x: "v m (get a) = Some x" by (auto simp: assms(4))
  show "reach m a \<subseteq> {..< nextAddr m}" using copyable.allocated [OF assms(1) x] by (simp add: assms(5))
  show "val m' a = Some w \<and> reach m' a = reach m a" if "\<And>z. z \<in> reach m a \<Longrightarrow> fetch m' z = fetch m z" for m'
    using copyable.local_val [OF assms(1) x, of m'] that by (simp add: assms(4,5) w)
  show "\<exists>b m'. copy a m = Some (b, m') \<and> extends m m' \<and> val m' b = Some w \<and> reach m' b \<subseteq> new_cells m m'"
    using copyable.copies [OF assms(1) x] by (auto simp: assms(2-5) w)
qed

section \<open>Pointers\<close>

text \<open>
  \<open>copyPointer\<close> is \<^verbatim>\<open>if in == nil { return nil }; out := new(T); in.DeepCopyInto(out)\<close>, which is also the pattern for a
  field that is a pointer. \<open>mk\<close> and \<open>un\<close> put the type in and out of a cell. The
  method starts with \<^verbatim>\<open>*out = *in\<close>, so that the new cell holds the shallow copy first.
\<close>

definition copyPointer ::
  "('a \<Rightarrow> 'c) \<Rightarrow> ('c \<Rightarrow> 'a option) \<Rightarrow> ('a \<Rightarrow> 'c memory \<Rightarrow> ('a \<times> 'c memory) option) \<Rightarrow>
   addr option \<Rightarrow> 'c memory \<Rightarrow> (addr option \<times> 'c memory) option" where
  "copyPointer mk un copyInto p m =
     (case p of
        None \<Rightarrow> Some (None, m)
      | Some x \<Rightarrow> do {
          c \<leftarrow> fetch m x;
          a \<leftarrow> un c;
          let (y, m1) = alloc (mk a) m;
          (b, m2) \<leftarrow> copyInto a m1;
          Some (Some y, store y (mk b) m2)
        })"

definition pointerVal :: "('c \<Rightarrow> 'a option) \<Rightarrow> ('c memory \<Rightarrow> 'a \<Rightarrow> 'v option) \<Rightarrow>
    'c memory \<Rightarrow> addr option \<Rightarrow> 'v option option" where
  "pointerVal un v m p =
     (case p of
        None \<Rightarrow> Some None
      | Some x \<Rightarrow> do { c \<leftarrow> fetch m x; a \<leftarrow> un c; w \<leftarrow> v m a; Some (Some w) })"

definition pointerReach :: "('c \<Rightarrow> 'a option) \<Rightarrow> ('c memory \<Rightarrow> 'a \<Rightarrow> addr set) \<Rightarrow>
    'c memory \<Rightarrow> addr option \<Rightarrow> addr set" where
  "pointerReach un r m p =
     (case p of
        None \<Rightarrow> {}
      | Some x \<Rightarrow> insert x (case Option.bind (fetch m x) un of None \<Rightarrow> {} | Some a \<Rightarrow> r m a))"

text \<open>What a structure in a cell of its own needs: the array of a slice is treated in the same way.\<close>

lemma cell_copied:
  assumes "copyable c v r" and "v m a = Some w" and "alloc k m = (y, m1)"
  obtains b m2 where "c a m1 = Some (b, m2)" "extends m (store y d m2)" "fetch (store y d m2) y = Some d"
    "v (store y d m2) b = Some w" "insert y (r (store y d m2) b) \<subseteq> new_cells m (store y d m2)"
proof -
  have y: "extends m m1" "y = nextAddr m" "nextAddr m1 = Suc y" using extends_alloc [OF assms(3)] by blast+
  obtain b m2 where b: "c a m1 = Some (b, m2)" "extends m1 m2" "v m2 b = Some w" "r m2 b \<subseteq> new_cells m1 m2"
    using copyable.copies [OF assms(1) copyable.extends_val(1) [OF assms(1,2) y(1)]] by blast
  have "y \<notin> r m2 b" using b(4) y(3) by auto
  note s = copyable.store_val [OF assms(1) b(3) this, of d]
  have n: "Suc y \<le> nextAddr m2" using b(2) y(3) by (simp add: extends_def)
  show thesis
  proof (rule that [OF b(1)])
    show "extends m (store y d m2)" by (rule extends_store [OF extends_trans [OF y(1) b(2)]]) (simp add: y(2))
    show "fetch (store y d m2) y = Some d" using n by (simp add: fetch_store)
    show "v (store y d m2) b = Some w" by (rule s(1))
    show "insert y (r (store y d m2) b) \<subseteq> new_cells m (store y d m2)"
      using b(4) n y(2,3) unfolding s(2) by auto
  qed
qed

lemma copyable_pointer:
  assumes "copyable c v r" and "\<And>a. un (mk a) = Some a"
  shows "copyable (copyPointer mk un c) (pointerVal un v) (pointerReach un r)"
proof (rule copyable.intro)
  fix m p w
  assume val: "pointerVal un v m p = Some w"
  show "pointerReach un r m p \<subseteq> {..< nextAddr m}"
    using val by (auto simp: pointerVal_def pointerReach_def bind_eq_Some_conv fetch_lt
        dest: copyable.allocated [OF assms(1), THEN subsetD] split: option.splits)
  show "pointerVal un v m' p = Some w \<and> pointerReach un r m' p = pointerReach un r m p"
    if same: "\<And>z. z \<in> pointerReach un r m p \<Longrightarrow> fetch m' z = fetch m z" for m'
  proof (cases p)
    case (Some x)
    then obtain k a u where x: "fetch m x = Some k" "un k = Some a" "v m a = Some u" "w = Some u"
      using val by (auto simp: pointerVal_def bind_eq_Some_conv)
    then have r: "pointerReach un r m p = insert x (r m a)" by (simp add: pointerReach_def Some)
    then have "fetch m' x = Some k" using same x(1) by simp
    moreover have "v m' a = Some u \<and> r m' a = r m a"
      using copyable.local_val [OF assms(1) x(3), of m'] same unfolding r by blast
    ultimately show ?thesis by (simp add: pointerVal_def pointerReach_def Some x)
  qed (use val in \<open>simp add: pointerVal_def pointerReach_def\<close>)
  show "\<exists>q m'. copyPointer mk un c p m = Some (q, m') \<and> extends m m' \<and> pointerVal un v m' q = Some w \<and>
      pointerReach un r m' q \<subseteq> new_cells m m'"
  proof (cases p)
    case (Some x)
    then obtain k a u where x: "fetch m x = Some k" "un k = Some a" "v m a = Some u" "w = Some u"
      using val by (auto simp: pointerVal_def bind_eq_Some_conv)
    obtain y m1 where y: "alloc (mk a) m = (y, m1)" by fastforce
    obtain b m2 where b: "c a m1 = Some (b, m2)" using cell_copied [OF assms(1) x(3) y] by metis
    show ?thesis
      by (rule cell_copied [OF assms(1) x(3) y, of "mk b"])
         (auto simp: copyPointer_def pointerVal_def pointerReach_def Some x y b assms(2))
  qed (use val in \<open>simp add: copyPointer_def pointerVal_def pointerReach_def\<close>)
qed

section \<open>Slices\<close>

text \<open>A slice is the part of the array in a cell from an offset on, or nil.\<close>

record slice =
  sliceBase :: addr
  sliceOffset :: nat
  sliceLen :: nat

definition sliceItems :: "slice \<Rightarrow> 'a list \<Rightarrow> 'a list option" where
  "sliceItems s arr =
     (if sliceOffset s + sliceLen s \<le> length arr then Some (take (sliceLen s) (drop (sliceOffset s) arr)) else None)"

fun copyItems :: "('a \<Rightarrow> 'c memory \<Rightarrow> ('a \<times> 'c memory) option) \<Rightarrow> 'a list \<Rightarrow> 'c memory \<Rightarrow> ('a list \<times> 'c memory) option" where
  "copyItems c [] m = Some ([], m)"
| "copyItems c (a # as) m = do {
     (b, m1) \<leftarrow> c a m;
     (bs, m2) \<leftarrow> copyItems c as m1;
     Some (b # bs, m2)
   }"

text \<open>\<^verbatim>\<open>make([]T, len(in))\<close> and the loop that copies the items into it.\<close>

definition copySlice ::
  "('a list \<Rightarrow> 'c) \<Rightarrow> ('c \<Rightarrow> 'a list option) \<Rightarrow> ('a \<Rightarrow> 'c memory \<Rightarrow> ('a \<times> 'c memory) option) \<Rightarrow>
   slice option \<Rightarrow> 'c memory \<Rightarrow> (slice option \<times> 'c memory) option" where
  "copySlice mk un copyInto s m =
     (case s of
        None \<Rightarrow> Some (None, m)
      | Some sl \<Rightarrow> do {
          c \<leftarrow> fetch m (sliceBase sl);
          arr \<leftarrow> un c;
          items \<leftarrow> sliceItems sl arr;
          let (y, m1) = alloc (mk items) m;
          (bs, m2) \<leftarrow> copyItems copyInto items m1;
          Some (Some \<lparr>sliceBase = y, sliceOffset = 0, sliceLen = length items\<rparr>, store y (mk bs) m2)
        })"

definition itemsVal :: "('c memory \<Rightarrow> 'a \<Rightarrow> 'v option) \<Rightarrow> 'c memory \<Rightarrow> 'a list \<Rightarrow> 'v list option" where
  "itemsVal v m as = those (map (v m) as)"

definition itemsReach :: "('c memory \<Rightarrow> 'a \<Rightarrow> addr set) \<Rightarrow> 'c memory \<Rightarrow> 'a list \<Rightarrow> addr set" where
  "itemsReach r m as = \<Union> (r m ` set as)"

text \<open>A nil slice has no items.\<close>

definition sliceVal :: "('c \<Rightarrow> 'a list option) \<Rightarrow> ('c memory \<Rightarrow> 'a \<Rightarrow> 'v option) \<Rightarrow>
    'c memory \<Rightarrow> slice option \<Rightarrow> 'v list option" where
  "sliceVal un v m s =
     (case s of
        None \<Rightarrow> Some []
      | Some sl \<Rightarrow> do { c \<leftarrow> fetch m (sliceBase sl); arr \<leftarrow> un c; items \<leftarrow> sliceItems sl arr; itemsVal v m items })"

definition sliceReach :: "('c \<Rightarrow> 'a list option) \<Rightarrow> ('c memory \<Rightarrow> 'a \<Rightarrow> addr set) \<Rightarrow>
    'c memory \<Rightarrow> slice option \<Rightarrow> addr set" where
  "sliceReach un r m s =
     (case s of
        None \<Rightarrow> {}
      | Some sl \<Rightarrow> insert (sliceBase sl)
          (case Option.bind (Option.bind (fetch m (sliceBase sl)) un) (sliceItems sl) of
             None \<Rightarrow> {} | Some items \<Rightarrow> itemsReach r m items))"

lemma items_simps [simp]:
  "itemsVal v m [] = Some []" "itemsReach r m [] = {}"
  "itemsVal v m (a # as) = do { x \<leftarrow> v m a; xs \<leftarrow> itemsVal v m as; Some (x # xs) }"
  "itemsReach r m (a # as) = r m a \<union> itemsReach r m as"
  by (auto simp: itemsVal_def itemsReach_def split: option.splits bind_splits)

lemma items_local:
  assumes "copyable c v r"
  shows "itemsVal v m as = Some ws \<Longrightarrow> (\<And>x. x \<in> itemsReach r m as \<Longrightarrow> fetch m' x = fetch m x) \<Longrightarrow>
    itemsVal v m' as = Some ws \<and> itemsReach r m' as = itemsReach r m as"
proof (induction as arbitrary: ws)
  case (Cons a as)
  then obtain x xs where x: "v m a = Some x" "itemsVal v m as = Some xs" "ws = x # xs"
    by (auto simp: bind_eq_Some_conv)
  have "v m' a = Some x \<and> r m' a = r m a"
    using copyable.local_val [OF assms x(1), of m'] Cons.prems(2) by simp
  moreover have "itemsVal v m' as = Some xs \<and> itemsReach r m' as = itemsReach r m as"
    using Cons.IH [OF x(2)] Cons.prems(2) by simp
  ultimately show ?case by (simp add: x(3))
qed simp

lemma items_allocated:
  assumes "copyable c v r"
  shows "itemsVal v m as = Some ws \<Longrightarrow> itemsReach r m as \<subseteq> {..< nextAddr m}"
  by (induction as arbitrary: ws) (auto simp: bind_eq_Some_conv dest: copyable.allocated [OF assms])

lemma items_copied:
  assumes "copyable c v r"
  shows "itemsVal v m as = Some ws \<Longrightarrow> \<exists>bs m'. copyItems c as m = Some (bs, m') \<and> extends m m' \<and>
      length bs = length as \<and> itemsVal v m' bs = Some ws \<and> itemsReach r m' bs \<subseteq> new_cells m m'"
proof (induction as arbitrary: m ws)
  case (Cons a as)
  then obtain x xs where x: "v m a = Some x" "itemsVal v m as = Some xs" "ws = x # xs"
    by (auto simp: bind_eq_Some_conv)
  obtain b m1 where b: "c a m = Some (b, m1)" "extends m m1" "v m1 b = Some x" "r m1 b \<subseteq> new_cells m m1"
    using copyable.copies [OF assms x(1)] by blast
  have "itemsVal v m1 as = Some xs"
    using items_local [OF assms x(2), of m1] items_allocated [OF assms x(2)] extends_fetch [OF b(2)] by blast
  from Cons.IH [OF this] obtain bs m2 where bs: "copyItems c as m1 = Some (bs, m2)" "extends m1 m2"
    "length bs = length as" "itemsVal v m2 bs = Some xs" "itemsReach r m2 bs \<subseteq> new_cells m1 m2" by blast
  note b' = copyable.extends_val [OF assms b(3) bs(2)]
  have "itemsReach r m2 (b # bs) \<subseteq> new_cells m m2"
    using b(2,4) bs(2,5) unfolding items_simps b'(2) by (fastforce simp: extends_def)
  with b bs b' extends_trans [OF b(2) bs(2)] show ?case
    by (intro exI [of _ "b # bs"] exI [of _ m2]) (simp add: x(3))
qed simp

lemma copyable_items:
  assumes "copyable c v r"
  shows "copyable (copyItems c) (itemsVal v) (itemsReach r)"
  using items_copied [OF assms] items_local [OF assms] items_allocated [OF assms]
  by (intro copyable.intro) blast+

lemma sliceItems_all: "sliceItems \<lparr>sliceBase = y, sliceOffset = 0, sliceLen = length bs\<rparr> bs = Some bs"
  by (simp add: sliceItems_def)

lemma slice_parts:
  assumes "sliceVal un v m (Some sl) = Some w"
  obtains k arr items where "fetch m (sliceBase sl) = Some k" "un k = Some arr" "sliceItems sl arr = Some items"
    "itemsVal v m items = Some w" "sliceReach un r m (Some sl) = insert (sliceBase sl) (itemsReach r m items)"
  using assms by (auto simp: sliceVal_def sliceReach_def bind_eq_Some_conv)

lemma slice_local:
  assumes "copyable c v r" and "sliceVal un v m (Some sl) = Some w"
    and same: "\<And>z. z \<in> sliceReach un r m (Some sl) \<Longrightarrow> fetch m' z = fetch m z"
  shows "sliceVal un v m' (Some sl) = Some w \<and> sliceReach un r m' (Some sl) = sliceReach un r m (Some sl)"
  using assms(2)
proof (rule slice_parts [where r = r])
  fix k arr items
  assume x: "fetch m (sliceBase sl) = Some k" "un k = Some arr" "sliceItems sl arr = Some items"
    "itemsVal v m items = Some w" and r: "sliceReach un r m (Some sl) = insert (sliceBase sl) (itemsReach r m items)"
  have "fetch m' (sliceBase sl) = Some k" using same r x(1) by simp
  moreover have "itemsVal v m' items = Some w \<and> itemsReach r m' items = itemsReach r m items"
    using items_local [OF assms(1) x(4), of m'] same unfolding r by blast
  ultimately show ?thesis unfolding r by (simp add: sliceVal_def sliceReach_def x)
qed

lemma slice_copied:
  assumes "copyable c v r" and "\<And>as. un (mk as) = Some as" and "sliceVal un v m (Some sl) = Some w"
  shows "\<exists>q m'. copySlice mk un c (Some sl) m = Some (q, m') \<and> extends m m' \<and> sliceVal un v m' q = Some w \<and>
    sliceReach un r m' q \<subseteq> new_cells m m'"
  using assms(3)
proof (rule slice_parts [where r = r])
  fix k arr items
  assume x: "fetch m (sliceBase sl) = Some k" "un k = Some arr" "sliceItems sl arr = Some items"
    "itemsVal v m items = Some w"
  obtain y m1 where y: "alloc (mk items) m = (y, m1)" by fastforce
  note cell = cell_copied [OF copyable_items [OF assms(1)] x(4) y]
  obtain bs m2 where b: "copyItems c items m1 = Some (bs, m2)" using cell by metis
  have "itemsVal v m1 items = Some w"
    using extends_alloc [OF y] copyable.extends_val(1) [OF copyable_items [OF assms(1)] x(4)] by blast
  from items_copied [OF assms(1) this] b have len: "length items = length bs" by simp
  show ?thesis
    by (rule cell [of "mk bs"])
       (auto simp: copySlice_def sliceVal_def sliceReach_def x y b len assms(2) sliceItems_all)
qed

lemma copyable_slice:
  assumes "copyable c v r" and "\<And>as. un (mk as) = Some as"
  shows "copyable (copySlice mk un c) (sliceVal un v) (sliceReach un r)"
proof (rule copyable.intro)
  fix m s w
  assume val: "sliceVal un v m s = Some w"
  show "sliceReach un r m s \<subseteq> {..< nextAddr m}"
  proof (cases s)
    case (Some sl)
    show ?thesis using val unfolding Some
      by (rule slice_parts [where r = r]) (use items_allocated [OF assms(1)] in \<open>auto simp: fetch_lt\<close>)
  qed (simp add: sliceReach_def)
  show "sliceVal un v m' s = Some w \<and> sliceReach un r m' s = sliceReach un r m s"
    if "\<And>z. z \<in> sliceReach un r m s \<Longrightarrow> fetch m' z = fetch m z" for m'
    using slice_local [OF assms(1), of un m _ w m'] val that by (cases s) (auto simp: sliceVal_def sliceReach_def)
  show "\<exists>q m'. copySlice mk un c s m = Some (q, m') \<and> extends m m' \<and> sliceVal un v m' q = Some w \<and>
      sliceReach un r m' q \<subseteq> new_cells m m'"
  proof (cases s)
    case (Some sl)
    then show ?thesis using slice_copied [OF assms] val by simp
  qed (use val in \<open>simp add: copySlice_def sliceVal_def sliceReach_def\<close>)
qed

end
