(* ===== verification/Deep_Copy.thy ===== *)
theory Deep_Copy
  imports Boost_Types Go_Memory
begin

text \<open>
  The deep copies of the custom resources (\<^verbatim>\<open>api/v1alpha1/zz_generated.deepcopy.go\<close>). Here the structures are
  those of the memory, with addresses for pointers and slices; \<open>boostVal\<close> and its relatives give the
  values of \<open>Boost_Types\<close> that they stand for, which the rest of the library works with. The deep copies
  of structures of the Kubernetes libraries are parameters.
\<close>

section \<open>The structures in memory\<close>

record type_meta =
  tmKind :: string
  tmAPIVersion :: string

record mem_duration_policy =
  mdFixed :: "addr option"
  mdPodCondition :: "addr option"

record 'e mem_fixed_resources =
  mfRequests :: 'e
  mfLimits :: 'e

record mem_container_policy =
  mcContainerName :: string
  mcPercentageIncrease :: "addr option"
  mcFixedResources :: "addr option"

record mem_resource_policy =
  mrContainerPolicies :: "slice option"

record mem_boost_spec =
  msResourcePolicy :: mem_resource_policy
  msDurationPolicy :: mem_duration_policy

record mem_boost_status =
  mtActiveContainerBoosts :: int32
  mtTotalContainerBoosts :: int32
  mtConditions :: "slice option"

record 'e mem_boost =
  mbTypeMeta :: type_meta
  mbObjectMeta :: 'e
  mbSelector :: 'e
  mbSpec :: mem_boost_spec
  mbStatus :: mem_boost_status

record 'e mem_list =
  mlTypeMeta :: type_meta
  mlListMeta :: 'e
  mlItems :: "slice option"

record 'e mem_template =
  mpSelector :: 'e
  mpSpec :: mem_boost_spec

record 'e mem_global_spec =
  mgNamespaceSelector :: 'e
  mgTemplate :: "'e mem_template"

record mem_global_status =
  muNamespaceCount :: int32
  muActiveNamespaces :: "slice option"
  muSkippedNamespaces :: "slice option"
  muConditions :: "slice option"

record 'e mem_global =
  mgTypeMeta :: type_meta
  mgObjectMeta :: 'e
  mgSpec :: "'e mem_global_spec"
  mgStatus :: mem_global_status

text \<open>What a cell can hold. \<open>LibraryCell\<close> are the cells that the structures of the libraries point to.\<close>

datatype ('e, 'x) cell =
    FixedDurationCell (unFixedDuration: fixed_duration_spec)
  | PodConditionCell (unPodCondition: pod_condition_spec)
  | PercentageCell (unPercentage: percentage_increase)
  | DurationPolicyCell (unDurationPolicy: mem_duration_policy)
  | FixedResourcesCell (unFixedResources: "'e mem_fixed_resources")
  | ContainerPolicyCell (unContainerPolicy: mem_container_policy)
  | ContainerPoliciesCell (unContainerPolicies: "mem_container_policy list")
  | ResourcePolicyCell (unResourcePolicy: mem_resource_policy)
  | BoostSpecCell (unBoostSpec: mem_boost_spec)
  | BoostStatusCell (unBoostStatus: mem_boost_status)
  | ConditionsCell (unConditions: "'e list")
  | BoostCell (unBoost: "'e mem_boost")
  | BoostsCell (unBoosts: "'e mem_boost list")
  | BoostListCell (unBoostList: "'e mem_list")
  | TemplateCell (unTemplate: "'e mem_template")
  | GlobalSpecCell (unGlobalSpec: "'e mem_global_spec")
  | StringsCell (unStrings: "string list")
  | GlobalStatusCell (unGlobalStatus: mem_global_status)
  | GlobalCell (unGlobal: "'e mem_global")
  | GlobalsCell (unGlobals: "'e mem_global list")
  | GlobalListCell (unGlobalList: "'e mem_list")
  | LibraryCell (unLibrary: 'x)

type_synonym ('e, 'x) mem = "('e, 'x) cell memory"
type_synonym ('a, 'e, 'x) copier = "'a \<Rightarrow> ('e, 'x) mem \<Rightarrow> ('a \<times> ('e, 'x) mem) option"

text \<open>A cell of the wrong type has no content of the type.\<close>

definition typed :: "('k \<Rightarrow> bool) \<Rightarrow> ('k \<Rightarrow> 'a) \<Rightarrow> 'k \<Rightarrow> 'a option" where
  "typed is_it un k = (if is_it k then Some (un k) else None)"

text \<open>The deep copies of the libraries: \<^verbatim>\<open>resource.Quantity\<close> and four types of \<^verbatim>\<open>meta/v1\<close>.\<close>

record ('e, 'x) copy_library =
  QuantityDeepCopy :: "('e, 'e, 'x) copier"
  ObjectMetaDeepCopyInto :: "('e, 'e, 'x) copier"
  ListMetaDeepCopyInto :: "('e, 'e, 'x) copier"
  LabelSelectorDeepCopyInto :: "('e, 'e, 'x) copier"
  ConditionDeepCopyInto :: "('e, 'e, 'x) copier"

section \<open>DeepCopyInto and DeepCopy\<close>

text \<open>The functions stand in the order in which they call each other; each \<open>Into\<close> gives the structure that it writes.\<close>

definition deepCopyIntoFixedDurationPolicy :: "(fixed_duration_spec, 'e, 'x) copier" where
  "deepCopyIntoFixedDurationPolicy src m = Some (src, m)"

definition DeepCopyFixedDurationPolicy :: "(addr option, 'e, 'x) copier" where
  "DeepCopyFixedDurationPolicy = copyPointer FixedDurationCell (typed is_FixedDurationCell unFixedDuration) deepCopyIntoFixedDurationPolicy"

definition deepCopyIntoPodConditionDurationPolicy :: "(pod_condition_spec, 'e, 'x) copier" where
  "deepCopyIntoPodConditionDurationPolicy src m = Some (src, m)"

definition DeepCopyPodConditionDurationPolicy :: "(addr option, 'e, 'x) copier" where
  "DeepCopyPodConditionDurationPolicy = copyPointer PodConditionCell (typed is_PodConditionCell unPodCondition) deepCopyIntoPodConditionDurationPolicy"

definition deepCopyIntoPercentageIncrease :: "(percentage_increase, 'e, 'x) copier" where
  "deepCopyIntoPercentageIncrease src m = Some (src, m)"

definition DeepCopyPercentageIncrease :: "(addr option, 'e, 'x) copier" where
  "DeepCopyPercentageIncrease = copyPointer PercentageCell (typed is_PercentageCell unPercentage) deepCopyIntoPercentageIncrease"

definition deepCopyIntoDurationPolicy :: "(mem_duration_policy, 'e, 'x) copier" where
  "deepCopyIntoDurationPolicy src m = do {
     let out = src;
     (x, m1) \<leftarrow> copyPointer FixedDurationCell (typed is_FixedDurationCell unFixedDuration) deepCopyIntoFixedDurationPolicy (mdFixed src) m;
     let out = out\<lparr>mdFixed := x\<rparr>;
     (x, m2) \<leftarrow> copyPointer PodConditionCell (typed is_PodConditionCell unPodCondition) deepCopyIntoPodConditionDurationPolicy (mdPodCondition src) m1;
     let out = out\<lparr>mdPodCondition := x\<rparr>;
     Some (out, m2)
   }"

definition DeepCopyDurationPolicy :: "(addr option, 'e, 'x) copier" where
  "DeepCopyDurationPolicy = copyPointer DurationPolicyCell (typed is_DurationPolicyCell unDurationPolicy) deepCopyIntoDurationPolicy"

definition deepCopyIntoFixedResources :: "('e, 'x) copy_library \<Rightarrow> ('e mem_fixed_resources, 'e, 'x) copier" where
  "deepCopyIntoFixedResources L src m = do {
     let out = src;
     (x, m1) \<leftarrow> QuantityDeepCopy L (mfRequests src) m;
     let out = out\<lparr>mfRequests := x\<rparr>;
     (x, m2) \<leftarrow> QuantityDeepCopy L (mfLimits src) m1;
     let out = out\<lparr>mfLimits := x\<rparr>;
     Some (out, m2)
   }"

definition DeepCopyFixedResources :: "('e, 'x) copy_library \<Rightarrow> (addr option, 'e, 'x) copier" where
  "DeepCopyFixedResources L = copyPointer FixedResourcesCell (typed is_FixedResourcesCell unFixedResources) (deepCopyIntoFixedResources L)"

definition deepCopyIntoContainerPolicy :: "('e, 'x) copy_library \<Rightarrow> (mem_container_policy, 'e, 'x) copier" where
  "deepCopyIntoContainerPolicy L src m = do {
     let out = src;
     (x, m1) \<leftarrow> copyPointer PercentageCell (typed is_PercentageCell unPercentage) deepCopyIntoPercentageIncrease (mcPercentageIncrease src) m;
     let out = out\<lparr>mcPercentageIncrease := x\<rparr>;
     (x, m2) \<leftarrow> copyPointer FixedResourcesCell (typed is_FixedResourcesCell unFixedResources) (deepCopyIntoFixedResources L) (mcFixedResources src) m1;
     let out = out\<lparr>mcFixedResources := x\<rparr>;
     Some (out, m2)
   }"

definition DeepCopyContainerPolicy :: "('e, 'x) copy_library \<Rightarrow> (addr option, 'e, 'x) copier" where
  "DeepCopyContainerPolicy L = copyPointer ContainerPolicyCell (typed is_ContainerPolicyCell unContainerPolicy) (deepCopyIntoContainerPolicy L)"

definition deepCopyIntoResourcePolicy :: "('e, 'x) copy_library \<Rightarrow> (mem_resource_policy, 'e, 'x) copier" where
  "deepCopyIntoResourcePolicy L src m = do {
     let out = src;
     (x, m1) \<leftarrow> copySlice ContainerPoliciesCell (typed is_ContainerPoliciesCell unContainerPolicies) (deepCopyIntoContainerPolicy L) (mrContainerPolicies src) m;
     let out = out\<lparr>mrContainerPolicies := x\<rparr>;
     Some (out, m1)
   }"

definition DeepCopyResourcePolicy :: "('e, 'x) copy_library \<Rightarrow> (addr option, 'e, 'x) copier" where
  "DeepCopyResourcePolicy L = copyPointer ResourcePolicyCell (typed is_ResourcePolicyCell unResourcePolicy) (deepCopyIntoResourcePolicy L)"

definition deepCopyIntoStartupCPUBoostSpec :: "('e, 'x) copy_library \<Rightarrow> (mem_boost_spec, 'e, 'x) copier" where
  "deepCopyIntoStartupCPUBoostSpec L src m = do {
     let out = src;
     (x, m1) \<leftarrow> deepCopyIntoResourcePolicy L (msResourcePolicy src) m;
     let out = out\<lparr>msResourcePolicy := x\<rparr>;
     (x, m2) \<leftarrow> deepCopyIntoDurationPolicy (msDurationPolicy src) m1;
     let out = out\<lparr>msDurationPolicy := x\<rparr>;
     Some (out, m2)
   }"

definition DeepCopyStartupCPUBoostSpec :: "('e, 'x) copy_library \<Rightarrow> (addr option, 'e, 'x) copier" where
  "DeepCopyStartupCPUBoostSpec L = copyPointer BoostSpecCell (typed is_BoostSpecCell unBoostSpec) (deepCopyIntoStartupCPUBoostSpec L)"

definition deepCopyIntoStartupCPUBoostStatus :: "('e, 'x) copy_library \<Rightarrow> (mem_boost_status, 'e, 'x) copier" where
  "deepCopyIntoStartupCPUBoostStatus L src m = do {
     let out = src;
     (x, m1) \<leftarrow> copySlice ConditionsCell (typed is_ConditionsCell unConditions) (ConditionDeepCopyInto L) (mtConditions src) m;
     let out = out\<lparr>mtConditions := x\<rparr>;
     Some (out, m1)
   }"

definition DeepCopyStartupCPUBoostStatus :: "('e, 'x) copy_library \<Rightarrow> (addr option, 'e, 'x) copier" where
  "DeepCopyStartupCPUBoostStatus L = copyPointer BoostStatusCell (typed is_BoostStatusCell unBoostStatus) (deepCopyIntoStartupCPUBoostStatus L)"

definition deepCopyIntoStartupCPUBoost :: "('e, 'x) copy_library \<Rightarrow> ('e mem_boost, 'e, 'x) copier" where
  "deepCopyIntoStartupCPUBoost L src m = do {
     let out = src;
     (x, m1) \<leftarrow> copyFlat (mbTypeMeta src) m;
     let out = out\<lparr>mbTypeMeta := x\<rparr>;
     (x, m2) \<leftarrow> ObjectMetaDeepCopyInto L (mbObjectMeta src) m1;
     let out = out\<lparr>mbObjectMeta := x\<rparr>;
     (x, m3) \<leftarrow> LabelSelectorDeepCopyInto L (mbSelector src) m2;
     let out = out\<lparr>mbSelector := x\<rparr>;
     (x, m4) \<leftarrow> deepCopyIntoStartupCPUBoostSpec L (mbSpec src) m3;
     let out = out\<lparr>mbSpec := x\<rparr>;
     (x, m5) \<leftarrow> deepCopyIntoStartupCPUBoostStatus L (mbStatus src) m4;
     let out = out\<lparr>mbStatus := x\<rparr>;
     Some (out, m5)
   }"

definition DeepCopyStartupCPUBoost :: "('e, 'x) copy_library \<Rightarrow> (addr option, 'e, 'x) copier" where
  "DeepCopyStartupCPUBoost L = copyPointer BoostCell (typed is_BoostCell unBoost) (deepCopyIntoStartupCPUBoost L)"

definition deepCopyIntoStartupCPUBoostList :: "('e, 'x) copy_library \<Rightarrow> ('e mem_list, 'e, 'x) copier" where
  "deepCopyIntoStartupCPUBoostList L src m = do {
     let out = src;
     (x, m1) \<leftarrow> copyFlat (mlTypeMeta src) m;
     let out = out\<lparr>mlTypeMeta := x\<rparr>;
     (x, m2) \<leftarrow> ListMetaDeepCopyInto L (mlListMeta src) m1;
     let out = out\<lparr>mlListMeta := x\<rparr>;
     (x, m3) \<leftarrow> copySlice BoostsCell (typed is_BoostsCell unBoosts) (deepCopyIntoStartupCPUBoost L) (mlItems src) m2;
     let out = out\<lparr>mlItems := x\<rparr>;
     Some (out, m3)
   }"

definition DeepCopyStartupCPUBoostList :: "('e, 'x) copy_library \<Rightarrow> (addr option, 'e, 'x) copier" where
  "DeepCopyStartupCPUBoostList L = copyPointer BoostListCell (typed is_BoostListCell unBoostList) (deepCopyIntoStartupCPUBoostList L)"

definition deepCopyIntoGlobalStartupCPUBoostTemplate :: "('e, 'x) copy_library \<Rightarrow> ('e mem_template, 'e, 'x) copier" where
  "deepCopyIntoGlobalStartupCPUBoostTemplate L src m = do {
     let out = src;
     (x, m1) \<leftarrow> LabelSelectorDeepCopyInto L (mpSelector src) m;
     let out = out\<lparr>mpSelector := x\<rparr>;
     (x, m2) \<leftarrow> deepCopyIntoStartupCPUBoostSpec L (mpSpec src) m1;
     let out = out\<lparr>mpSpec := x\<rparr>;
     Some (out, m2)
   }"

definition DeepCopyGlobalStartupCPUBoostTemplate :: "('e, 'x) copy_library \<Rightarrow> (addr option, 'e, 'x) copier" where
  "DeepCopyGlobalStartupCPUBoostTemplate L = copyPointer TemplateCell (typed is_TemplateCell unTemplate) (deepCopyIntoGlobalStartupCPUBoostTemplate L)"

definition deepCopyIntoGlobalStartupCPUBoostSpec :: "('e, 'x) copy_library \<Rightarrow> ('e mem_global_spec, 'e, 'x) copier" where
  "deepCopyIntoGlobalStartupCPUBoostSpec L src m = do {
     let out = src;
     (x, m1) \<leftarrow> LabelSelectorDeepCopyInto L (mgNamespaceSelector src) m;
     let out = out\<lparr>mgNamespaceSelector := x\<rparr>;
     (x, m2) \<leftarrow> deepCopyIntoGlobalStartupCPUBoostTemplate L (mgTemplate src) m1;
     let out = out\<lparr>mgTemplate := x\<rparr>;
     Some (out, m2)
   }"

definition DeepCopyGlobalStartupCPUBoostSpec :: "('e, 'x) copy_library \<Rightarrow> (addr option, 'e, 'x) copier" where
  "DeepCopyGlobalStartupCPUBoostSpec L = copyPointer GlobalSpecCell (typed is_GlobalSpecCell unGlobalSpec) (deepCopyIntoGlobalStartupCPUBoostSpec L)"

definition deepCopyIntoGlobalStartupCPUBoostStatus :: "('e, 'x) copy_library \<Rightarrow> (mem_global_status, 'e, 'x) copier" where
  "deepCopyIntoGlobalStartupCPUBoostStatus L src m = do {
     let out = src;
     (x, m1) \<leftarrow> copySlice StringsCell (typed is_StringsCell unStrings) copyFlat (muActiveNamespaces src) m;
     let out = out\<lparr>muActiveNamespaces := x\<rparr>;
     (x, m2) \<leftarrow> copySlice StringsCell (typed is_StringsCell unStrings) copyFlat (muSkippedNamespaces src) m1;
     let out = out\<lparr>muSkippedNamespaces := x\<rparr>;
     (x, m3) \<leftarrow> copySlice ConditionsCell (typed is_ConditionsCell unConditions) (ConditionDeepCopyInto L) (muConditions src) m2;
     let out = out\<lparr>muConditions := x\<rparr>;
     Some (out, m3)
   }"

definition DeepCopyGlobalStartupCPUBoostStatus :: "('e, 'x) copy_library \<Rightarrow> (addr option, 'e, 'x) copier" where
  "DeepCopyGlobalStartupCPUBoostStatus L = copyPointer GlobalStatusCell (typed is_GlobalStatusCell unGlobalStatus) (deepCopyIntoGlobalStartupCPUBoostStatus L)"

definition deepCopyIntoGlobalStartupCPUBoost :: "('e, 'x) copy_library \<Rightarrow> ('e mem_global, 'e, 'x) copier" where
  "deepCopyIntoGlobalStartupCPUBoost L src m = do {
     let out = src;
     (x, m1) \<leftarrow> copyFlat (mgTypeMeta src) m;
     let out = out\<lparr>mgTypeMeta := x\<rparr>;
     (x, m2) \<leftarrow> ObjectMetaDeepCopyInto L (mgObjectMeta src) m1;
     let out = out\<lparr>mgObjectMeta := x\<rparr>;
     (x, m3) \<leftarrow> deepCopyIntoGlobalStartupCPUBoostSpec L (mgSpec src) m2;
     let out = out\<lparr>mgSpec := x\<rparr>;
     (x, m4) \<leftarrow> deepCopyIntoGlobalStartupCPUBoostStatus L (mgStatus src) m3;
     let out = out\<lparr>mgStatus := x\<rparr>;
     Some (out, m4)
   }"

definition DeepCopyGlobalStartupCPUBoost :: "('e, 'x) copy_library \<Rightarrow> (addr option, 'e, 'x) copier" where
  "DeepCopyGlobalStartupCPUBoost L = copyPointer GlobalCell (typed is_GlobalCell unGlobal) (deepCopyIntoGlobalStartupCPUBoost L)"

definition deepCopyIntoGlobalStartupCPUBoostList :: "('e, 'x) copy_library \<Rightarrow> ('e mem_list, 'e, 'x) copier" where
  "deepCopyIntoGlobalStartupCPUBoostList L src m = do {
     let out = src;
     (x, m1) \<leftarrow> copyFlat (mlTypeMeta src) m;
     let out = out\<lparr>mlTypeMeta := x\<rparr>;
     (x, m2) \<leftarrow> ListMetaDeepCopyInto L (mlListMeta src) m1;
     let out = out\<lparr>mlListMeta := x\<rparr>;
     (x, m3) \<leftarrow> copySlice GlobalsCell (typed is_GlobalsCell unGlobals) (deepCopyIntoGlobalStartupCPUBoost L) (mlItems src) m2;
     let out = out\<lparr>mlItems := x\<rparr>;
     Some (out, m3)
   }"

definition DeepCopyGlobalStartupCPUBoostList :: "('e, 'x) copy_library \<Rightarrow> (addr option, 'e, 'x) copier" where
  "DeepCopyGlobalStartupCPUBoostList L = copyPointer GlobalListCell (typed is_GlobalListCell unGlobalList) (deepCopyIntoGlobalStartupCPUBoostList L)"

text \<open>
  \<^verbatim>\<open>DeepCopyObject\<close>: the copy as a \<^verbatim>\<open>runtime.Object\<close>, which is nil, and not an interface around a nil pointer,
  for a nil pointer.
\<close>

datatype runtime_object = BoostObject addr | BoostListObject addr | GlobalObject addr | GlobalListObject addr

definition DeepCopyObjectStartupCPUBoost ::
  "('e, 'x) copy_library \<Rightarrow> addr option \<Rightarrow> ('e, 'x) mem \<Rightarrow> (runtime_object option \<times> ('e, 'x) mem) option" where
  "DeepCopyObjectStartupCPUBoost L src m = do {
     (c, m1) \<leftarrow> DeepCopyStartupCPUBoost L src m;
     case c of
       Some x \<Rightarrow> Some (Some (BoostObject x), m1)
     | None \<Rightarrow> Some (None, m1)
   }"

definition DeepCopyObjectStartupCPUBoostList ::
  "('e, 'x) copy_library \<Rightarrow> addr option \<Rightarrow> ('e, 'x) mem \<Rightarrow> (runtime_object option \<times> ('e, 'x) mem) option" where
  "DeepCopyObjectStartupCPUBoostList L src m = do {
     (c, m1) \<leftarrow> DeepCopyStartupCPUBoostList L src m;
     case c of
       Some x \<Rightarrow> Some (Some (BoostListObject x), m1)
     | None \<Rightarrow> Some (None, m1)
   }"

definition DeepCopyObjectGlobalStartupCPUBoost ::
  "('e, 'x) copy_library \<Rightarrow> addr option \<Rightarrow> ('e, 'x) mem \<Rightarrow> (runtime_object option \<times> ('e, 'x) mem) option" where
  "DeepCopyObjectGlobalStartupCPUBoost L src m = do {
     (c, m1) \<leftarrow> DeepCopyGlobalStartupCPUBoost L src m;
     case c of
       Some x \<Rightarrow> Some (Some (GlobalObject x), m1)
     | None \<Rightarrow> Some (None, m1)
   }"

definition DeepCopyObjectGlobalStartupCPUBoostList ::
  "('e, 'x) copy_library \<Rightarrow> addr option \<Rightarrow> ('e, 'x) mem \<Rightarrow> (runtime_object option \<times> ('e, 'x) mem) option" where
  "DeepCopyObjectGlobalStartupCPUBoostList L src m = do {
     (c, m1) \<leftarrow> DeepCopyGlobalStartupCPUBoostList L src m;
     case c of
       Some x \<Rightarrow> Some (Some (GlobalListObject x), m1)
     | None \<Rightarrow> Some (None, m1)
   }"

end
