(* ===== verification/Deep_Copy_Correct.thy ===== *)
theory Deep_Copy_Correct
  imports Deep_Copy
begin

text \<open>
  The deep copies are correct: a copy stands for the same value of \<open>Boost_Types\<close> as the original and shares
  no memory with it. The contract \<open>copyable\<close> is shown for every structure, from the
  contracts of the library's structures.
\<close>

section \<open>The values of the structures\<close>

record object_meta =
  omName :: string
  omNamespace :: string
  omUID :: string
  omLabels :: "string gomap"
  omAnnotations :: "string gomap"
  omFinalizers :: "string list"
  omDeletionTimestamp :: "int option"

record list_meta =
  lmResourceVersion :: string
  lmContinue :: string

text \<open>What the structures of the libraries stand for, and the cells they depend on.\<close>

record ('e, 'x, 'q) library_view =
  quantityVal :: "('e, 'x) mem \<Rightarrow> 'e \<Rightarrow> 'q option"
  quantityReach :: "('e, 'x) mem \<Rightarrow> 'e \<Rightarrow> addr set"
  objectMetaVal :: "('e, 'x) mem \<Rightarrow> 'e \<Rightarrow> object_meta option"
  objectMetaReach :: "('e, 'x) mem \<Rightarrow> 'e \<Rightarrow> addr set"
  listMetaVal :: "('e, 'x) mem \<Rightarrow> 'e \<Rightarrow> list_meta option"
  listMetaReach :: "('e, 'x) mem \<Rightarrow> 'e \<Rightarrow> addr set"
  selectorVal :: "('e, 'x) mem \<Rightarrow> 'e \<Rightarrow> label_selector option"
  selectorReach :: "('e, 'x) mem \<Rightarrow> 'e \<Rightarrow> addr set"
  conditionVal :: "('e, 'x) mem \<Rightarrow> 'e \<Rightarrow> status_condition option"
  conditionReach :: "('e, 'x) mem \<Rightarrow> 'e \<Rightarrow> addr set"

text \<open>A deep copy of each type of the libraries keeps the contract.\<close>

locale copy_laws =
  quantity: copyable "QuantityDeepCopy L" "quantityVal V" "quantityReach V" +
  objectMeta: copyable "ObjectMetaDeepCopyInto L" "objectMetaVal V" "objectMetaReach V" +
  listMeta: copyable "ListMetaDeepCopyInto L" "listMetaVal V" "listMetaReach V" +
  selector: copyable "LabelSelectorDeepCopyInto L" "selectorVal V" "selectorReach V" +
  condition: copyable "ConditionDeepCopyInto L" "conditionVal V" "conditionReach V"
  for L :: "('e, 'x) copy_library" and V :: "('e, 'x, 'q) library_view"

abbreviation flatVal :: "('e, 'x) mem \<Rightarrow> 'a \<Rightarrow> 'a option" where "flatVal m a \<equiv> Some a"
abbreviation flatReach :: "('e, 'x) mem \<Rightarrow> 'a \<Rightarrow> addr set" where "flatReach m a \<equiv> {}"

definition durationPolicyVal :: "('e, 'x) mem \<Rightarrow> mem_duration_policy \<Rightarrow> duration_policy_spec option" where
  "durationPolicyVal m a = do {
     x \<leftarrow> pointerVal (typed is_FixedDurationCell unFixedDuration) flatVal m (mdFixed a);
     y \<leftarrow> pointerVal (typed is_PodConditionCell unPodCondition) flatVal m (mdPodCondition a);
     Some \<lparr>dpFixed = x, dpPodCondition = y\<rparr>
   }"

definition durationPolicyReach :: "('e, 'x) mem \<Rightarrow> mem_duration_policy \<Rightarrow> addr set" where
  "durationPolicyReach m a = pointerReach (typed is_FixedDurationCell unFixedDuration) flatReach m (mdFixed a) \<union> pointerReach (typed is_PodConditionCell unPodCondition) flatReach m (mdPodCondition a)"

definition fixedResourcesVal :: "('e, 'x, 'q) library_view \<Rightarrow> ('e, 'x) mem \<Rightarrow> 'e mem_fixed_resources \<Rightarrow> 'q fixed_resources option" where
  "fixedResourcesVal V m a = do {
     x \<leftarrow> quantityVal V m (mfRequests a);
     y \<leftarrow> quantityVal V m (mfLimits a);
     Some \<lparr>frRequests = x, frLimits = y\<rparr>
   }"

definition fixedResourcesReach :: "('e, 'x, 'q) library_view \<Rightarrow> ('e, 'x) mem \<Rightarrow> 'e mem_fixed_resources \<Rightarrow> addr set" where
  "fixedResourcesReach V m a = quantityReach V m (mfRequests a) \<union> quantityReach V m (mfLimits a)"

definition containerPolicyVal :: "('e, 'x, 'q) library_view \<Rightarrow> ('e, 'x) mem \<Rightarrow> mem_container_policy \<Rightarrow> 'q container_policy_spec option" where
  "containerPolicyVal V m a = do {
     x \<leftarrow> pointerVal (typed is_PercentageCell unPercentage) flatVal m (mcPercentageIncrease a);
     y \<leftarrow> pointerVal (typed is_FixedResourcesCell unFixedResources) (fixedResourcesVal V) m (mcFixedResources a);
     Some \<lparr>cpContainerName = mcContainerName a, cpPercentageIncrease = x, cpFixedResources = y\<rparr>
   }"

definition containerPolicyReach :: "('e, 'x, 'q) library_view \<Rightarrow> ('e, 'x) mem \<Rightarrow> mem_container_policy \<Rightarrow> addr set" where
  "containerPolicyReach V m a = pointerReach (typed is_PercentageCell unPercentage) flatReach m (mcPercentageIncrease a) \<union> pointerReach (typed is_FixedResourcesCell unFixedResources) (fixedResourcesReach V) m (mcFixedResources a)"

definition resourcePolicyVal :: "('e, 'x, 'q) library_view \<Rightarrow> ('e, 'x) mem \<Rightarrow> mem_resource_policy \<Rightarrow> 'q resource_policy_spec option" where
  "resourcePolicyVal V m a = do {
     x \<leftarrow> sliceVal (typed is_ContainerPoliciesCell unContainerPolicies) (containerPolicyVal V) m (mrContainerPolicies a);
     Some \<lparr>rpContainerPolicies = x\<rparr>
   }"

definition resourcePolicyReach :: "('e, 'x, 'q) library_view \<Rightarrow> ('e, 'x) mem \<Rightarrow> mem_resource_policy \<Rightarrow> addr set" where
  "resourcePolicyReach V m a = sliceReach (typed is_ContainerPoliciesCell unContainerPolicies) (containerPolicyReach V) m (mrContainerPolicies a)"

definition boostSpecVal :: "('e, 'x, 'q) library_view \<Rightarrow> ('e, 'x) mem \<Rightarrow> mem_boost_spec \<Rightarrow> 'q boost_spec option" where
  "boostSpecVal V m a = do {
     x \<leftarrow> resourcePolicyVal V m (msResourcePolicy a);
     y \<leftarrow> durationPolicyVal m (msDurationPolicy a);
     Some \<lparr>bsResourcePolicy = x, bsDurationPolicy = y\<rparr>
   }"

definition boostSpecReach :: "('e, 'x, 'q) library_view \<Rightarrow> ('e, 'x) mem \<Rightarrow> mem_boost_spec \<Rightarrow> addr set" where
  "boostSpecReach V m a = resourcePolicyReach V m (msResourcePolicy a) \<union> durationPolicyReach m (msDurationPolicy a)"

definition boostStatusVal :: "('e, 'x, 'q) library_view \<Rightarrow> ('e, 'x) mem \<Rightarrow> mem_boost_status \<Rightarrow> boost_status option" where
  "boostStatusVal V m a = do {
     x \<leftarrow> sliceVal (typed is_ConditionsCell unConditions) (conditionVal V) m (mtConditions a);
     Some \<lparr>stActiveContainerBoosts = mtActiveContainerBoosts a, stTotalContainerBoosts = mtTotalContainerBoosts a, stConditions = x\<rparr>
   }"

definition boostStatusReach :: "('e, 'x, 'q) library_view \<Rightarrow> ('e, 'x) mem \<Rightarrow> mem_boost_status \<Rightarrow> addr set" where
  "boostStatusReach V m a = sliceReach (typed is_ConditionsCell unConditions) (conditionReach V) m (mtConditions a)"

definition boostVal :: "('e, 'x, 'q) library_view \<Rightarrow> ('e, 'x) mem \<Rightarrow> 'e mem_boost \<Rightarrow> (type_meta \<times> 'q startup_cpu_boost) option" where
  "boostVal V m a = do {
     om \<leftarrow> objectMetaVal V m (mbObjectMeta a);
     s \<leftarrow> selectorVal V m (mbSelector a);
     x \<leftarrow> boostSpecVal V m (mbSpec a);
     y \<leftarrow> boostStatusVal V m (mbStatus a);
     Some (mbTypeMeta a, \<lparr>scbName = omName om, scbNamespace = omNamespace om, scbLabels = omLabels om,
        scbAnnotations = omAnnotations om, scbSelector = s, scbSpec = x, scbStatus = y\<rparr>)
   }"

definition boostReach :: "('e, 'x, 'q) library_view \<Rightarrow> ('e, 'x) mem \<Rightarrow> 'e mem_boost \<Rightarrow> addr set" where
  "boostReach V m a = objectMetaReach V m (mbObjectMeta a) \<union> selectorReach V m (mbSelector a) \<union> boostSpecReach V m (mbSpec a) \<union> boostStatusReach V m (mbStatus a)"

definition boostListVal :: "('e, 'x, 'q) library_view \<Rightarrow> ('e, 'x) mem \<Rightarrow> 'e mem_list \<Rightarrow> (type_meta \<times> list_meta \<times> (type_meta \<times> 'q startup_cpu_boost) list) option" where
  "boostListVal V m a = do {
     l \<leftarrow> listMetaVal V m (mlListMeta a);
     x \<leftarrow> sliceVal (typed is_BoostsCell unBoosts) (boostVal V) m (mlItems a);
     Some (mlTypeMeta a, l, x)
   }"

definition boostListReach :: "('e, 'x, 'q) library_view \<Rightarrow> ('e, 'x) mem \<Rightarrow> 'e mem_list \<Rightarrow> addr set" where
  "boostListReach V m a = listMetaReach V m (mlListMeta a) \<union> sliceReach (typed is_BoostsCell unBoosts) (boostReach V) m (mlItems a)"

definition templateVal :: "('e, 'x, 'q) library_view \<Rightarrow> ('e, 'x) mem \<Rightarrow> 'e mem_template \<Rightarrow> 'q global_template option" where
  "templateVal V m a = do {
     s \<leftarrow> selectorVal V m (mpSelector a);
     x \<leftarrow> boostSpecVal V m (mpSpec a);
     Some \<lparr>gtSelector = s, gtSpec = x\<rparr>
   }"

definition templateReach :: "('e, 'x, 'q) library_view \<Rightarrow> ('e, 'x) mem \<Rightarrow> 'e mem_template \<Rightarrow> addr set" where
  "templateReach V m a = selectorReach V m (mpSelector a) \<union> boostSpecReach V m (mpSpec a)"

definition globalSpecVal :: "('e, 'x, 'q) library_view \<Rightarrow> ('e, 'x) mem \<Rightarrow> 'e mem_global_spec \<Rightarrow> 'q global_spec option" where
  "globalSpecVal V m a = do {
     s \<leftarrow> selectorVal V m (mgNamespaceSelector a);
     x \<leftarrow> templateVal V m (mgTemplate a);
     Some \<lparr>gsNamespaceSelector = s, gsTemplate = x\<rparr>
   }"

definition globalSpecReach :: "('e, 'x, 'q) library_view \<Rightarrow> ('e, 'x) mem \<Rightarrow> 'e mem_global_spec \<Rightarrow> addr set" where
  "globalSpecReach V m a = selectorReach V m (mgNamespaceSelector a) \<union> templateReach V m (mgTemplate a)"

definition globalStatusVal :: "('e, 'x, 'q) library_view \<Rightarrow> ('e, 'x) mem \<Rightarrow> mem_global_status \<Rightarrow> global_status option" where
  "globalStatusVal V m a = do {
     x \<leftarrow> sliceVal (typed is_StringsCell unStrings) flatVal m (muActiveNamespaces a);
     y \<leftarrow> sliceVal (typed is_StringsCell unStrings) flatVal m (muSkippedNamespaces a);
     z \<leftarrow> sliceVal (typed is_ConditionsCell unConditions) (conditionVal V) m (muConditions a);
     Some \<lparr>gsNamespaceCount = muNamespaceCount a, gsActiveNamespaces = x, gsSkippedNamespaces = y, gsConditions = z\<rparr>
   }"

definition globalStatusReach :: "('e, 'x, 'q) library_view \<Rightarrow> ('e, 'x) mem \<Rightarrow> mem_global_status \<Rightarrow> addr set" where
  "globalStatusReach V m a = sliceReach (typed is_StringsCell unStrings) flatReach m (muActiveNamespaces a) \<union> sliceReach (typed is_StringsCell unStrings) flatReach m (muSkippedNamespaces a) \<union> sliceReach (typed is_ConditionsCell unConditions) (conditionReach V) m (muConditions a)"

definition globalVal :: "('e, 'x, 'q) library_view \<Rightarrow> ('e, 'x) mem \<Rightarrow> 'e mem_global \<Rightarrow> (type_meta \<times> 'q global_boost) option" where
  "globalVal V m a = do {
     om \<leftarrow> objectMetaVal V m (mgObjectMeta a);
     x \<leftarrow> globalSpecVal V m (mgSpec a);
     y \<leftarrow> globalStatusVal V m (mgStatus a);
     Some (mgTypeMeta a, \<lparr>gbName = omName om, gbUID = omUID om, gbFinalizers = omFinalizers om,
        gbDeletionTimestamp = omDeletionTimestamp om, gbSpec = x, gbStatus = y\<rparr>)
   }"

definition globalReach :: "('e, 'x, 'q) library_view \<Rightarrow> ('e, 'x) mem \<Rightarrow> 'e mem_global \<Rightarrow> addr set" where
  "globalReach V m a = objectMetaReach V m (mgObjectMeta a) \<union> globalSpecReach V m (mgSpec a) \<union> globalStatusReach V m (mgStatus a)"

definition globalListVal :: "('e, 'x, 'q) library_view \<Rightarrow> ('e, 'x) mem \<Rightarrow> 'e mem_list \<Rightarrow> (type_meta \<times> list_meta \<times> (type_meta \<times> 'q global_boost) list) option" where
  "globalListVal V m a = do {
     l \<leftarrow> listMetaVal V m (mlListMeta a);
     x \<leftarrow> sliceVal (typed is_GlobalsCell unGlobals) (globalVal V) m (mlItems a);
     Some (mlTypeMeta a, l, x)
   }"

definition globalListReach :: "('e, 'x, 'q) library_view \<Rightarrow> ('e, 'x) mem \<Rightarrow> 'e mem_list \<Rightarrow> addr set" where
  "globalListReach V m a = listMetaReach V m (mlListMeta a) \<union> sliceReach (typed is_GlobalsCell unGlobals) (globalReach V) m (mlItems a)"

section \<open>Every structure keeps the contract\<close>

lemma typed_cells [simp]:
  "typed is_FixedDurationCell unFixedDuration (FixedDurationCell a0) = Some a0"
  "typed is_PodConditionCell unPodCondition (PodConditionCell a1) = Some a1"
  "typed is_PercentageCell unPercentage (PercentageCell a2) = Some a2"
  "typed is_DurationPolicyCell unDurationPolicy (DurationPolicyCell a3) = Some a3"
  "typed is_FixedResourcesCell unFixedResources (FixedResourcesCell a4) = Some a4"
  "typed is_ContainerPolicyCell unContainerPolicy (ContainerPolicyCell a5) = Some a5"
  "typed is_ContainerPoliciesCell unContainerPolicies (ContainerPoliciesCell a6) = Some a6"
  "typed is_ResourcePolicyCell unResourcePolicy (ResourcePolicyCell a7) = Some a7"
  "typed is_BoostSpecCell unBoostSpec (BoostSpecCell a8) = Some a8"
  "typed is_BoostStatusCell unBoostStatus (BoostStatusCell a9) = Some a9"
  "typed is_ConditionsCell unConditions (ConditionsCell a10) = Some a10"
  "typed is_BoostCell unBoost (BoostCell a11) = Some a11"
  "typed is_BoostsCell unBoosts (BoostsCell a12) = Some a12"
  "typed is_BoostListCell unBoostList (BoostListCell a13) = Some a13"
  "typed is_TemplateCell unTemplate (TemplateCell a14) = Some a14"
  "typed is_GlobalSpecCell unGlobalSpec (GlobalSpecCell a15) = Some a15"
  "typed is_StringsCell unStrings (StringsCell a16) = Some a16"
  "typed is_GlobalStatusCell unGlobalStatus (GlobalStatusCell a17) = Some a17"
  "typed is_GlobalCell unGlobal (GlobalCell a18) = Some a18"
  "typed is_GlobalsCell unGlobals (GlobalsCell a19) = Some a19"
  "typed is_GlobalListCell unGlobalList (GlobalListCell a20) = Some a20"
  by (simp_all add: typed_def)

text \<open>The rules that put a structure together from its fields.\<close>

lemmas struct_defs = copyBoth_def bothVal_def bothReach_def copyFlat_def

interpretation fixedDuration: copyable deepCopyIntoFixedDurationPolicy flatVal flatReach
  by unfold_locales (auto simp: deepCopyIntoFixedDurationPolicy_def)

interpretation podCondition: copyable deepCopyIntoPodConditionDurationPolicy flatVal flatReach
  by unfold_locales (auto simp: deepCopyIntoPodConditionDurationPolicy_def)

interpretation percentage: copyable deepCopyIntoPercentageIncrease flatVal flatReach
  by unfold_locales (auto simp: deepCopyIntoPercentageIncrease_def)

interpretation strings: copyable "copySlice StringsCell (typed is_StringsCell unStrings) copyFlat"
    "sliceVal (typed is_StringsCell unStrings) flatVal" "sliceReach (typed is_StringsCell unStrings) flatReach"
  by (rule copyable_slice [OF flat.copyable_axioms]) simp

interpretation durationPolicy: copyable deepCopyIntoDurationPolicy durationPolicyVal durationPolicyReach
  by (rule copyable_struct [where get = "\<lambda>a. (mdFixed a, mdPodCondition a)" and put = "\<lambda>(x, y). \<lparr>mdFixed = x, mdPodCondition = y\<rparr>"
      and f = "\<lambda>(x, y). \<lparr>dpFixed = x, dpPodCondition = y\<rparr>",
      OF copyable_both [OF copyable_pointer [OF fixedDuration.copyable_axioms typed_cells(1)] copyable_pointer [OF podCondition.copyable_axioms typed_cells(2)]]])
     (auto simp: deepCopyIntoDurationPolicy_def durationPolicyVal_def durationPolicyReach_def struct_defs split: bind_splits)

sublocale copy_laws \<subseteq> fixedResources: copyable "deepCopyIntoFixedResources L" "fixedResourcesVal V" "fixedResourcesReach V"
  by (rule copyable_struct [where get = "\<lambda>a. (mfRequests a, mfLimits a)" and put = "\<lambda>(x, y). \<lparr>mfRequests = x, mfLimits = y\<rparr>"
      and f = "\<lambda>(x, y). \<lparr>frRequests = x, frLimits = y\<rparr>",
      OF copyable_both [OF quantity.copyable_axioms quantity.copyable_axioms]])
     (auto simp: deepCopyIntoFixedResources_def fixedResourcesVal_def fixedResourcesReach_def struct_defs split: bind_splits)

sublocale copy_laws \<subseteq> containerPolicy: copyable "deepCopyIntoContainerPolicy L" "containerPolicyVal V" "containerPolicyReach V"
  by (rule copyable_struct [where get = "\<lambda>a. (mcContainerName a, mcPercentageIncrease a, mcFixedResources a)" and put = "\<lambda>(r0, x, y). \<lparr>mcContainerName = r0, mcPercentageIncrease = x, mcFixedResources = y\<rparr>"
      and f = "\<lambda>(r0, x, y). \<lparr>cpContainerName = r0, cpPercentageIncrease = x, cpFixedResources = y\<rparr>",
      OF copyable_both [OF flat.copyable_axioms copyable_both [OF copyable_pointer [OF percentage.copyable_axioms typed_cells(3)] copyable_pointer [OF fixedResources.copyable_axioms typed_cells(5)]]]])
     (auto simp: deepCopyIntoContainerPolicy_def containerPolicyVal_def containerPolicyReach_def struct_defs split: bind_splits)

sublocale copy_laws \<subseteq> resourcePolicy: copyable "deepCopyIntoResourcePolicy L" "resourcePolicyVal V" "resourcePolicyReach V"
  by (rule copyable_struct [where get = "\<lambda>a. (mrContainerPolicies a)" and put = "\<lambda>x. \<lparr>mrContainerPolicies = x\<rparr>"
      and f = "\<lambda>x. \<lparr>rpContainerPolicies = x\<rparr>",
      OF copyable_slice [OF containerPolicy.copyable_axioms typed_cells(7)]])
     (auto simp: deepCopyIntoResourcePolicy_def resourcePolicyVal_def resourcePolicyReach_def struct_defs split: bind_splits)

sublocale copy_laws \<subseteq> boostSpec: copyable "deepCopyIntoStartupCPUBoostSpec L" "boostSpecVal V" "boostSpecReach V"
  by (rule copyable_struct [where get = "\<lambda>a. (msResourcePolicy a, msDurationPolicy a)" and put = "\<lambda>(x, y). \<lparr>msResourcePolicy = x, msDurationPolicy = y\<rparr>"
      and f = "\<lambda>(x, y). \<lparr>bsResourcePolicy = x, bsDurationPolicy = y\<rparr>",
      OF copyable_both [OF resourcePolicy.copyable_axioms durationPolicy.copyable_axioms]])
     (auto simp: deepCopyIntoStartupCPUBoostSpec_def boostSpecVal_def boostSpecReach_def struct_defs split: bind_splits)

sublocale copy_laws \<subseteq> boostStatus: copyable "deepCopyIntoStartupCPUBoostStatus L" "boostStatusVal V" "boostStatusReach V"
  by (rule copyable_struct [where get = "\<lambda>a. (mtActiveContainerBoosts a, mtTotalContainerBoosts a, mtConditions a)" and put = "\<lambda>(r0, r1, x). \<lparr>mtActiveContainerBoosts = r0, mtTotalContainerBoosts = r1, mtConditions = x\<rparr>"
      and f = "\<lambda>(r0, r1, x). \<lparr>stActiveContainerBoosts = r0, stTotalContainerBoosts = r1, stConditions = x\<rparr>",
      OF copyable_both [OF flat.copyable_axioms copyable_both [OF flat.copyable_axioms copyable_slice [OF condition.copyable_axioms typed_cells(11)]]]])
     (auto simp: deepCopyIntoStartupCPUBoostStatus_def boostStatusVal_def boostStatusReach_def struct_defs split: bind_splits)

sublocale copy_laws \<subseteq> boost: copyable "deepCopyIntoStartupCPUBoost L" "boostVal V" "boostReach V"
  by (rule copyable_struct [where get = "\<lambda>a. (mbTypeMeta a, mbObjectMeta a, mbSelector a, mbSpec a, mbStatus a)" and put = "\<lambda>(r0, om, s, x, y). \<lparr>mbTypeMeta = r0, mbObjectMeta = om, mbSelector = s, mbSpec = x, mbStatus = y\<rparr>"
      and f = "\<lambda>(r0, om, s, x, y). (r0, \<lparr>scbName = omName om, scbNamespace = omNamespace om, scbLabels = omLabels om,
        scbAnnotations = omAnnotations om, scbSelector = s, scbSpec = x, scbStatus = y\<rparr>)",
      OF copyable_both [OF flat.copyable_axioms copyable_both [OF objectMeta.copyable_axioms copyable_both [OF selector.copyable_axioms copyable_both [OF boostSpec.copyable_axioms boostStatus.copyable_axioms]]]]])
     (auto simp: deepCopyIntoStartupCPUBoost_def boostVal_def boostReach_def struct_defs split: bind_splits)

sublocale copy_laws \<subseteq> boostList: copyable "deepCopyIntoStartupCPUBoostList L" "boostListVal V" "boostListReach V"
  by (rule copyable_struct [where get = "\<lambda>a. (mlTypeMeta a, mlListMeta a, mlItems a)" and put = "\<lambda>(r0, l, x). \<lparr>mlTypeMeta = r0, mlListMeta = l, mlItems = x\<rparr>"
      and f = "\<lambda>(r0, l, x). (r0, l, x)",
      OF copyable_both [OF flat.copyable_axioms copyable_both [OF listMeta.copyable_axioms copyable_slice [OF boost.copyable_axioms typed_cells(13)]]]])
     (auto simp: deepCopyIntoStartupCPUBoostList_def boostListVal_def boostListReach_def struct_defs split: bind_splits)

sublocale copy_laws \<subseteq> template: copyable "deepCopyIntoGlobalStartupCPUBoostTemplate L" "templateVal V" "templateReach V"
  by (rule copyable_struct [where get = "\<lambda>a. (mpSelector a, mpSpec a)" and put = "\<lambda>(s, x). \<lparr>mpSelector = s, mpSpec = x\<rparr>"
      and f = "\<lambda>(s, x). \<lparr>gtSelector = s, gtSpec = x\<rparr>",
      OF copyable_both [OF selector.copyable_axioms boostSpec.copyable_axioms]])
     (auto simp: deepCopyIntoGlobalStartupCPUBoostTemplate_def templateVal_def templateReach_def struct_defs split: bind_splits)

sublocale copy_laws \<subseteq> globalSpec: copyable "deepCopyIntoGlobalStartupCPUBoostSpec L" "globalSpecVal V" "globalSpecReach V"
  by (rule copyable_struct [where get = "\<lambda>a. (mgNamespaceSelector a, mgTemplate a)" and put = "\<lambda>(s, x). \<lparr>mgNamespaceSelector = s, mgTemplate = x\<rparr>"
      and f = "\<lambda>(s, x). \<lparr>gsNamespaceSelector = s, gsTemplate = x\<rparr>",
      OF copyable_both [OF selector.copyable_axioms template.copyable_axioms]])
     (auto simp: deepCopyIntoGlobalStartupCPUBoostSpec_def globalSpecVal_def globalSpecReach_def struct_defs split: bind_splits)

sublocale copy_laws \<subseteq> globalStatus: copyable "deepCopyIntoGlobalStartupCPUBoostStatus L" "globalStatusVal V" "globalStatusReach V"
  by (rule copyable_struct [where get = "\<lambda>a. (muNamespaceCount a, muActiveNamespaces a, muSkippedNamespaces a, muConditions a)" and put = "\<lambda>(r0, x, y, z). \<lparr>muNamespaceCount = r0, muActiveNamespaces = x, muSkippedNamespaces = y, muConditions = z\<rparr>"
      and f = "\<lambda>(r0, x, y, z). \<lparr>gsNamespaceCount = r0, gsActiveNamespaces = x, gsSkippedNamespaces = y, gsConditions = z\<rparr>",
      OF copyable_both [OF flat.copyable_axioms copyable_both [OF strings.copyable_axioms copyable_both [OF strings.copyable_axioms copyable_slice [OF condition.copyable_axioms typed_cells(11)]]]]])
     (auto simp: deepCopyIntoGlobalStartupCPUBoostStatus_def globalStatusVal_def globalStatusReach_def struct_defs split: bind_splits)

sublocale copy_laws \<subseteq> global: copyable "deepCopyIntoGlobalStartupCPUBoost L" "globalVal V" "globalReach V"
  by (rule copyable_struct [where get = "\<lambda>a. (mgTypeMeta a, mgObjectMeta a, mgSpec a, mgStatus a)" and put = "\<lambda>(r0, om, x, y). \<lparr>mgTypeMeta = r0, mgObjectMeta = om, mgSpec = x, mgStatus = y\<rparr>"
      and f = "\<lambda>(r0, om, x, y). (r0, \<lparr>gbName = omName om, gbUID = omUID om, gbFinalizers = omFinalizers om,
        gbDeletionTimestamp = omDeletionTimestamp om, gbSpec = x, gbStatus = y\<rparr>)",
      OF copyable_both [OF flat.copyable_axioms copyable_both [OF objectMeta.copyable_axioms copyable_both [OF globalSpec.copyable_axioms globalStatus.copyable_axioms]]]])
     (auto simp: deepCopyIntoGlobalStartupCPUBoost_def globalVal_def globalReach_def struct_defs split: bind_splits)

sublocale copy_laws \<subseteq> globalList: copyable "deepCopyIntoGlobalStartupCPUBoostList L" "globalListVal V" "globalListReach V"
  by (rule copyable_struct [where get = "\<lambda>a. (mlTypeMeta a, mlListMeta a, mlItems a)" and put = "\<lambda>(r0, l, x). \<lparr>mlTypeMeta = r0, mlListMeta = l, mlItems = x\<rparr>"
      and f = "\<lambda>(r0, l, x). (r0, l, x)",
      OF copyable_both [OF flat.copyable_axioms copyable_both [OF listMeta.copyable_axioms copyable_slice [OF global.copyable_axioms typed_cells(20)]]]])
     (auto simp: deepCopyIntoGlobalStartupCPUBoostList_def globalListVal_def globalListReach_def struct_defs split: bind_splits)

section \<open>The methods DeepCopy and DeepCopyObject\<close>

abbreviation boostPtrVal :: "('e, 'x, 'q) library_view \<Rightarrow> ('e, 'x) mem \<Rightarrow> addr option \<Rightarrow> (type_meta \<times> 'q startup_cpu_boost) option option" where
  "boostPtrVal V \<equiv> pointerVal (typed is_BoostCell unBoost) (boostVal V)"
abbreviation boostPtrReach :: "('e, 'x, 'q) library_view \<Rightarrow> ('e, 'x) mem \<Rightarrow> addr option \<Rightarrow> addr set" where
  "boostPtrReach V \<equiv> pointerReach (typed is_BoostCell unBoost) (boostReach V)"
abbreviation globalsPtrVal :: "('e, 'x, 'q) library_view \<Rightarrow> ('e, 'x) mem \<Rightarrow> addr option \<Rightarrow>
    (type_meta \<times> list_meta \<times> (type_meta \<times> 'q global_boost) list) option option" where
  "globalsPtrVal V \<equiv> pointerVal (typed is_GlobalListCell unGlobalList) (globalListVal V)"
abbreviation globalsPtrReach :: "('e, 'x, 'q) library_view \<Rightarrow> ('e, 'x) mem \<Rightarrow> addr option \<Rightarrow> addr set" where
  "globalsPtrReach V \<equiv> pointerReach (typed is_GlobalListCell unGlobalList) (globalListReach V)"

sublocale copy_laws \<subseteq> boostPtr: copyable "DeepCopyStartupCPUBoost L" "boostPtrVal V" "boostPtrReach V"
  unfolding DeepCopyStartupCPUBoost_def by (rule copyable_pointer [OF boost.copyable_axioms typed_cells(12)])

sublocale copy_laws \<subseteq> globalsPtr: copyable "DeepCopyGlobalStartupCPUBoostList L" "globalsPtrVal V" "globalsPtrReach V"
  unfolding DeepCopyGlobalStartupCPUBoostList_def by (rule copyable_pointer [OF globalList.copyable_axioms typed_cells(21)])

lemma pointerVal_Some: "pointerVal un v m p = Some (Some w) \<Longrightarrow> p \<noteq> None"
  by (cases p) (simp_all add: pointerVal_def)

context copy_laws
begin

lemmas boost_independent = boostPtr.copy_independent
lemmas globals_independent = globalsPtr.copy_independent

end

section \<open>A concrete library\<close>

text \<open>
  Structures of the libraries as a flat part and a pointer to a map, which holds the labels of an object or
  the labels of a selector.
\<close>

datatype lib_data =
    QuantityData int
  | ObjectMetaData object_meta
  | ListMetaData list_meta
  | SelectorData "label_requirement list"
  | ConditionData status_condition

type_synonym lib_struct = "lib_data \<times> addr option"
type_synonym lib_mem = "(lib_struct, (string, string) alist) mem"

lemma copyable_partial:
  assumes "copyable c v r"
  shows "copyable c (\<lambda>m a. Option.bind (v m a) g) r"
proof (rule copyable.intro)
  fix m a w
  assume "Option.bind (v m a) g = Some w"
  then obtain x where x: "v m a = Some x" "g x = Some w" by (auto simp: bind_eq_Some_conv)
  show "r m a \<subseteq> {..< nextAddr m}" by (rule copyable.allocated [OF assms x(1)])
  show "\<exists>b m'. c a m = Some (b, m') \<and> extends m m' \<and> Option.bind (v m' b) g = Some w \<and> r m' b \<subseteq> new_cells m m'"
    using copyable.copies [OF assms x(1)] x(2) by fastforce
  show "Option.bind (v m' a) g = Some w \<and> r m' a = r m a" if "\<And>z. z \<in> r m a \<Longrightarrow> fetch m' z = fetch m z" for m'
    using copyable.local_val [OF assms x(1) that] x(2) by simp
qed

definition structCopy :: "(lib_struct, lib_struct, (string, string) alist) copier" where
  "structCopy = copyBoth copyFlat (copyPointer LibraryCell (typed is_LibraryCell unLibrary) copyFlat)"

definition structVal :: "(lib_data \<times> string gomap \<Rightarrow> 'v option) \<Rightarrow> lib_mem \<Rightarrow> lib_struct \<Rightarrow> 'v option" where
  "structVal g m a = Option.bind (bothVal flatVal (pointerVal (typed is_LibraryCell unLibrary) flatVal) m a) g"

definition structReach :: "lib_mem \<Rightarrow> lib_struct \<Rightarrow> addr set" where
  "structReach = bothReach flatReach (pointerReach (typed is_LibraryCell unLibrary) flatReach)"

lemma copyable_structs: "copyable structCopy (structVal g) structReach"
proof -
  have "copyable (copyPointer LibraryCell (typed is_LibraryCell unLibrary) copyFlat)
      (pointerVal (typed is_LibraryCell unLibrary) flatVal :: lib_mem \<Rightarrow> _) (pointerReach (typed is_LibraryCell unLibrary) flatReach)"
    by (rule copyable_pointer [OF flat.copyable_axioms]) (simp add: typed_def)
  then show ?thesis
    unfolding structCopy_def structReach_def structVal_def [abs_def]
    by (intro copyable_partial copyable_both flat.copyable_axioms)
qed

definition map_library :: "(lib_struct, (string, string) alist) copy_library" where
  "map_library = \<lparr>QuantityDeepCopy = structCopy, ObjectMetaDeepCopyInto = structCopy, ListMetaDeepCopyInto = structCopy,
     LabelSelectorDeepCopyInto = structCopy, ConditionDeepCopyInto = structCopy\<rparr>"

definition map_view :: "(lib_struct, (string, string) alist, int) library_view" where
  "map_view = \<lparr>
     quantityVal = structVal (\<lambda>(d, l). case d of QuantityData q \<Rightarrow> Some q | _ \<Rightarrow> None), quantityReach = structReach,
     objectMetaVal = structVal (\<lambda>(d, l). case d of ObjectMetaData om \<Rightarrow> Some (om\<lparr>omLabels := l\<rparr>) | _ \<Rightarrow> None),
     objectMetaReach = structReach,
     listMetaVal = structVal (\<lambda>(d, l). case d of ListMetaData lm \<Rightarrow> Some lm | _ \<Rightarrow> None), listMetaReach = structReach,
     selectorVal = structVal (\<lambda>(d, l). case d of SelectorData es \<Rightarrow> Some \<lparr>matchLabels = l, matchExpressions = es\<rparr> | _ \<Rightarrow> None),
     selectorReach = structReach,
     conditionVal = structVal (\<lambda>(d, l). case d of ConditionData c \<Rightarrow> Some c | _ \<Rightarrow> None), conditionReach = structReach\<rparr>"

interpretation maplib: copy_laws map_library map_view
  by (intro copy_laws.intro) (simp_all add: map_library_def map_view_def copyable_structs)

section \<open>Properties\<close>

text \<open>
  C13. The deep copy of a boost object returns a new object that stands for the same boost and leaves every
  cell of the memory as it was. From then on the two are independent: whatever is written to the cells of
  one of them, the other stands for the same boost as before. A nil pointer gives a nil object.
\<close>

theorem deep_copy_boost:
  assumes "copy_laws L V" and "boostPtrVal V m (Some x) = Some (Some b)"
  shows "DeepCopyObjectStartupCPUBoost L None m = Some (None, m) \<and>
    (\<exists>y m'. DeepCopyObjectStartupCPUBoost L (Some x) m = Some (Some (BoostObject y), m') \<and> extends m m' \<and>
       boostPtrVal V m' (Some y) = Some (Some b) \<and>
       (\<forall>m''. (\<forall>z. z \<notin> boostPtrReach V m' (Some y) \<longrightarrow> fetch m'' z = fetch m' z) \<longrightarrow> boostPtrVal V m'' (Some x) = Some (Some b)) \<and>
       (\<forall>m''. (\<forall>z. z \<notin> boostPtrReach V m' (Some x) \<longrightarrow> fetch m'' z = fetch m' z) \<longrightarrow> boostPtrVal V m'' (Some y) = Some (Some b)))"
proof -
  obtain p m' where c: "DeepCopyStartupCPUBoost L (Some x) m = Some (p, m')" "extends m m'"
    "boostPtrVal V m' p = Some (Some b)"
    "\<And>m''. (\<And>z. z \<notin> boostPtrReach V m' p \<Longrightarrow> fetch m'' z = fetch m' z) \<Longrightarrow> boostPtrVal V m'' (Some x) = Some (Some b)"
    "\<And>m''. (\<And>z. z \<notin> boostPtrReach V m' (Some x) \<Longrightarrow> fetch m'' z = fetch m' z) \<Longrightarrow> boostPtrVal V m'' p = Some (Some b)"
    using copy_laws.boost_independent [OF assms] by metis
  obtain y where y: "p = Some y" using pointerVal_Some [OF c(3)] by blast
  have "DeepCopyObjectStartupCPUBoost L None m = Some (None, m)"
    by (simp add: DeepCopyObjectStartupCPUBoost_def DeepCopyStartupCPUBoost_def copyPointer_def)
  moreover have "DeepCopyObjectStartupCPUBoost L (Some x) m = Some (Some (BoostObject y), m')"
    by (simp add: DeepCopyObjectStartupCPUBoost_def c(1) y)
  ultimately show ?thesis using c(2-5) unfolding y by blast
qed

text \<open>A boost in memory: two cells for maps, one for the percentage, one for the policies and one for the boost.\<close>

definition sample_labels_map :: "(string, string) alist" where
  "sample_labels_map = DAList.update ''app'' ''web'' DAList.empty"

definition sample_memory :: lib_mem where
  "sample_memory = \<lparr>cells = (\<lambda>x. [LibraryCell sample_labels_map, PercentageCell \<lparr>piValue = 50\<rparr>,
       ContainerPoliciesCell [\<lparr>mcContainerName = ''app'', mcPercentageIncrease = Some 1, mcFixedResources = None\<rparr>],
       BoostCell \<lparr>mbTypeMeta = \<lparr>tmKind = ''StartupCPUBoost'', tmAPIVersion = ''v1alpha1''\<rparr>,
         mbObjectMeta = (ObjectMetaData \<lparr>omName = ''boost'', omNamespace = ''prod'', omUID = ''1'', omLabels = nil_map,
           omAnnotations = nil_map, omFinalizers = [], omDeletionTimestamp = None\<rparr>, Some 0),
         mbSelector = (SelectorData [], Some 0),
         mbSpec = \<lparr>msResourcePolicy = \<lparr>mrContainerPolicies = Some \<lparr>sliceBase = 2, sliceOffset = 0, sliceLen = 1\<rparr>\<rparr>,
           msDurationPolicy = \<lparr>mdFixed = None, mdPodCondition = None\<rparr>\<rparr>,
         mbStatus = \<lparr>mtActiveContainerBoosts = 0, mtTotalContainerBoosts = 0, mtConditions = None\<rparr>\<rparr>] ! x), nextAddr = 4\<rparr>"

lemma sample_memory_boost: "\<exists>b. boostPtrVal map_view sample_memory (Some 3) = Some (Some b) \<and> scbName (snd b) = ''boost''"
proof -
  have "case boostPtrVal map_view sample_memory (Some 3) of Some (Some b) \<Rightarrow> scbName (snd b) = ''boost'' | _ \<Rightarrow> False"
    by code_simp
  then show ?thesis by (auto split: option.splits)
qed

theorem deep_copy_boost_witness:
  "\<exists>y m' b. DeepCopyObjectStartupCPUBoost map_library (Some 3) sample_memory = Some (Some (BoostObject y), m') \<and>
     scbName (snd b) = ''boost'' \<and> boostPtrVal map_view m' (Some y) = Some (Some b) \<and>
     boostPtrVal map_view (store y (PercentageCell \<lparr>piValue = 0\<rparr>) m') (Some 3) = Some (Some b)"
proof -
  obtain b where b: "boostPtrVal map_view sample_memory (Some 3) = Some (Some b)" "scbName (snd b) = ''boost''"
    using sample_memory_boost by blast
  obtain y m' where y: "DeepCopyObjectStartupCPUBoost map_library (Some 3) sample_memory = Some (Some (BoostObject y), m')"
    "boostPtrVal map_view m' (Some y) = Some (Some b)"
    "\<forall>m''. (\<forall>z. z \<notin> boostPtrReach map_view m' (Some y) \<longrightarrow> fetch m'' z = fetch m' z) \<longrightarrow>
       boostPtrVal map_view m'' (Some 3) = Some (Some b)"
    using deep_copy_boost [OF maplib.copy_laws_axioms b(1)] by blast
  have "fetch (store y k m') z = fetch m' z" if "z \<notin> boostPtrReach map_view m' (Some y)" for z k
    using that by (auto simp: fetch_store pointerReach_def)
  with y b(2) show ?thesis by blast
qed

text \<open>
  C14. The same for a list of global boosts, with the objects in it, their templates and their status: the copy
  stands for the same list, shares no cell with the original, and neither changes when the other does.
\<close>

theorem deep_copy_global_list:
  assumes "copy_laws L V" and "globalsPtrVal V m (Some x) = Some (Some gs)"
  shows "DeepCopyObjectGlobalStartupCPUBoostList L None m = Some (None, m) \<and>
    (\<exists>y m'. DeepCopyObjectGlobalStartupCPUBoostList L (Some x) m = Some (Some (GlobalListObject y), m') \<and> extends m m' \<and>
       globalsPtrVal V m' (Some y) = Some (Some gs) \<and>
       globalsPtrReach V m' (Some x) \<inter> globalsPtrReach V m' (Some y) = {} \<and>
       (\<forall>m''. (\<forall>z. z \<notin> globalsPtrReach V m' (Some y) \<longrightarrow> fetch m'' z = fetch m' z) \<longrightarrow> globalsPtrVal V m'' (Some x) = Some (Some gs)) \<and>
       (\<forall>m''. (\<forall>z. z \<notin> globalsPtrReach V m' (Some x) \<longrightarrow> fetch m'' z = fetch m' z) \<longrightarrow> globalsPtrVal V m'' (Some y) = Some (Some gs)))"
proof -
  obtain p m' where c: "DeepCopyGlobalStartupCPUBoostList L (Some x) m = Some (p, m')" "extends m m'"
    "globalsPtrVal V m' p = Some (Some gs)" "globalsPtrReach V m' (Some x) \<inter> globalsPtrReach V m' p = {}"
    "\<And>m''. (\<And>z. z \<notin> globalsPtrReach V m' p \<Longrightarrow> fetch m'' z = fetch m' z) \<Longrightarrow> globalsPtrVal V m'' (Some x) = Some (Some gs)"
    "\<And>m''. (\<And>z. z \<notin> globalsPtrReach V m' (Some x) \<Longrightarrow> fetch m'' z = fetch m' z) \<Longrightarrow> globalsPtrVal V m'' p = Some (Some gs)"
    using copy_laws.globals_independent [OF assms] by metis
  obtain y where y: "p = Some y" using pointerVal_Some [OF c(3)] by blast
  have "DeepCopyObjectGlobalStartupCPUBoostList L None m = Some (None, m)"
    by (simp add: DeepCopyObjectGlobalStartupCPUBoostList_def DeepCopyGlobalStartupCPUBoostList_def copyPointer_def)
  moreover have "DeepCopyObjectGlobalStartupCPUBoostList L (Some x) m = Some (Some (GlobalListObject y), m')"
    by (simp add: DeepCopyObjectGlobalStartupCPUBoostList_def c(1) y)
  ultimately show ?thesis using c(2-6) unfolding y by blast
qed

definition global_memory :: lib_mem where
  "global_memory = \<lparr>cells = (\<lambda>x. [LibraryCell sample_labels_map, StringsCell [''dev'', ''test''],
       GlobalsCell [\<lparr>mgTypeMeta = \<lparr>tmKind = ''GlobalStartupCPUBoost'', tmAPIVersion = ''v1alpha1''\<rparr>,
         mgObjectMeta = (ObjectMetaData \<lparr>omName = ''g'', omNamespace = '''', omUID = ''1'', omLabels = nil_map,
           omAnnotations = nil_map, omFinalizers = [], omDeletionTimestamp = None\<rparr>, Some 0),
         mgSpec = \<lparr>mgNamespaceSelector = (SelectorData [], Some 0),
           mgTemplate = \<lparr>mpSelector = (SelectorData [], Some 0),
             mpSpec = \<lparr>msResourcePolicy = \<lparr>mrContainerPolicies = None\<rparr>,
               msDurationPolicy = \<lparr>mdFixed = None, mdPodCondition = None\<rparr>\<rparr>\<rparr>\<rparr>,
         mgStatus = \<lparr>muNamespaceCount = 2, muActiveNamespaces = Some \<lparr>sliceBase = 1, sliceOffset = 0, sliceLen = 2\<rparr>,
           muSkippedNamespaces = None, muConditions = None\<rparr>\<rparr>],
       GlobalListCell \<lparr>mlTypeMeta = \<lparr>tmKind = ''GlobalStartupCPUBoostList'', tmAPIVersion = ''v1alpha1''\<rparr>,
         mlListMeta = (ListMetaData \<lparr>lmResourceVersion = ''7'', lmContinue = ''''\<rparr>, None),
         mlItems = Some \<lparr>sliceBase = 2, sliceOffset = 0, sliceLen = 1\<rparr>\<rparr>] ! x), nextAddr = 4\<rparr>"

theorem deep_copy_global_list_witness:
  "\<exists>y m' gs. DeepCopyObjectGlobalStartupCPUBoostList map_library (Some 3) global_memory = Some (Some (GlobalListObject y), m') \<and>
     map (gbName \<circ> snd) (snd (snd gs)) = [''g''] \<and> globalsPtrVal map_view m' (Some y) = Some (Some gs) \<and> y \<noteq> 3"
proof -
  have "case globalsPtrVal map_view global_memory (Some 3) of
      Some (Some gs) \<Rightarrow> map (gbName \<circ> snd) (snd (snd gs)) = [''g''] | _ \<Rightarrow> False"
    by code_simp
  then obtain gs where gs: "globalsPtrVal map_view global_memory (Some 3) = Some (Some gs)"
    "map (gbName \<circ> snd) (snd (snd gs)) = [''g'']" by (auto split: option.splits)
  obtain y m' where y: "DeepCopyObjectGlobalStartupCPUBoostList map_library (Some 3) global_memory = Some (Some (GlobalListObject y), m')"
    "globalsPtrVal map_view m' (Some y) = Some (Some gs)"
    "globalsPtrReach map_view m' (Some 3) \<inter> globalsPtrReach map_view m' (Some y) = {}"
    using deep_copy_global_list [OF maplib.copy_laws_axioms gs(1)] by blast
  then have "y \<noteq> 3" by (auto simp: pointerReach_def)
  with y(1,2) gs(2) show ?thesis by (intro exI [of _ y] exI [of _ m'] exI [of _ gs]) (intro conjI)
qed

end
