(* ===== verification/Validation_Webhooks.thy ===== *)
theory Validation_Webhooks
  imports Sample_Deps
begin

text \<open>
  \<^verbatim>\<open>internal/webhook/startupcpuboost_webhook.go\<close> and \<^verbatim>\<open>globalstartupcpuboost_webhook.go\<close>: the
  validating webhooks. A field error keeps the path and the detail; the offending value that the
  library stores for the message is left out. The type assertion on the decoded object panics on an
  object of another type, which is the value \<open>None\<close>.
\<close>

section \<open>Field errors\<close>

datatype path_element = Child string | Index nat

type_synonym field_path = "path_element list"

datatype field_error = Invalid field_path string

datatype 'q runtime_object =
    StartupCPUBoostObject "'q startup_cpu_boost"
  | GlobalStartupCPUBoostObject "'q global_boost"
  | OtherRuntimeObject

text \<open>\<^verbatim>\<open>apierrors.NewInvalid\<close>: the kind, the name and the list of field errors.\<close>

datatype api_error = NewInvalid string string "field_error list"

section \<open>Validation of a boost\<close>

definition validateDurationPolicy :: "duration_policy_spec \<Rightarrow> field_error option" where
  "validateDurationPolicy policy =
     (let cnt = 0 :: nat;
          cnt = (if dpFixed policy \<noteq> None then cnt + 1 else cnt);
          cnt = (if dpPodCondition policy \<noteq> None then cnt + 1 else cnt)
      in if cnt \<noteq> 1 then Some (Invalid [Child ''spec'', Child ''''] ''one type of duration policy should be defined'')
         else None)"

definition policiesFldPath :: "nat \<Rightarrow> field_path" where
  "policiesFldPath i = [Child ''spec'', Child ''resourcePolicy'', Child ''containerPolicies'', Index i]"

abbreviation wildcardDetail :: string where
  "wildcardDetail \<equiv> ''only one wildcard (*) container policy is allowed''"

abbreviation policyDetail :: string where
  "policyDetail \<equiv> ''one type of resource policy should be defined''"

fun validateContainerPoliciesLoop ::
  "nat \<Rightarrow> 'q container_policy_spec list \<Rightarrow> nat \<Rightarrow> field_error list \<Rightarrow> field_error list" where
  "validateContainerPoliciesLoop i [] wildcardCount allErrs = allErrs"
| "validateContainerPoliciesLoop i (p # ps) wildcardCount allErrs =
     (let isWildcard = (cpContainerName p = ContainerPolicyWildcard);
          wildcardCount = (if isWildcard then wildcardCount + 1 else wildcardCount);
          allErrs = (if isWildcard \<and> wildcardCount > 1
                     then allErrs @ [Invalid (policiesFldPath i) wildcardDetail] else allErrs);
          cnt = 0 :: nat;
          cnt = (if cpFixedResources p \<noteq> None then cnt + 1 else cnt);
          cnt = (if cpPercentageIncrease p \<noteq> None then cnt + 1 else cnt);
          allErrs = (if cnt \<noteq> 1 then allErrs @ [Invalid (policiesFldPath i) policyDetail] else allErrs)
      in validateContainerPoliciesLoop (i + 1) ps wildcardCount allErrs)"

definition validateContainerPolicies :: "'q container_policy_spec list \<Rightarrow> field_error list" where
  "validateContainerPolicies policies = validateContainerPoliciesLoop 0 policies 0 []"

definition validate :: "'q startup_cpu_boost \<Rightarrow> api_error option" where
  "validate boost =
     (let errs = validateContainerPolicies (rpContainerPolicies (bsResourcePolicy (scbSpec boost)));
          allErrs = (if length errs > 0 then errs else []);
          allErrs = (case validateDurationPolicy (bsDurationPolicy (scbSpec boost)) of
                       None \<Rightarrow> allErrs | Some err \<Rightarrow> allErrs @ [err])
      in if length allErrs > 0 then Some (NewInvalid ''StartupCPUBoost'' (scbName boost) allErrs) else None)"

definition ValidateCreate :: "'q runtime_object \<Rightarrow> api_error option option" where
  "ValidateCreate obj = (case obj of StartupCPUBoostObject boost \<Rightarrow> Some (validate boost) | _ \<Rightarrow> None)"

definition ValidateUpdate :: "'q runtime_object \<Rightarrow> 'q runtime_object \<Rightarrow> api_error option option" where
  "ValidateUpdate oldObj newObj = (case newObj of StartupCPUBoostObject boost \<Rightarrow> Some (validate boost) | _ \<Rightarrow> None)"

definition ValidateDelete :: "'q runtime_object \<Rightarrow> api_error option option" where
  "ValidateDelete obj = Some None"

section \<open>Validation of a global boost\<close>

text \<open>The message of a selector error comes from the library; \<open>errText\<close> gives it.\<close>

definition validateGlobal :: "as_selector \<Rightarrow> (go_error \<Rightarrow> string) \<Rightarrow> 'q global_boost \<Rightarrow> api_error option" where
  "validateGlobal asSelector errText boost =
     (let spec = gbSpec boost;
          allErrs = (case asSelector (gsNamespaceSelector spec) of
              Inl err \<Rightarrow> [Invalid [Child ''spec'', Child ''namespaceSelector''] (errText err)]
            | Inr _ \<Rightarrow> []);
          allErrs = (case asSelector (gtSelector (gsTemplate spec)) of
              Inl err \<Rightarrow> allErrs @ [Invalid [Child ''spec'', Child ''template'', Child ''selector''] (errText err)]
            | Inr _ \<Rightarrow> allErrs);
          errs = validateContainerPolicies (rpContainerPolicies (bsResourcePolicy (gtSpec (gsTemplate spec))));
          allErrs = (if length errs > 0 then allErrs @ errs else allErrs);
          allErrs = (case validateDurationPolicy (bsDurationPolicy (gtSpec (gsTemplate spec))) of
                       None \<Rightarrow> allErrs | Some err \<Rightarrow> allErrs @ [err])
      in if length allErrs > 0 then Some (NewInvalid ''GlobalStartupCPUBoost'' (gbName boost) allErrs) else None)"

definition globalValidateCreate ::
  "as_selector \<Rightarrow> (go_error \<Rightarrow> string) \<Rightarrow> 'q runtime_object \<Rightarrow> api_error option option" where
  "globalValidateCreate asSelector errText obj =
     (case obj of GlobalStartupCPUBoostObject boost \<Rightarrow> Some (validateGlobal asSelector errText boost) | _ \<Rightarrow> None)"

definition globalValidateUpdate ::
  "as_selector \<Rightarrow> (go_error \<Rightarrow> string) \<Rightarrow> 'q runtime_object \<Rightarrow> 'q runtime_object \<Rightarrow> api_error option option" where
  "globalValidateUpdate asSelector errText oldObj newObj =
     (case newObj of GlobalStartupCPUBoostObject boost \<Rightarrow> Some (validateGlobal asSelector errText boost) | _ \<Rightarrow> None)"

definition globalValidateDelete :: "'q runtime_object \<Rightarrow> api_error option option" where
  "globalValidateDelete obj = Some None"

section \<open>What the checks accept\<close>

definition is_wildcard :: "'q container_policy_spec \<Rightarrow> bool" where
  "is_wildcard p \<longleftrightarrow> cpContainerName p = ContainerPolicyWildcard"

text \<open>The errors of one entry, given whether an earlier entry is a wildcard.\<close>

definition entry_errors :: "bool \<Rightarrow> nat \<Rightarrow> 'q container_policy_spec \<Rightarrow> field_error list" where
  "entry_errors earlier i p =
     (if is_wildcard p \<and> earlier then [Invalid (policiesFldPath i) wildcardDetail] else []) @
     (if one_policy p then [] else [Invalid (policiesFldPath i) policyDetail])"

definition policy_errors :: "'q container_policy_spec list \<Rightarrow> field_error list" where
  "policy_errors ps =
     concat (map (\<lambda>i. entry_errors (\<exists>q \<in> set (take i ps). is_wildcard q) i (ps ! i)) [0 ..< length ps])"

lemma validateContainerPoliciesLoop_snoc:
  "validateContainerPoliciesLoop i (ps @ [p]) w errs =
     validateContainerPoliciesLoop i ps w errs @
     entry_errors (0 < w + length (filter is_wildcard ps)) (i + length ps) p"
  by (induction ps arbitrary: i w errs)
     (auto simp: Let_def entry_errors_def is_wildcard_def one_policy_def)

lemma policy_errors_snoc:
  "policy_errors (ps @ [p]) = policy_errors ps @ entry_errors (\<exists>q \<in> set ps. is_wildcard q) (length ps) p"
proof -
  have m: "map (\<lambda>i. entry_errors (\<exists>q \<in> set (take i (ps @ [p])). is_wildcard q) i ((ps @ [p]) ! i)) [0 ..< length ps] =
      map (\<lambda>i. entry_errors (\<exists>q \<in> set (take i ps). is_wildcard q) i (ps ! i)) [0 ..< length ps]"
    by (simp add: nth_append)
  have "[0 ..< length (ps @ [p])] = [0 ..< length ps] @ [length ps]" by simp
  then show ?thesis unfolding policy_errors_def by (simp only: map_append concat_append m) simp
qed

lemma validateContainerPolicies_snoc:
  "validateContainerPolicies (ps @ [p]) =
     validateContainerPolicies ps @ entry_errors (\<exists>q \<in> set ps. is_wildcard q) (length ps) p"
proof -
  have "(0 < length (filter is_wildcard ps)) = (\<exists>q \<in> set ps. is_wildcard q)"
    by (auto simp: filter_empty_conv)
  then show ?thesis
    using validateContainerPoliciesLoop_snoc [of 0 ps p 0 "[]"] by (simp add: validateContainerPolicies_def)
qed

lemma validateContainerPolicies_errors: "validateContainerPolicies ps = policy_errors ps"
proof (induction ps rule: rev_induct)
  case Nil
  then show ?case by (simp add: validateContainerPolicies_def policy_errors_def)
qed (simp add: policy_errors_snoc validateContainerPolicies_snoc)

definition one_wildcard :: "'q container_policy_spec list \<Rightarrow> bool" where
  "one_wildcard ps \<longleftrightarrow> length (filter is_wildcard ps) \<le> 1"

lemma validateContainerPolicies_ok:
  "validateContainerPolicies ps = [] \<longleftrightarrow> (\<forall>p \<in> set ps. one_policy p) \<and> one_wildcard ps"
proof (induction ps rule: rev_induct)
  case Nil
  then show ?case by (simp add: validateContainerPolicies_def one_wildcard_def)
next
  case (snoc p ps)
  have "(\<exists>q \<in> set ps. is_wildcard q) = (filter is_wildcard ps \<noteq> [])" by (auto simp: filter_empty_conv)
  with snoc show ?case by (auto simp: validateContainerPolicies_snoc entry_errors_def one_wildcard_def)
qed

definition one_duration :: "duration_policy_spec \<Rightarrow> bool" where
  "one_duration d \<longleftrightarrow> (dpFixed d = None) \<noteq> (dpPodCondition d = None)"

lemma validateDurationPolicy_ok: "validateDurationPolicy d = None \<longleftrightarrow> one_duration d"
  by (auto simp: validateDurationPolicy_def one_duration_def Let_def)

definition valid_spec :: "'q boost_spec \<Rightarrow> bool" where
  "valid_spec s \<longleftrightarrow> one_duration (bsDurationPolicy s) \<and>
     (\<forall>p \<in> set (rpContainerPolicies (bsResourcePolicy s)). one_policy p) \<and>
     one_wildcard (rpContainerPolicies (bsResourcePolicy s))"

lemma validate_ok: "validate boost = None \<longleftrightarrow> valid_spec (scbSpec boost)"
  by (cases "validateDurationPolicy (bsDurationPolicy (scbSpec boost))")
     (auto simp: validate_def Let_def valid_spec_def validateContainerPolicies_ok [symmetric]
        validateDurationPolicy_ok [symmetric])

lemma validateGlobal_ok:
  "validateGlobal asSel txt g = None \<longleftrightarrow>
     (\<exists>s. asSel (gsNamespaceSelector (gbSpec g)) = Inr s) \<and>
     (\<exists>s. asSel (gtSelector (gsTemplate (gbSpec g))) = Inr s) \<and> valid_spec (gtSpec (gsTemplate (gbSpec g)))"
  by (cases "validateDurationPolicy (bsDurationPolicy (gtSpec (gsTemplate (gbSpec g))))";
      cases "asSel (gsNamespaceSelector (gbSpec g))"; cases "asSel (gtSelector (gsTemplate (gbSpec g)))")
     (auto simp: validateGlobal_def Let_def valid_spec_def validateContainerPolicies_ok [symmetric]
        validateDurationPolicy_ok [symmetric])

section \<open>Properties\<close>

text \<open>
  The container policies are checked one by one: the errors are, in the order of the entries, one
  for every wildcard entry after the first and one for every entry that does not define exactly one
  kind of policy, each at the index of its entry.
\<close>

lemma container_policy_errors:
  "validateContainerPolicies ps =
     concat (map (\<lambda>i. (if cpContainerName (ps ! i) = ContainerPolicyWildcard \<and>
                            (\<exists>q \<in> set (take i ps). cpContainerName q = ContainerPolicyWildcard)
                         then [Invalid (policiesFldPath i) wildcardDetail] else []) @
                        (if (cpFixedResources (ps ! i) = None) \<noteq> (cpPercentageIncrease (ps ! i) = None)
                         then [] else [Invalid (policiesFldPath i) policyDetail])) [0 ..< length ps])"
  by (simp only: validateContainerPolicies_errors policy_errors_def entry_errors_def is_wildcard_def one_policy_def)

text \<open>
  C30. The validating webhooks accept exactly the specifications with one duration policy, one
  resource policy in every entry and at most one wildcard; the webhook for global boosts also asks
  for a valid namespace selector and a valid pod selector.
\<close>

theorem admitted_boosts:
  "(validate boost = None \<longleftrightarrow> valid_spec (scbSpec boost)) \<and>
   (validateGlobal asSel txt g = None \<longleftrightarrow>
     (\<exists>s. asSel (gsNamespaceSelector (gbSpec g)) = Inr s) \<and>
     (\<exists>s. asSel (gtSelector (gsTemplate (gbSpec g))) = Inr s) \<and> valid_spec (gtSpec (gsTemplate (gbSpec g))))"
  using validate_ok validateGlobal_ok by blast

text \<open>
  C31. A boost that the validating webhook accepts can be built unless its selector is invalid, which
  the webhook does not check: then the constructor fails on an accepted object.
\<close>

theorem accepted_boost_builds:
  assumes "validate boost = None"
  shows "case asSel (scbSelector boost) of
      Inr sel \<Rightarrow> \<exists>r h'. NewStartupCPUBoost asSel boost legacy h = (Inr r, h') \<and> boostSelector (boostAt h' r) = sel
    | Inl err \<Rightarrow> NewStartupCPUBoost asSel boost legacy h = (Inl err, h)"
proof -
  have "\<exists>rp. mapResourcePolicy (bsResourcePolicy (scbSpec boost)) = Inr rp"
    unfolding mapResourcePolicy_ok_iff using assms by (simp add: validate_ok valid_spec_def)
  then show ?thesis by (auto simp: NewStartupCPUBoost_def Let_def split: sum.splits)
qed

theorem accepted_boost_builds_witness:
  "validate sample_scb = None \<and>
   (\<exists>r h'. NewStartupCPUBoost sample_selector sample_scb False sample_heap = (Inr r, h')) \<and>
   NewStartupCPUBoost (\<lambda>_. Inl (OtherError ''invalid'')) sample_scb False sample_heap =
     (Inl (OtherError ''invalid''), sample_heap)"
proof -
  have v: "validate sample_scb = None"
    by (simp add: validate_ok valid_spec_def one_duration_def one_policy_def one_wildcard_def sample_scb_def sample_spec_def)
  moreover have "sample_selector (scbSelector sample_scb) = Inr (label_selector_matches (scbSelector sample_scb))"
    by (simp add: sample_selector_def sample_scb_def)
  ultimately show ?thesis
    using accepted_boost_builds [OF v, of sample_selector False sample_heap]
      accepted_boost_builds [OF v, of "\<lambda>_. Inl (OtherError ''invalid'')" False sample_heap]
    by auto
qed

end
