(* ===== verification/Global_Boost_Controller.thy ===== *)
theory Global_Boost_Controller
  imports Boost_Controller "HOL-Library.List_Lexorder" "HOL-Library.Char_ord"
begin

text \<open>
  \<^verbatim>\<open>internal/controller/globalboost_controller.go\<close>: the reconciler of the cluster wide boosts. It keeps
  one child boost in every namespace that the global boost selects, except in namespaces that
  have boosts of their own. The API client is a record of functions on the state \<open>'w\<close> of the cluster;
  the helpers of the Kubernetes libraries (conditions, finalizers, selectors and
  \<^verbatim>\<open>equality.Semantic.DeepEqual\<close>, which compares quantities by value) are the record \<open>global_lib\<close>.
\<close>

section \<open>Libraries\<close>

record namespace_obj =
  nsName :: string
  nsLabels :: "string gomap"
  nsDeletionTimestamp :: "int option"

record ('q, 'w) cluster_api =
  GetGlobal :: "string \<Rightarrow> 'w \<Rightarrow> go_error + 'q global_boost"
  UpdateGlobal :: "'q global_boost \<Rightarrow> 'w \<Rightarrow> go_error option \<times> 'w"
  UpdateGlobalStatus :: "'q global_boost \<Rightarrow> 'w \<Rightarrow> go_error option \<times> 'w"
  ListGlobals :: "'w \<Rightarrow> go_error + 'q global_boost list"
  GetNamespace :: "string \<Rightarrow> 'w \<Rightarrow> go_error + namespace_obj"
  ListNamespaces :: "selector \<Rightarrow> 'w \<Rightarrow> go_error + namespace_obj list"
  GetChild :: "string \<Rightarrow> string \<Rightarrow> 'w \<Rightarrow> go_error + 'q startup_cpu_boost"
  ListBoosts :: "string \<Rightarrow> 'w \<Rightarrow> go_error + 'q startup_cpu_boost list"
  ListLabelled :: "string \<Rightarrow> string \<Rightarrow> 'w \<Rightarrow> go_error + 'q startup_cpu_boost list"
  CreateBoost :: "'q startup_cpu_boost \<Rightarrow> 'w \<Rightarrow> go_error option \<times> 'w"
  UpdateBoost :: "'q startup_cpu_boost \<Rightarrow> 'w \<Rightarrow> go_error option \<times> 'w"
  DeleteBoost :: "'q startup_cpu_boost \<Rightarrow> 'w \<Rightarrow> go_error option \<times> 'w"

record 'q global_lib =
  AsSelector :: as_selector
  SetCondition :: set_status_condition
  EqualSelector :: "label_selector \<Rightarrow> label_selector \<Rightarrow> bool"
  EqualSpec :: "'q boost_spec \<Rightarrow> 'q boost_spec \<Rightarrow> bool"
  ContainsFinalizer :: "string list \<Rightarrow> string \<Rightarrow> bool"
  AddFinalizer :: "string list \<Rightarrow> string \<Rightarrow> string list"
  RemoveFinalizer :: "string list \<Rightarrow> string \<Rightarrow> string list"

section \<open>Children\<close>

text \<open>\<^verbatim>\<open>boost.Labels[ManagedByGlobalBoostLabel]\<close>: a missing key reads as the empty string.\<close>

definition managedBy :: "'q startup_cpu_boost \<Rightarrow> string" where
  "managedBy boost = (case map_get (scbLabels boost) ManagedByGlobalBoostLabel of None \<Rightarrow> '''' | Some v \<Rightarrow> v)"

definition childBoostName :: "string \<Rightarrow> string" where
  "childBoostName globalBoostName = GlobalBoostChildPrefix @ globalBoostName"

definition buildChildBoost :: "'q global_boost \<Rightarrow> string \<Rightarrow> string \<Rightarrow> 'q startup_cpu_boost" where
  "buildChildBoost globalBoost namespace childName =
     \<lparr>scbName = childName, scbNamespace = namespace,
      scbLabels = Some (DAList.update ManagedByGlobalBoostLabel (gbName globalBoost) DAList.empty),
      scbAnnotations = Some (DAList.update ''autoscaling.x-k8s.io/global-boost-uid'' (gbUID globalBoost) DAList.empty),
      scbSelector = gtSelector (gsTemplate (gbSpec globalBoost)),
      scbSpec = gtSpec (gsTemplate (gbSpec globalBoost)),
      scbStatus = \<lparr>stActiveContainerBoosts = 0, stTotalContainerBoosts = 0, stConditions = []\<rparr>\<rparr>"

definition hasUnmanagedBoosts :: "('q, 'w) cluster_api \<Rightarrow> string \<Rightarrow> string \<Rightarrow> 'w \<Rightarrow> go_error + bool" where
  "hasUnmanagedBoosts A namespace globalBoostName w =
     (case ListBoosts A namespace w of
        Inl err \<Rightarrow> Inl err
      | Inr items \<Rightarrow> Inr (list_ex (\<lambda>boost. managedBy boost \<noteq> globalBoostName) items))"

definition ensureChild ::
  "'q global_lib \<Rightarrow> ('q, 'w) cluster_api \<Rightarrow> 'q global_boost \<Rightarrow> string \<Rightarrow> string \<Rightarrow> 'w \<Rightarrow> go_error option \<times> 'w" where
  "ensureChild L A globalBoost namespace childName w =
     (let desired = buildChildBoost globalBoost namespace childName
      in case GetChild A namespace childName w of
           Inl err \<Rightarrow>
             (if IsNotFound (Some err) then
                (case CreateBoost A desired w of
                   (Some err, w') \<Rightarrow> (Some (Errorf ''failed to create child boost'' [err]), w')
                 | (None, w') \<Rightarrow> (None, w'))
              else (Some (Errorf ''failed to get child boost'' [err]), w))
         | Inr existing \<Rightarrow>
             (if managedBy existing \<noteq> gbName globalBoost
              then (Some (Errorf ''child boost exists but is not managed by this global boost'' []), w)
              else if \<not> EqualSelector L (scbSelector existing) (scbSelector desired) \<or>
                      \<not> EqualSpec L (scbSpec existing) (scbSpec desired)
              then (case UpdateBoost A (existing\<lparr>scbSelector := scbSelector desired, scbSpec := scbSpec desired\<rparr>) w of
                      (Some err, w') \<Rightarrow> (Some (Errorf ''failed to update child boost'' [err]), w')
                    | (None, w') \<Rightarrow> (None, w'))
              else (None, w)))"

definition deleteChildIfExists :: "('q, 'w) cluster_api \<Rightarrow> string \<Rightarrow> string \<Rightarrow> 'w \<Rightarrow> 'w" where
  "deleteChildIfExists A childName namespace w =
     (case GetChild A namespace childName w of
        Inl err \<Rightarrow> w
      | Inr existing \<Rightarrow>
          (case map_get (scbLabels existing) ManagedByGlobalBoostLabel of
             None \<Rightarrow> w
           | Some _ \<Rightarrow> snd (DeleteBoost A existing w)))"

text \<open>The loop of \<^verbatim>\<open>cleanupStaleChildren\<close> logs the errors and goes on.\<close>

fun cleanupLoop :: "('q, 'w) cluster_api \<Rightarrow> string list \<Rightarrow> 'q startup_cpu_boost list \<Rightarrow> 'w \<Rightarrow> 'w" where
  "cleanupLoop A activeSet [] w = w"
| "cleanupLoop A activeSet (boost # items) w =
     cleanupLoop A activeSet items
       (if \<not> List.member activeSet (scbNamespace boost) then snd (DeleteBoost A boost w) else w)"

definition cleanupStaleChildren ::
  "('q, 'w) cluster_api \<Rightarrow> string \<Rightarrow> string \<Rightarrow> (string, bool) alist \<Rightarrow> string list \<Rightarrow> 'w \<Rightarrow> go_error option \<times> 'w" where
  "cleanupStaleChildren A globalBoostName childName desiredNamespaces activeNamespaces w =
     (case ListLabelled A ManagedByGlobalBoostLabel globalBoostName w of
        Inl err \<Rightarrow> (Some (Errorf ''failed to list managed boosts'' [err]), w)
      | Inr items \<Rightarrow> (None, cleanupLoop A activeNamespaces items w))"

text \<open>The loop of \<^verbatim>\<open>deleteAllChildren\<close> stops at the first error.\<close>

fun deleteLoop :: "('q, 'w) cluster_api \<Rightarrow> 'q startup_cpu_boost list \<Rightarrow> 'w \<Rightarrow> go_error option \<times> 'w" where
  "deleteLoop A [] w = (None, w)"
| "deleteLoop A (boost # items) w =
     (case DeleteBoost A boost w of
        (err, w') \<Rightarrow>
          (case err of
             None \<Rightarrow> deleteLoop A items w'
           | Some e \<Rightarrow> (if \<not> IsNotFound err then (Some (Errorf ''failed to delete child boost'' [e]), w')
                       else deleteLoop A items w')))"

definition deleteAllChildren :: "('q, 'w) cluster_api \<Rightarrow> string \<Rightarrow> 'w \<Rightarrow> go_error option \<times> 'w" where
  "deleteAllChildren A globalBoostName w =
     (case ListLabelled A ManagedByGlobalBoostLabel globalBoostName w of
        Inl err \<Rightarrow> (Some (Errorf ''failed to list managed boosts'' [err]), w)
      | Inr items \<Rightarrow> deleteLoop A items w)"

section \<open>Reconciliation\<close>

definition globalCondition :: "string list \<Rightarrow> status_condition" where
  "globalCondition activeNamespaces =
     (if activeNamespaces = []
      then \<lparr>scType = ''Active'', scStatus = ''False'', scReason = ''NotReady'',
            scMessage = ''GlobalStartupCPUBoost is not active'', scLastTransitionTime = 0\<rparr>
      else \<lparr>scType = ''Active'', scStatus = ''True'', scReason = ''Ready'',
            scMessage = ''Distributing StartupCPUBoost to matching namespaces'', scLastTransitionTime = 0\<rparr>)"

definition newGlobalStatus ::
  "'q global_lib \<Rightarrow> go_runtime \<Rightarrow> string list \<Rightarrow> string list \<Rightarrow> global_status \<Rightarrow> global_status" where
  "newGlobalStatus L rt activeNamespaces skippedNamespaces st =
     st\<lparr>gsNamespaceCount := to_int32 (int (length activeNamespaces)),
        gsActiveNamespaces := activeNamespaces,
        gsSkippedNamespaces := skippedNamespaces,
        gsConditions := SetCondition L (timeNow rt) (gsConditions st) (globalCondition activeNamespaces)\<rparr>"

definition updateStatus ::
  "'q global_lib \<Rightarrow> ('q, 'w) cluster_api \<Rightarrow> go_runtime \<Rightarrow> 'q global_boost \<Rightarrow> string list \<Rightarrow> string list \<Rightarrow> 'w \<Rightarrow>
   ctrl_result \<times> go_error option \<times> 'w" where
  "updateStatus L A rt globalBoost activeNamespaces skippedNamespaces w =
     (let newStatus = globalBoost\<lparr>gbStatus :=
            newGlobalStatus L rt activeNamespaces skippedNamespaces (gbStatus globalBoost)\<rparr>
      in if gbStatus newStatus \<noteq> gbStatus globalBoost then
           (case UpdateGlobalStatus A newStatus w of
              (err, w') \<Rightarrow>
                (if err \<noteq> None then
                   (if IsConflict err then (\<lparr>Requeue = True\<rparr>, None, w')
                    else (\<lparr>Requeue = False\<rparr>, IgnoreNotFound err, w'))
                 else (\<lparr>Requeue = False\<rparr>, None, w')))
         else (\<lparr>Requeue = False\<rparr>, None, w))"

definition desiredNamespacesOf :: "namespace_obj list \<Rightarrow> (string, bool) alist" where
  "desiredNamespacesOf items =
     foldl (\<lambda>desired ns. if nsDeletionTimestamp ns \<noteq> None then desired else DAList.update (nsName ns) True desired)
       DAList.empty items"

definition processNamespace ::
  "'q global_lib \<Rightarrow> ('q, 'w) cluster_api \<Rightarrow> 'q global_boost \<Rightarrow> string \<Rightarrow> string list \<times> string list \<times> 'w \<Rightarrow> string \<Rightarrow>
   string list \<times> string list \<times> 'w" where
  "processNamespace L A globalBoost childName st ns =
     (case st of (activeNamespaces, skippedNamespaces, w) \<Rightarrow>
        (case hasUnmanagedBoosts A ns (gbName globalBoost) w of
           Inl err \<Rightarrow> (activeNamespaces, skippedNamespaces, w)
         | Inr hasUnmanaged \<Rightarrow>
             (if hasUnmanaged
              then (activeNamespaces, skippedNamespaces @ [ns], deleteChildIfExists A childName ns w)
              else (case ensureChild L A globalBoost ns childName w of
                      (err, w') \<Rightarrow> if err \<noteq> None then (activeNamespaces, skippedNamespaces, w')
                                  else (activeNamespaces @ [ns], skippedNamespaces, w')))))"

definition distribute ::
  "'q global_lib \<Rightarrow> ('q, 'w) cluster_api \<Rightarrow> 'q global_boost \<Rightarrow> string list \<Rightarrow> 'w \<Rightarrow> string list \<times> string list \<times> 'w" where
  "distribute L A globalBoost names w =
     foldl (processNamespace L A globalBoost (childBoostName (gbName globalBoost))) ([], [], w) names"

definition reconcileGlobal ::
  "'q global_lib \<Rightarrow> ('q, 'w) cluster_api \<Rightarrow> go_runtime \<Rightarrow> 'q global_boost \<Rightarrow> 'w \<Rightarrow> ctrl_result \<times> go_error option \<times> 'w" where
  "reconcileGlobal L A rt globalBoost w =
     (case AsSelector L (gsNamespaceSelector (gbSpec globalBoost)) of
        Inl err \<Rightarrow> (\<lparr>Requeue = False\<rparr>, Some err, w)
      | Inr nsSelector \<Rightarrow>
          (case ListNamespaces A nsSelector w of
             Inl err \<Rightarrow> (\<lparr>Requeue = False\<rparr>, Some err, w)
           | Inr items \<Rightarrow>
               (let desiredNamespaces = desiredNamespacesOf items;
                    (activeNamespaces, skippedNamespaces, w1) =
                      distribute L A globalBoost (map fst (alist_range (rangeOrder rt) desiredNamespaces)) w;
                    (err, w2) = cleanupStaleChildren A (gbName globalBoost) (childBoostName (gbName globalBoost))
                      desiredNamespaces activeNamespaces w1
                in updateStatus L A rt globalBoost (sort activeNamespaces) (sort skippedNamespaces) w2)))"

definition handleDeletion ::
  "'q global_lib \<Rightarrow> ('q, 'w) cluster_api \<Rightarrow> 'q global_boost \<Rightarrow> 'w \<Rightarrow> ctrl_result \<times> go_error option \<times> 'w" where
  "handleDeletion L A globalBoost w =
     (if \<not> ContainsFinalizer L (gbFinalizers globalBoost) GlobalBoostFinalizer then (\<lparr>Requeue = False\<rparr>, None, w)
      else case deleteAllChildren A (gbName globalBoost) w of
             (Some err, w1) \<Rightarrow> (\<lparr>Requeue = False\<rparr>, Some err, w1)
           | (None, w1) \<Rightarrow>
               (case UpdateGlobal A (globalBoost\<lparr>gbFinalizers :=
                         RemoveFinalizer L (gbFinalizers globalBoost) GlobalBoostFinalizer\<rparr>) w1 of
                  (Some err, w2) \<Rightarrow> (\<lparr>Requeue = False\<rparr>, Some err, w2)
                | (None, w2) \<Rightarrow> (\<lparr>Requeue = False\<rparr>, None, w2)))"

definition ReconcileGlobal ::
  "'q global_lib \<Rightarrow> ('q, 'w) cluster_api \<Rightarrow> go_runtime \<Rightarrow> string \<Rightarrow> 'w \<Rightarrow> ctrl_result \<times> go_error option \<times> 'w" where
  "ReconcileGlobal L A rt name w =
     (case GetGlobal A name w of
        Inl err \<Rightarrow> (\<lparr>Requeue = False\<rparr>, IgnoreNotFound (Some err), w)
      | Inr globalBoost \<Rightarrow>
          (if gbDeletionTimestamp globalBoost \<noteq> None then handleDeletion L A globalBoost w
           else if \<not> ContainsFinalizer L (gbFinalizers globalBoost) GlobalBoostFinalizer
           then (case UpdateGlobal A (globalBoost\<lparr>gbFinalizers :=
                         AddFinalizer L (gbFinalizers globalBoost) GlobalBoostFinalizer\<rparr>) w of
                   (Some err, w') \<Rightarrow> (\<lparr>Requeue = False\<rparr>, Some err, w')
                 | (None, w') \<Rightarrow> (\<lparr>Requeue = True\<rparr>, None, w'))
           else reconcileGlobal L A rt globalBoost w))"

section \<open>Watched objects\<close>

text \<open>The type assertion on the watched object panics on another type: the object is given with its type.\<close>

fun matchingRequests :: "as_selector \<Rightarrow> string gomap \<Rightarrow> 'q global_boost list \<Rightarrow> request list" where
  "matchingRequests asSel nsl [] = []"
| "matchingRequests asSel nsl (gb # items) =
     (case asSel (gsNamespaceSelector (gbSpec gb)) of
        Inl err \<Rightarrow> matchingRequests asSel nsl items
      | Inr sel \<Rightarrow> (if sel nsl then [('''', gbName gb)] else []) @ matchingRequests asSel nsl items)"

definition mapNamespaceToGlobalBoosts ::
  "'q global_lib \<Rightarrow> ('q, 'w) cluster_api \<Rightarrow> namespace_obj \<Rightarrow> 'w \<Rightarrow> request list" where
  "mapNamespaceToGlobalBoosts L A ns w =
     (case ListGlobals A w of
        Inl err \<Rightarrow> []
      | Inr items \<Rightarrow> matchingRequests (AsSelector L) (nsLabels ns) items)"

definition mapBoostToGlobalBoosts ::
  "'q global_lib \<Rightarrow> ('q, 'w) cluster_api \<Rightarrow> 'q startup_cpu_boost \<Rightarrow> 'w \<Rightarrow> request list" where
  "mapBoostToGlobalBoosts L A boost w =
     (case GetNamespace A (scbNamespace boost) w of
        Inl err \<Rightarrow> []
      | Inr ns \<Rightarrow>
          (case ListGlobals A w of
             Inl err \<Rightarrow> []
           | Inr items \<Rightarrow> matchingRequests (AsSelector L) (nsLabels ns) items))"

section \<open>What the API promises\<close>

text \<open>
  The boosts of a state of the cluster, by namespace and name. A call that succeeds does what its
  name says and a call that fails changes nothing; reads see the writes that came before them. Any
  call may fail.
\<close>

abbreviation boost_key :: "'q startup_cpu_boost \<Rightarrow> string \<times> string" where
  "boost_key b \<equiv> (scbNamespace b, scbName b)"

abbreviation managed_label :: "'q startup_cpu_boost \<Rightarrow> string option" where
  "managed_label b \<equiv> map_get (scbLabels b) ManagedByGlobalBoostLabel"

type_synonym 'q boost_view = "string \<times> string \<Rightarrow> 'q startup_cpu_boost option"

locale boost_store =
  fixes A :: "('q, 'w) cluster_api" and view :: "'w \<Rightarrow> 'q boost_view"
  assumes view_key: "view w k = Some b \<Longrightarrow> boost_key b = k"
    and get_ok: "GetChild A ns n w = Inr b \<Longrightarrow> view w (ns, n) = Some b"
    and get_missing: "GetChild A ns n w = Inl NotFound \<Longrightarrow> view w (ns, n) = None"
    and list_ok: "ListBoosts A ns w = Inr bs \<Longrightarrow> b \<in> set bs \<longleftrightarrow> (\<exists>n. view w (ns, n) = Some b)"
    and labelled_ok: "ListLabelled A l x w = Inr bs \<Longrightarrow>
      b \<in> set bs \<longleftrightarrow> (\<exists>key. view w key = Some b) \<and> map_get (scbLabels b) l = Some x"
    and create: "CreateBoost A b w = (e, w') \<Longrightarrow> view w' = (if e = None then (view w)(boost_key b := Some b) else view w)"
    and update: "UpdateBoost A b w = (e, w') \<Longrightarrow> view w' = (if e = None then (view w)(boost_key b := Some b) else view w)"
    and delete: "DeleteBoost A b w = (e, w') \<Longrightarrow>
      view w' = (if e = None \<or> e = Some NotFound then (view w)(boost_key b := None) else view w)"
    and delete_global: "DeleteBoost A b w = (e, w') \<Longrightarrow> GetGlobal A n w' = GetGlobal A n w"
    and global: "UpdateGlobal A g w = (e, w') \<Longrightarrow> view w' = view w"
    and global_status: "UpdateGlobalStatus A g w = (e, w') \<Longrightarrow> view w' = view w"

text \<open>An API whose calls on boosts succeed whenever the object is there to act on.\<close>

locale reliable_store = boost_store +
  assumes get_total: "GetChild A ns n w = (case view w (ns, n) of None \<Rightarrow> Inl NotFound | Some b \<Rightarrow> Inr b)"
    and list_total: "\<exists>bs. ListBoosts A ns w = Inr bs"
    and labelled_total: "\<exists>bs. ListLabelled A l x w = Inr bs"
    and create_total: "view w (boost_key b) = None \<Longrightarrow> fst (CreateBoost A b w) = None"
    and update_total: "view w (boost_key b) \<noteq> None \<Longrightarrow> fst (UpdateBoost A b w) = None"
    and delete_total: "view w (boost_key b) \<noteq> None \<Longrightarrow> fst (DeleteBoost A b w) = None"

section \<open>Boosts of users are safe\<close>

text \<open>No boost without the label of the controller is lost or changed.\<close>

definition keeps_user_boosts :: "'q boost_view \<Rightarrow> 'q boost_view \<Rightarrow> bool" where
  "keeps_user_boosts v v' \<longleftrightarrow> (\<forall>k b. v k = Some b \<longrightarrow> managed_label b = None \<longrightarrow> v' k = Some b)"

lemma keeps_refl [simp]: "keeps_user_boosts v v"
  by (simp add: keeps_user_boosts_def)

lemma keeps_trans: "keeps_user_boosts v1 v2 \<Longrightarrow> keeps_user_boosts v2 v3 \<Longrightarrow> keeps_user_boosts v1 v3"
  by (simp add: keeps_user_boosts_def)

lemma keeps_upd: "(\<And>b. v k = Some b \<Longrightarrow> managed_label b \<noteq> None) \<Longrightarrow> keeps_user_boosts v (v(k := x))"
  by (auto simp: keeps_user_boosts_def)

lemma managedBy_name: "g \<noteq> '''' \<Longrightarrow> managedBy b = g \<longleftrightarrow> managed_label b = Some g"
  by (auto simp: managedBy_def split: option.split)

context boost_store
begin

lemma delete_cases:
  obtains "view (snd (DeleteBoost A b w)) = (view w)(boost_key b := None)"
  | e where "fst (DeleteBoost A b w) = Some e" "e \<noteq> NotFound" "view (snd (DeleteBoost A b w)) = view w"
  using delete [of b w] by (cases "DeleteBoost A b w"; cases "fst (DeleteBoost A b w)") (fastforce split: if_splits)+

lemma delete_keeps:
  assumes "\<And>b'. view w (boost_key b) = Some b' \<Longrightarrow> managed_label b' \<noteq> None"
  shows "keeps_user_boosts (view w) (view (snd (DeleteBoost A b w)))"
  by (rule delete_cases [of b w]) (simp_all add: keeps_upd assms)

lemma ensureChild_keeps:
  assumes "gbName g \<noteq> ''''" and e: "ensureChild L A g ns c w = (e, w')"
  shows "keeps_user_boosts (view w) (view w')"
proof (cases "GetChild A ns c w")
  case (Inl err)
  show ?thesis
  proof (cases "err = NotFound")
    case True
    obtain e1 w1 where cr: "CreateBoost A (buildChildBoost g ns c) w = (e1, w1)" by fastforce
    have "view w (boost_key (buildChildBoost g ns c)) = None"
      using get_missing [of ns c w] Inl True by (simp add: buildChildBoost_def)
    with cr create [OF cr] have "keeps_user_boosts (view w) (view w1)" by (auto intro: keeps_upd)
    moreover have "w' = w1" using e cr
      by (simp add: ensureChild_def Inl True IsNotFound_def Let_def split: option.splits)
    ultimately show ?thesis by simp
  qed (use e in \<open>simp add: ensureChild_def Inl IsNotFound_def Let_def\<close>)
next
  case (Inr b)
  let ?b = "b\<lparr>scbSelector := scbSelector (buildChildBoost g ns c), scbSpec := scbSpec (buildChildBoost g ns c)\<rparr>"
  obtain e1 w1 where u: "UpdateBoost A ?b w = (e1, w1)" by fastforce
  have v: "view w (ns, c) = Some b" using get_ok [OF Inr] .
  from v view_key [OF v] update [OF u] have "managedBy b = gbName g \<Longrightarrow> keeps_user_boosts (view w) (view w1)"
    by (auto simp: managedBy_name [OF assms(1)] intro!: keeps_upd)
  moreover have "w' = w \<or> managedBy b = gbName g \<and> w' = w1"
    using e u by (auto simp: ensureChild_def Inr Let_def split: if_splits option.splits)
  ultimately show ?thesis by auto
qed

lemma deleteChildIfExists_keeps: "keeps_user_boosts (view w) (view (deleteChildIfExists A c ns w))"
proof (cases "GetChild A ns c w")
  case (Inr b)
  have v: "view w (ns, c) = Some b" using get_ok [OF Inr] .
  with view_key [OF v] have "managed_label b \<noteq> None \<Longrightarrow> keeps_user_boosts (view w) (view (snd (DeleteBoost A b w)))"
    by (intro delete_keeps) auto
  then show ?thesis by (auto simp: deleteChildIfExists_def Inr split: option.split)
qed (simp add: deleteChildIfExists_def)

lemma cleanupLoop_keeps:
  "(\<And>b b'. b \<in> set bs \<Longrightarrow> view w (boost_key b) = Some b' \<Longrightarrow> managed_label b' \<noteq> None) \<Longrightarrow>
   keeps_user_boosts (view w) (view (cleanupLoop A act bs w))"
proof (induction bs arbitrary: w)
  case (Cons b bs)
  show ?case
  proof (cases "List.member act (scbNamespace b)")
    case False
    let ?w = "snd (DeleteBoost A b w)"
    have "managed_label b2 \<noteq> None" if "b1 \<in> set bs" "view ?w (boost_key b1) = Some b2" for b1 b2
      using that Cons.prems [of b1 b2] by (cases rule: delete_cases [of b w]) (auto split: if_splits)
    from Cons.IH [OF this] have "keeps_user_boosts (view ?w) (view (cleanupLoop A act bs ?w))" .
    moreover have "keeps_user_boosts (view w) (view ?w)" using Cons.prems by (intro delete_keeps) auto
    ultimately show ?thesis using False keeps_trans by (simp only: cleanupLoop.simps if_True not_False_eq_True)
  next
    case True
    have "keeps_user_boosts (view w) (view (cleanupLoop A act bs w))"
      by (rule Cons.IH) (use Cons.prems in auto)
    with True show ?thesis by simp
  qed
qed simp

lemma cleanupStaleChildren_keeps:
  assumes "cleanupStaleChildren A g c ds act w = (e, w')"
  shows "keeps_user_boosts (view w) (view w')"
proof (cases "ListLabelled A ManagedByGlobalBoostLabel g w")
  case (Inr bs)
  have "keeps_user_boosts (view w) (view (cleanupLoop A act bs w))"
    using labelled_ok [OF Inr] view_key by (intro cleanupLoop_keeps) fastforce
  with assms Inr show ?thesis by (auto simp: cleanupStaleChildren_def)
qed (use assms in \<open>simp add: cleanupStaleChildren_def\<close>)

lemma processNamespace_keeps:
  assumes "gbName g \<noteq> ''''" and "processNamespace L A g c (act, sk, w) ns = (act', sk', w')"
  shows "keeps_user_boosts (view w) (view w')"
  using assms(2) ensureChild_keeps [OF assms(1)] deleteChildIfExists_keeps
  by (auto simp: processNamespace_def split: sum.splits if_splits prod.splits)

lemma distribute_keeps:
  assumes "gbName g \<noteq> ''''"
  shows "foldl (processNamespace L A g c) (act, sk, w) names = (act', sk', w') \<Longrightarrow> keeps_user_boosts (view w) (view w')"
proof (induction names arbitrary: act sk w)
  case (Cons ns names)
  obtain act1 sk1 w1 where p: "processNamespace L A g c (act, sk, w) ns = (act1, sk1, w1)" by (metis prod_cases3)
  with Cons show ?case using processNamespace_keeps [OF assms p] keeps_trans by (metis foldl_Cons)
qed simp

lemma deleteLoop_keeps:
  "(\<And>b b'. b \<in> set bs \<Longrightarrow> view w (boost_key b) = Some b' \<Longrightarrow> managed_label b' \<noteq> None) \<Longrightarrow>
   deleteLoop A bs w = (e, w') \<Longrightarrow> keeps_user_boosts (view w) (view w')"
proof (induction bs arbitrary: w)
  case (Cons b bs)
  obtain e1 w1 where d: "DeleteBoost A b w = (e1, w1)" by fastforce
  have k: "keeps_user_boosts (view w) (view w1)" using delete_keeps [of w b] Cons.prems(1) [of b] by (auto simp: d)
  have "managed_label b2 \<noteq> None" if "b1 \<in> set bs" "view w1 (boost_key b1) = Some b2" for b1 b2
    using that Cons.prems(1) [of b1 b2] delete [OF d] by (auto split: if_splits)
  then have IH: "deleteLoop A bs w1 = (e, w') \<Longrightarrow> keeps_user_boosts (view w1) (view w')" by (rule Cons.IH)
  from Cons.prems(2) d have "w' = w1 \<or> deleteLoop A bs w1 = (e, w')" by (auto split: option.splits if_splits)
  with k IH show ?case using keeps_trans by blast
qed simp

end

section \<open>What one reconciliation does\<close>

text \<open>
  A namespace is taken when it has a boost that is not managed by the global boost. A child is as it
  should be when it carries the name of the global boost and the selector and the specification of
  its template.
\<close>

definition taken :: "string \<Rightarrow> 'q boost_view \<Rightarrow> string \<Rightarrow> bool" where
  "taken g v ns \<longleftrightarrow> (\<exists>n b. v (ns, n) = Some b \<and> managedBy b \<noteq> g)"

definition child_ok :: "'q global_lib \<Rightarrow> 'q global_boost \<Rightarrow> 'q startup_cpu_boost \<Rightarrow> bool" where
  "child_ok L g b \<longleftrightarrow> managedBy b = gbName g \<and>
     EqualSelector L (scbSelector b) (gtSelector (gsTemplate (gbSpec g))) \<and>
     EqualSpec L (scbSpec b) (gtSpec (gsTemplate (gbSpec g)))"

text \<open>What happens to the boosts of one namespace: only the child is touched.\<close>

definition ns_outcome :: "'q global_lib \<Rightarrow> 'q global_boost \<Rightarrow> 'q boost_view \<Rightarrow> 'q boost_view \<Rightarrow> string \<Rightarrow> bool" where
  "ns_outcome L g v v' ns \<longleftrightarrow>
     (\<forall>n. n \<noteq> childBoostName (gbName g) \<longrightarrow> v' (ns, n) = v (ns, n)) \<and>
     (if taken (gbName g) v ns
      then v' (ns, childBoostName (gbName g)) =
        (case v (ns, childBoostName (gbName g)) of
           None \<Rightarrow> None | Some b \<Rightarrow> if managed_label b = None then Some b else None)
      else \<exists>b. v' (ns, childBoostName (gbName g)) = Some b \<and> child_ok L g b)"

lemma taken_local: "(\<And>n. v (ns, n) = v' (ns, n)) \<Longrightarrow> taken g v ns = taken g v' ns"
  by (simp add: taken_def)

lemma ns_outcome_local:
  assumes "\<And>n. v1 (ns, n) = v (ns, n)" "\<And>n. v1' (ns, n) = v' (ns, n)"
  shows "ns_outcome L g v1 v1' ns = ns_outcome L g v v' ns"
  by (simp add: ns_outcome_def assms taken_local [of v1 ns v])

locale equality_laws =
  fixes L :: "'q global_lib"
  assumes selector_refl: "EqualSelector L s s" and spec_refl: "EqualSpec L p p"

locale distributor = reliable_store A view + equality_laws L
  for A :: "('q, 'w) cluster_api" and view and L :: "'q global_lib"
begin

lemma hasUnmanagedBoosts_taken: "hasUnmanagedBoosts A ns g w = Inr (taken g (view w) ns)"
proof -
  obtain bs where l: "ListBoosts A ns w = Inr bs" using list_total by blast
  have "list_ex (\<lambda>b. managedBy b \<noteq> g) bs \<longleftrightarrow> taken g (view w) ns"
    unfolding list_ex_iff taken_def using list_ok [OF l] by blast
  then show ?thesis by (simp add: hasUnmanagedBoosts_def l)
qed

lemma ensureChild_ok:
  assumes free: "\<not> taken (gbName g) (view w) ns"
  shows "\<exists>w' b. ensureChild L A g ns c w = (None, w') \<and> view w' = (view w)((ns, c) := Some b) \<and> child_ok L g b"
proof (cases "view w (ns, c)")
  case None
  let ?b = "buildChildBoost g ns c"
  obtain w' where cr: "CreateBoost A ?b w = (None, w')"
    using create_total [of w ?b] None by (cases "CreateBoost A ?b w") (auto simp: buildChildBoost_def)
  have "child_ok L g ?b"
    by (simp add: child_ok_def buildChildBoost_def managedBy_def lookup_update selector_refl spec_refl)
  moreover have "view w' = (view w)((ns, c) := Some ?b)"
    using create [OF cr] by (simp add: buildChildBoost_def)
  ultimately show ?thesis by (auto simp: ensureChild_def get_total None IsNotFound_def cr)
next
  case (Some b)
  let ?t = "gsTemplate (gbSpec g)"
  have m: "managedBy b = gbName g" using free Some unfolding taken_def by blast
  have key: "scbNamespace b = ns" "scbName b = c" using view_key [OF Some] by simp_all
  show ?thesis
  proof (cases "EqualSelector L (scbSelector b) (gtSelector ?t) \<and> EqualSpec L (scbSpec b) (gtSpec ?t)")
    case True
    with m Some have "child_ok L g b" "(view w)((ns, c) := Some b) = view w" by (auto simp: child_ok_def)
    with True m show ?thesis
      by (intro exI [of _ w] exI [of _ b]) (simp add: ensureChild_def get_total Some buildChildBoost_def)
  next
    case False
    let ?b = "b\<lparr>scbSelector := gtSelector ?t, scbSpec := gtSpec ?t\<rparr>"
    obtain w' where u: "UpdateBoost A ?b w = (None, w')"
      using update_total [of w ?b] Some by (cases "UpdateBoost A ?b w") (auto simp: key)
    have "child_ok L g ?b" using m by (simp add: child_ok_def managedBy_def selector_refl spec_refl)
    moreover have "view w' = (view w)((ns, c) := Some ?b)" using update [OF u] by (simp add: key)
    ultimately show ?thesis using False m by (auto simp: ensureChild_def get_total Some buildChildBoost_def u)
  qed
qed

lemma deleteChildIfExists_view:
  "view (deleteChildIfExists A c ns w) = (view w)((ns, c) :=
     (case view w (ns, c) of None \<Rightarrow> None | Some b \<Rightarrow> if managed_label b = None then Some b else None))"
proof (cases "view w (ns, c)")
  case (Some b)
  have key: "boost_key b = (ns, c)" using view_key [OF Some] .
  show ?thesis
  proof (cases "managed_label b")
    case (Some l)
    obtain e w' where d: "DeleteBoost A b w = (e, w')" by fastforce
    have "e = None" using delete_total [of w b] d \<open>view w (ns, c) = Some b\<close> key by simp
    with d delete [OF d] key Some \<open>view w (ns, c) = Some b\<close> show ?thesis
      by (simp add: deleteChildIfExists_def get_total)
  qed (auto simp: deleteChildIfExists_def get_total Some)
qed (auto simp: deleteChildIfExists_def get_total)

lemma processNamespace_outcome:
  obtains w' where "processNamespace L A g (childBoostName (gbName g)) (act, sk, w) ns =
      (if taken (gbName g) (view w) ns then (act, sk @ [ns], w') else (act @ [ns], sk, w'))"
    "ns_outcome L g (view w) (view w') ns" "\<And>ns' n. ns' \<noteq> ns \<Longrightarrow> view w' (ns', n) = view w (ns', n)"
proof (cases "taken (gbName g) (view w) ns")
  case True
  show thesis
    by (rule that [of "deleteChildIfExists A (childBoostName (gbName g)) ns w"])
       (simp_all add: processNamespace_def hasUnmanagedBoosts_taken True deleteChildIfExists_view ns_outcome_def)
next
  case False
  from ensureChild_ok [OF False, of "childBoostName (gbName g)"] obtain w' b where
    e: "ensureChild L A g ns (childBoostName (gbName g)) w = (None, w')"
      "view w' = (view w)((ns, childBoostName (gbName g)) := Some b)" "child_ok L g b" by blast
  show thesis
    by (rule that [of w'])
       (use e in \<open>simp_all add: processNamespace_def hasUnmanagedBoosts_taken False ns_outcome_def\<close>)
qed

lemma distribute_outcome:
  "distinct names \<Longrightarrow>
   \<exists>w'. foldl (processNamespace L A g (childBoostName (gbName g))) (act, sk, w) names =
      (act @ [ns \<leftarrow> names. \<not> taken (gbName g) (view w) ns], sk @ [ns \<leftarrow> names. taken (gbName g) (view w) ns], w') \<and>
     (\<forall>ns \<in> set names. ns_outcome L g (view w) (view w') ns) \<and>
     (\<forall>ns n. ns \<notin> set names \<longrightarrow> view w' (ns, n) = view w (ns, n))"
proof (induction names arbitrary: act sk w)
  case (Cons x names)
  obtain w1 where p: "processNamespace L A g (childBoostName (gbName g)) (act, sk, w) x =
      (if taken (gbName g) (view w) x then (act, sk @ [x], w1) else (act @ [x], sk, w1))"
    and o: "ns_outcome L g (view w) (view w1) x" and f: "\<And>ns' n. ns' \<noteq> x \<Longrightarrow> view w1 (ns', n) = view w (ns', n)"
    using processNamespace_outcome [of g act sk w x] by metis
  have x: "x \<notin> set names" using Cons.prems by simp
  have t: "taken (gbName g) (view w1) ns = taken (gbName g) (view w) ns" if "ns \<in> set names" for ns
    using that x f [of ns] by (intro taken_local) auto
  obtain act1 sk1 where a: "(act1, sk1) = (if taken (gbName g) (view w) x then (act, sk @ [x]) else (act @ [x], sk))" by metis
  obtain w' where IH: "foldl (processNamespace L A g (childBoostName (gbName g))) (act1, sk1, w1) names =
      (act1 @ [ns \<leftarrow> names. \<not> taken (gbName g) (view w1) ns], sk1 @ [ns \<leftarrow> names. taken (gbName g) (view w1) ns], w')"
    "\<forall>ns \<in> set names. ns_outcome L g (view w1) (view w') ns"
    "\<forall>ns n. ns \<notin> set names \<longrightarrow> view w' (ns, n) = view w1 (ns, n)"
    using Cons.IH [of act1 sk1 w1] Cons.prems by auto
  have "ns_outcome L g (view w) (view w') x"
    using o IH(3) x ns_outcome_local [of "view w" x "view w" "view w'" "view w1"] by simp
  moreover have "ns_outcome L g (view w) (view w') ns" if "ns \<in> set names" for ns
  proof -
    have "view w (ns, n) = view w1 (ns, n)" for n using f that x by metis
    from ns_outcome_local [of "view w" ns "view w1" "view w'" "view w'", OF this] IH(2) that show ?thesis by simp
  qed
  moreover have "view w' (ns, n) = view w (ns, n)" if "ns \<notin> set (x # names)" for ns n
    using that IH(3) f by simp
  moreover have "[ns \<leftarrow> names. \<not> taken (gbName g) (view w1) ns] = [ns \<leftarrow> names. \<not> taken (gbName g) (view w) ns]"
    "[ns \<leftarrow> names. taken (gbName g) (view w1) ns] = [ns \<leftarrow> names. taken (gbName g) (view w) ns]"
    using t by (auto intro: filter_cong)
  ultimately show ?case using p a IH(1) by (intro exI [of _ w']) (auto split: if_splits)
qed simp

end

section \<open>Stale children and deletion\<close>

context reliable_store
begin

lemma delete_view: "view (snd (DeleteBoost A b w)) = (view w)(boost_key b := None)"
proof (cases "view w (boost_key b)")
  case None
  then have "(view w)(boost_key b := None) = view w" by auto
  then show ?thesis by (cases rule: delete_cases [of b w]) simp_all
next
  case (Some b')
  with delete_total [of w b] show ?thesis by (cases rule: delete_cases [of b w]) simp_all
qed

lemma cleanupLoop_view:
  "view (cleanupLoop A act bs w) k =
     (if \<exists>b \<in> set bs. boost_key b = k \<and> scbNamespace b \<notin> set act then None else view w k)"
  by (induction bs arbitrary: w) (auto simp: delete_view)

lemma cleanupStaleChildren_view:
  assumes "cleanupStaleChildren A g c ds act w = (e, w')"
  shows "view w' (ns, n) = (if ns \<notin> set act \<and> (\<exists>b. view w (ns, n) = Some b \<and> managed_label b = Some g)
     then None else view w (ns, n))"
proof -
  obtain bs where l: "ListLabelled A ManagedByGlobalBoostLabel g w = Inr bs" using labelled_total by blast
  have "(\<exists>b \<in> set bs. boost_key b = (ns, n) \<and> scbNamespace b \<notin> set act) \<longleftrightarrow>
      ns \<notin> set act \<and> (\<exists>b. view w (ns, n) = Some b \<and> managed_label b = Some g)"
    using labelled_ok [OF l] view_key by blast
  with assms l show ?thesis by (auto simp: cleanupStaleChildren_def cleanupLoop_view)
qed

end

context boost_store
begin

lemma deleteLoop_view:
  "deleteLoop A bs w = (None, w') \<Longrightarrow> view w' k = (if k \<in> boost_key ` set bs then None else view w k)"
proof (induction bs arbitrary: w)
  case (Cons b bs)
  obtain e1 w1 where d: "DeleteBoost A b w = (e1, w1)" by fastforce
  with Cons.prems have "e1 = None \<or> e1 = Some NotFound" "deleteLoop A bs w1 = (None, w')"
    by (auto simp: IsNotFound_def split: option.splits if_splits)
  with Cons.IH [of w1] delete [OF d] show ?case by auto
qed simp

lemma deleteLoop_global: "deleteLoop A bs w = (e, w') \<Longrightarrow> GetGlobal A n w' = GetGlobal A n w"
proof (induction bs arbitrary: w)
  case (Cons b bs)
  obtain e1 w1 where d: "DeleteBoost A b w = (e1, w1)" by fastforce
  from Cons.prems d have "w' = w1 \<or> deleteLoop A bs w1 = (e, w')" by (auto split: option.splits if_splits)
  with Cons.IH [of w1] delete_global [OF d] show ?case by auto
qed simp

lemma deleteAllChildren_outcome:
  assumes "deleteAllChildren A g w = (e, w')"
  shows "GetGlobal A n w' = GetGlobal A n w" "keeps_user_boosts (view w) (view w')"
    "e = None \<Longrightarrow> view w' k = Some b \<Longrightarrow> managed_label b \<noteq> Some g"
proof -
  show "GetGlobal A n w' = GetGlobal A n w"
    using assms deleteLoop_global by (auto simp: deleteAllChildren_def split: sum.splits)
  show "keeps_user_boosts (view w) (view w')"
  proof (cases "ListLabelled A ManagedByGlobalBoostLabel g w")
    case (Inr bs)
    have "managed_label b2 \<noteq> None" if "b1 \<in> set bs" "view w (boost_key b1) = Some b2" for b1 b2
      using that labelled_ok [OF Inr] view_key by fastforce
    from deleteLoop_keeps [OF this] assms Inr show ?thesis by (simp add: deleteAllChildren_def)
  qed (use assms in \<open>simp add: deleteAllChildren_def\<close>)
  show "managed_label b \<noteq> Some g" if "e = None" "view w' k = Some b"
  proof
    assume m: "managed_label b = Some g"
    from assms that(1) obtain bs where l: "ListLabelled A ManagedByGlobalBoostLabel g w = Inr bs"
      and d: "deleteLoop A bs w = (None, w')" by (auto simp: deleteAllChildren_def split: sum.splits)
    from that(2) deleteLoop_view [OF d, of k] have k: "k \<notin> boost_key ` set bs" "view w k = Some b" by (auto split: if_splits)
    with m labelled_ok [OF l] have "b \<in> set bs" by blast
    with k view_key [OF k(2)] show False by blast
  qed
qed

lemma handleDeletion_outcome:
  assumes f: "ContainsFinalizer L (gbFinalizers g) GlobalBoostFinalizer" and h: "handleDeletion L A g w = (res, err, w')"
  shows "keeps_user_boosts (view w) (view w') \<and>
     ((\<forall>k b. view w' k = Some b \<longrightarrow> managed_label b \<noteq> Some (gbName g)) \<or>
      err \<noteq> None \<and> (\<forall>n. GetGlobal A n w' = GetGlobal A n w))"
proof -
  obtain e w1 where d: "deleteAllChildren A (gbName g) w = (e, w1)" by fastforce
  note o = deleteAllChildren_outcome [OF d]
  show ?thesis
  proof (cases e)
    case None
    obtain e2 w2 where u: "UpdateGlobal A (g\<lparr>gbFinalizers := RemoveFinalizer L (gbFinalizers g) GlobalBoostFinalizer\<rparr>) w1 = (e2, w2)"
      by fastforce
    with h d f None have "w' = w2" by (auto simp: handleDeletion_def split: option.splits)
    with global [OF u] o(2,3) None show ?thesis by auto
  next
    case (Some e')
    with h d f o(1,2) show ?thesis by (auto simp: handleDeletion_def)
  qed
qed

end

section \<open>The whole reconciliation\<close>

definition live_names :: "namespace_obj list \<Rightarrow> string set" where
  "live_names items = nsName ` {ns \<in> set items. nsDeletionTimestamp ns = None}"

lemma live_names_simps [simp]:
  "live_names [] = {}"
  "live_names (ns # items) = (if nsDeletionTimestamp ns = None then insert (nsName ns) (live_names items) else live_names items)"
  by (auto simp: live_names_def)

lemma lookup_desired:
  "DAList.lookup (foldl (\<lambda>desired ns. if nsDeletionTimestamp ns \<noteq> None then desired else DAList.update (nsName ns) True desired)
       d items) k \<noteq> None \<longleftrightarrow> DAList.lookup d k \<noteq> None \<or> k \<in> live_names items"
  by (induction items arbitrary: d) (simp_all add: lookup_update ex_bool_eq)

lemma desired_lookup: "DAList.lookup (desiredNamespacesOf items) k \<noteq> None \<longleftrightarrow> k \<in> live_names items"
  unfolding desiredNamespacesOf_def lookup_desired by simp

lemma desired_range:
  assumes "go_order ord"
  shows "set (map fst (alist_range ord (desiredNamespacesOf items))) = live_names items"
    "distinct (map fst (alist_range ord (desiredNamespacesOf items)))"
proof -
  have m: "map fst (alist_range ord (desiredNamespacesOf items)) = ord (alist_keys (desiredNamespacesOf items))"
    by (simp add: alist_range_eq_map [OF assms] comp_def)
  show "set (map fst (alist_range ord (desiredNamespacesOf items))) = live_names items"
    unfolding m go_order_set [OF assms]
    by (rule set_eqI) (simp only: in_alist_keys_iff not_None_eq [symmetric] desired_lookup)
  show "distinct (map fst (alist_range ord (desiredNamespacesOf items)))"
    by (rule distinct_fst_alist_range [OF assms])
qed

lemma sort_filter_set:
  "distinct xs \<Longrightarrow> sort [x \<leftarrow> xs. P x] = sorted_list_of_set {x \<in> set xs. P x}"
  using sorted_list_of_set_sort_remdups [of "[x \<leftarrow> xs. P x]"] by (simp add: distinct_remdups_id)

lemma updateStatus_view:
  assumes "boost_store A view" "updateStatus L A rt g act sk w = (res, err, w')"
  shows "view w' = view w"
  using assms(2) boost_store.global_status [OF assms(1)]
  by (auto simp: updateStatus_def Let_def split: if_splits prod.splits)

context distributor
begin

lemma reconcile_outcome:
  assumes "go_order (rangeOrder rt)" and name: "gbName g \<noteq> ''''"
    and "AsSelector L (gsNamespaceSelector (gbSpec g)) = Inr sel" and "ListNamespaces A sel w = Inr items"
    and "reconcileGlobal L A rt g w = (res, err, w')"
  defines "free \<equiv> {ns \<in> live_names items. \<not> taken (gbName g) (view w) ns}"
  shows "\<forall>ns \<in> free. \<exists>b. view w' (ns, childBoostName (gbName g)) = Some b \<and> child_ok L g b"
    and "view w' (ns, n) = Some b \<Longrightarrow> managed_label b = Some (gbName g) \<Longrightarrow> ns \<in> free"
    and "keeps_user_boosts (view w) (view w')"
    and "\<exists>w2. view w2 = view w' \<and> updateStatus L A rt g (sorted_list_of_set free)
           (sorted_list_of_set {ns \<in> live_names items. taken (gbName g) (view w) ns}) w2 = (res, err, w')"
proof -
  let ?names = "map fst (alist_range (rangeOrder rt) (desiredNamespacesOf items))"
  let ?free = "[ns \<leftarrow> ?names. \<not> taken (gbName g) (view w) ns]"
  let ?taken = "[ns \<leftarrow> ?names. taken (gbName g) (view w) ns]"
  note names = desired_range [OF assms(1), of items]
  have fset: "set ?free = free" using names(1) by (auto simp: free_def)
  obtain w1 where d: "foldl (processNamespace L A g (childBoostName (gbName g))) ([], [], w) ?names = (?free, ?taken, w1)"
    and o: "\<forall>ns \<in> live_names items. ns_outcome L g (view w) (view w1) ns"
    and f: "\<forall>ns n. ns \<notin> live_names items \<longrightarrow> view w1 (ns, n) = view w (ns, n)"
    using distribute_outcome [OF names(2), of g "[]" "[]" w, unfolded names(1) append_Nil] by blast
  obtain e2 w2 where c: "cleanupStaleChildren A (gbName g) (childBoostName (gbName g)) (desiredNamespacesOf items) ?free w1 = (e2, w2)"
    by fastforce
  have s: "updateStatus L A rt g (sort ?free) (sort ?taken) w2 = (res, err, w')"
    using assms(3-5) d c by (simp add: reconcileGlobal_def distribute_def Let_def)
  have v: "view w' = view w2" by (rule updateStatus_view [OF _ s]) unfold_locales
  note cv = cleanupStaleChildren_view [OF c, unfolded fset]
  show "\<forall>ns \<in> free. \<exists>b. view w' (ns, childBoostName (gbName g)) = Some b \<and> child_ok L g b"
  proof
    fix ns assume ns: "ns \<in> free"
    with o have "ns_outcome L g (view w) (view w1) ns" by (simp add: free_def)
    with ns have "\<exists>b. view w1 (ns, childBoostName (gbName g)) = Some b \<and> child_ok L g b" by (simp add: ns_outcome_def free_def)
    with ns show "\<exists>b. view w' (ns, childBoostName (gbName g)) = Some b \<and> child_ok L g b" unfolding v cv by simp
  qed
  show "ns \<in> free" if "view w' (ns, n) = Some b" "managed_label b = Some (gbName g)"
    using that unfolding v cv by (auto split: if_splits)
  show "keeps_user_boosts (view w) (view w')"
    using distribute_keeps [OF name d] cleanupStaleChildren_keeps [OF c] keeps_trans unfolding v by blast
  show "\<exists>w2. view w2 = view w' \<and> updateStatus L A rt g (sorted_list_of_set free)
      (sorted_list_of_set {ns \<in> live_names items. taken (gbName g) (view w) ns}) w2 = (res, err, w')"
    by (rule exI [of _ w2]) (use s v in \<open>simp add: sort_filter_set [OF names(2), unfolded names(1)] free_def [symmetric]\<close>)
qed

end

section \<open>A concrete cluster\<close>

record 'q cluster =
  clBoosts :: "'q startup_cpu_boost list"
  clNamespaces :: "namespace_obj list"
  clGlobals :: "'q global_boost list"

definition cluster_view :: "'q cluster \<Rightarrow> 'q boost_view" where
  "cluster_view w k = List.find (\<lambda>b. boost_key b = k) (clBoosts w)"

definition found :: "'a option \<Rightarrow> go_error + 'a" where
  "found x = (case x of None \<Rightarrow> Inl NotFound | Some y \<Rightarrow> Inr y)"

definition mem_cluster :: "('q, 'q cluster) cluster_api" where
  "mem_cluster = \<lparr>
     GetGlobal = (\<lambda>n w. found (List.find (\<lambda>g. gbName g = n) (clGlobals w))),
     UpdateGlobal = (\<lambda>g w. (None, w\<lparr>clGlobals := map (\<lambda>g'. if gbName g' = gbName g then g else g') (clGlobals w)\<rparr>)),
     UpdateGlobalStatus = (\<lambda>g w. (None, w\<lparr>clGlobals := map (\<lambda>g'. if gbName g' = gbName g then g else g') (clGlobals w)\<rparr>)),
     ListGlobals = (\<lambda>w. Inr (clGlobals w)),
     GetNamespace = (\<lambda>n w. found (List.find (\<lambda>ns. nsName ns = n) (clNamespaces w))),
     ListNamespaces = (\<lambda>sel w. Inr [ns \<leftarrow> clNamespaces w. sel (nsLabels ns)]),
     GetChild = (\<lambda>ns n w. found (cluster_view w (ns, n))),
     ListBoosts = (\<lambda>ns w. Inr [b \<leftarrow> clBoosts w. scbNamespace b = ns \<and> cluster_view w (boost_key b) = Some b]),
     ListLabelled = (\<lambda>k v w. Inr [b \<leftarrow> clBoosts w. map_get (scbLabels b) k = Some v \<and> cluster_view w (boost_key b) = Some b]),
     CreateBoost = (\<lambda>b w. if cluster_view w (boost_key b) = None then (None, w\<lparr>clBoosts := clBoosts w @ [b]\<rparr>)
                         else (Some (OtherError ''already exists''), w)),
     UpdateBoost = (\<lambda>b w. if cluster_view w (boost_key b) = None then (Some NotFound, w)
                         else (None, w\<lparr>clBoosts := map (\<lambda>b'. if boost_key b' = boost_key b then b else b') (clBoosts w)\<rparr>)),
     DeleteBoost = (\<lambda>b w. if cluster_view w (boost_key b) = None then (Some NotFound, w)
                         else (None, w\<lparr>clBoosts := [b' \<leftarrow> clBoosts w. boost_key b' \<noteq> boost_key b]\<rparr>))\<rparr>"

definition mem_lib :: "'q global_lib" where
  "mem_lib = \<lparr>AsSelector = sample_selector, SetCondition = set_condition,
     EqualSelector = (=), EqualSpec = (=),
     ContainsFinalizer = (\<lambda>fs f. f \<in> set fs),
     AddFinalizer = (\<lambda>fs f. if f \<in> set fs then fs else fs @ [f]),
     RemoveFinalizer = (\<lambda>fs f. removeAll f fs)\<rparr>"

lemma find_updated:
  "List.find (\<lambda>b. boost_key b = k) bs \<noteq> None \<Longrightarrow> boost_key b = k' \<Longrightarrow> k' = k \<Longrightarrow>
   List.find (\<lambda>b. boost_key b = k) (map (\<lambda>b'. if boost_key b' = k' then b else b') bs) = Some b"
  by (induction bs) (auto split: if_splits)

lemma find_other_updated:
  "boost_key b = k' \<Longrightarrow> k' \<noteq> k \<Longrightarrow>
   List.find (\<lambda>b. boost_key b = k) (map (\<lambda>b'. if boost_key b' = k' then b else b') bs) = List.find (\<lambda>b. boost_key b = k) bs"
  by (induction bs) auto

lemma find_deleted:
  "List.find (\<lambda>b. boost_key b = k) [b \<leftarrow> bs. boost_key b \<noteq> k'] =
     (if k = k' then None else List.find (\<lambda>b. boost_key b = k) bs)"
  by (induction bs) auto

lemma cluster_view_SomeD: "cluster_view w k = Some b \<Longrightarrow> b \<in> set (clBoosts w) \<and> boost_key b = k"
  unfolding cluster_view_def by (drule find_SomeD) blast

lemma cluster_create:
  "cluster_view w (boost_key b) = None \<Longrightarrow> cluster_view (w\<lparr>clBoosts := clBoosts w @ [b]\<rparr>) = (cluster_view w)(boost_key b := Some b)"
  by (rule ext) (auto simp: cluster_view_def find_snoc split: option.split)

lemma cluster_update:
  "cluster_view w (boost_key b) \<noteq> None \<Longrightarrow>
   cluster_view (w\<lparr>clBoosts := map (\<lambda>b'. if boost_key b' = boost_key b then b else b') (clBoosts w)\<rparr>) =
     (cluster_view w)(boost_key b := Some b)"
proof (rule ext)
  fix k
  assume v: "cluster_view w (boost_key b) \<noteq> None"
  show "cluster_view (w\<lparr>clBoosts := map (\<lambda>b'. if boost_key b' = boost_key b then b else b') (clBoosts w)\<rparr>) k =
     ((cluster_view w)(boost_key b := Some b)) k"
  proof (cases "boost_key b = k")
    case True
    with find_updated [OF v [unfolded cluster_view_def] refl refl] show ?thesis by (simp add: cluster_view_def)
  next
    case False
    with find_other_updated [OF refl False] show ?thesis by (simp add: cluster_view_def)
  qed
qed

lemma cluster_delete:
  "cluster_view (w\<lparr>clBoosts := [b' \<leftarrow> clBoosts w. boost_key b' \<noteq> k]\<rparr>) = (cluster_view w)(k := None)"
  by (rule ext) (simp add: cluster_view_def find_deleted)

lemma cluster_view_globals [simp]: "cluster_view (w\<lparr>clGlobals := gs\<rparr>) = cluster_view w"
  by (rule ext) (simp add: cluster_view_def)

interpretation memc: reliable_store mem_cluster cluster_view
proof
  fix w w' :: "'q cluster" and k b e g n ns l x bs
  show "boost_key b = k" if "cluster_view w k = Some b" using cluster_view_SomeD [OF that] by simp
  show "cluster_view w (ns, n) = Some b" if "GetChild mem_cluster ns n w = Inr b"
    using that by (simp add: mem_cluster_def found_def split: option.splits)
  show "cluster_view w (ns, n) = None" if "GetChild mem_cluster ns n w = Inl NotFound"
    using that by (simp add: mem_cluster_def found_def split: option.splits)
  show "b \<in> set bs \<longleftrightarrow> (\<exists>n. cluster_view w (ns, n) = Some b)" if "ListBoosts mem_cluster ns w = Inr bs"
    using that cluster_view_SomeD [of w "(ns, _)" b] by (auto simp: mem_cluster_def)
  show "b \<in> set bs \<longleftrightarrow> (\<exists>key. cluster_view w key = Some b) \<and> map_get (scbLabels b) l = Some x"
    if "ListLabelled mem_cluster l x w = Inr bs"
    using that cluster_view_SomeD [of w _ b] by (auto simp: mem_cluster_def) blast
  show "cluster_view w' = (if e = None then (cluster_view w)(boost_key b := Some b) else cluster_view w)"
    if "CreateBoost mem_cluster b w = (e, w')"
    using that by (auto simp: mem_cluster_def cluster_create split: if_splits)
  show "cluster_view w' = (if e = None then (cluster_view w)(boost_key b := Some b) else cluster_view w)"
    if "UpdateBoost mem_cluster b w = (e, w')"
    using that cluster_update [of w b] by (auto simp: mem_cluster_def split: if_splits)
  show "cluster_view w' = (if e = None \<or> e = Some NotFound then (cluster_view w)(boost_key b := None) else cluster_view w)"
    if "DeleteBoost mem_cluster b w = (e, w')"
    using that cluster_delete [where w = w and k = "boost_key b"] by (auto simp: mem_cluster_def split: if_splits)
  show "GetGlobal mem_cluster n w' = GetGlobal mem_cluster n w" if "DeleteBoost mem_cluster b w = (e, w')"
    using that by (auto simp: mem_cluster_def split: if_splits)
  show "cluster_view w' = cluster_view w" if "UpdateGlobal mem_cluster g w = (e, w')"
    using that by (auto simp: mem_cluster_def)
  show "cluster_view w' = cluster_view w" if "UpdateGlobalStatus mem_cluster g w = (e, w')"
    using that by (auto simp: mem_cluster_def)
qed (auto simp: mem_cluster_def found_def)

interpretation meml: equality_laws mem_lib
  by unfold_locales (simp_all add: mem_lib_def)

interpretation memd: distributor mem_cluster cluster_view mem_lib
  by unfold_locales

section \<open>What the controller of global boosts guarantees\<close>

lemma ReconcileGlobal_safe:
  assumes "boost_store A view" and name: "\<And>g. GetGlobal A n w = Inr g \<Longrightarrow> gbName g \<noteq> ''''"
    and r: "ReconcileGlobal L A rt n w = (res, err, w')"
  shows "keeps_user_boosts (view w) (view w')"
    and "view w' \<noteq> view w \<Longrightarrow> \<exists>g. GetGlobal A n w = Inr g \<and> ContainsFinalizer L (gbFinalizers g) GlobalBoostFinalizer"
proof -
  note bs = assms(1)
  have rec: "keeps_user_boosts (view w) (view w')" if g: "gbName g \<noteq> ''''" "reconcileGlobal L A rt g w = (res, err, w')" for g
  proof (cases "\<exists>sel items. AsSelector L (gsNamespaceSelector (gbSpec g)) = Inr sel \<and> ListNamespaces A sel w = Inr items")
    case True
    then obtain sel items where s: "AsSelector L (gsNamespaceSelector (gbSpec g)) = Inr sel" "ListNamespaces A sel w = Inr items" by blast
    let ?ds = "desiredNamespacesOf items"
    obtain act sk w1 where d: "distribute L A g (map fst (alist_range (rangeOrder rt) ?ds)) w = (act, sk, w1)" by (metis prod_cases3)
    obtain e w2 where c: "cleanupStaleChildren A (gbName g) (childBoostName (gbName g)) ?ds act w1 = (e, w2)" by fastforce
    have u: "updateStatus L A rt g (sort act) (sort sk) w2 = (res, err, w')"
      using g(2) s d c by (simp add: reconcileGlobal_def Let_def)
    have "keeps_user_boosts (view w) (view w1)"
      using boost_store.distribute_keeps [OF bs g(1)] d unfolding distribute_def by blast
    with boost_store.cleanupStaleChildren_keeps [OF bs c] updateStatus_view [OF bs u] show ?thesis
      using keeps_trans by simp
  qed (use g in \<open>auto simp: reconcileGlobal_def split: sum.splits\<close>)
  show "keeps_user_boosts (view w) (view w')"
    using r rec name boost_store.handleDeletion_outcome [OF bs] boost_store.global [OF bs]
    by (cases "GetGlobal A n w")
       (auto simp: ReconcileGlobal_def handleDeletion_def [of L A _ w] split: if_splits prod.splits option.splits)
  show "\<exists>g. GetGlobal A n w = Inr g \<and> ContainsFinalizer L (gbFinalizers g) GlobalBoostFinalizer" if "view w' \<noteq> view w"
    using r that boost_store.global [OF bs]
    by (cases "GetGlobal A n w") (auto simp: ReconcileGlobal_def handleDeletion_def split: if_splits prod.splits option.splits)
qed

text \<open>A global boost for every namespace with the sample label, and a cluster with two such namespaces.\<close>

definition sample_global :: "int global_boost" where
  "sample_global = \<lparr>gbName = ''g'', gbUID = ''uid'', gbFinalizers = [GlobalBoostFinalizer], gbDeletionTimestamp = None,
     gbSpec = \<lparr>gsNamespaceSelector = \<lparr>matchLabels = sample_labels, matchExpressions = []\<rparr>,
       gsTemplate = \<lparr>gtSelector = scbSelector sample_scb, gtSpec = sample_spec\<rparr>\<rparr>,
     gbStatus = \<lparr>gsNamespaceCount = 0, gsActiveNamespaces = [], gsSkippedNamespaces = [], gsConditions = []\<rparr>\<rparr>"

definition sample_namespace :: "string \<Rightarrow> namespace_obj" where
  "sample_namespace n = \<lparr>nsName = n, nsLabels = sample_labels, nsDeletionTimestamp = None\<rparr>"

definition sample_cluster :: "int cluster" where
  "sample_cluster = \<lparr>clBoosts = [sample_scb, buildChildBoost sample_global ''dev'' ''global-g''],
     clNamespaces = [sample_namespace ''prod'', sample_namespace ''dev''], clGlobals = [sample_global]\<rparr>"

lemma sample_global_selector:
  "AsSelector mem_lib (gsNamespaceSelector (gbSpec sample_global)) =
     Inr (label_selector_matches \<lparr>matchLabels = sample_labels, matchExpressions = []\<rparr>)"
  by (simp add: mem_lib_def sample_selector_def sample_global_def)

lemma sample_cluster_namespaces:
  "ListNamespaces mem_cluster (label_selector_matches \<lparr>matchLabels = sample_labels, matchExpressions = []\<rparr>) sample_cluster =
     Inr [sample_namespace ''prod'', sample_namespace ''dev'']"
  by (simp add: mem_cluster_def sample_cluster_def sample_namespace_def label_selector_matches_def list_all_iff)

lemma sample_cluster_view:
  "cluster_view sample_cluster (''prod'', ''boost'') = Some sample_scb"
  "cluster_view sample_cluster (''dev'', n) =
     (if n = ''global-g'' then Some (buildChildBoost sample_global ''dev'' ''global-g'') else None)"
  by (simp_all add: cluster_view_def sample_cluster_def buildChildBoost_def sample_scb_def)

lemma sample_taken:
  "taken ''g'' (cluster_view sample_cluster) ''prod''" "\<not> taken ''g'' (cluster_view sample_cluster) ''dev''"
proof -
  have "managedBy sample_scb \<noteq> ''g''" by (simp add: managedBy_def sample_scb_def)
  then show "taken ''g'' (cluster_view sample_cluster) ''prod''" unfolding taken_def using sample_cluster_view(1) by blast
  show "\<not> taken ''g'' (cluster_view sample_cluster) ''dev''"
    by (simp add: taken_def sample_cluster_view buildChildBoost_def managedBy_def lookup_update sample_global_def)
qed



text \<open>
  C19. Whatever calls fail, a reconciliation of a global boost never changes or deletes a boost that does
  not carry its label, and it touches no boost at all before the finalizer is on the global boost.
\<close>

theorem global_user_boosts:
  assumes "boost_store A view" and "\<And>g. GetGlobal A n w = Inr g \<Longrightarrow> gbName g \<noteq> ''''"
    and "ReconcileGlobal L A rt n w = (res, err, w')"
  shows "keeps_user_boosts (view w) (view w') \<and>
     (view w' = view w \<or> (\<exists>g. GetGlobal A n w = Inr g \<and> ContainsFinalizer L (gbFinalizers g) GlobalBoostFinalizer))"
  using ReconcileGlobal_safe [OF assms] by blast

theorem global_user_boosts_witness:
  "cluster_view (snd (snd (ReconcileGlobal mem_lib mem_cluster sample_rt ''g'' sample_cluster))) (''prod'', ''boost'') =
     Some sample_scb"
proof -
  obtain res err w' where r: "ReconcileGlobal mem_lib mem_cluster sample_rt ''g'' sample_cluster = (res, err, w')"
    by (metis prod_cases3)
  have "gbName g \<noteq> ''''" if "GetGlobal mem_cluster ''g'' sample_cluster = Inr g" for g
    using that by (auto simp: mem_cluster_def found_def sample_cluster_def sample_global_def split: if_splits)
  from global_user_boosts [OF memc.boost_store_axioms this r] have "keeps_user_boosts (cluster_view sample_cluster) (cluster_view w')" ..
  moreover have "managed_label sample_scb = None" by (simp add: sample_scb_def)
  ultimately show ?thesis using sample_cluster_view(1) by (simp add: r keeps_user_boosts_def)
qed

text \<open>
  C20. The deletion of a global boost: its finalizer stays on the object, with an error, unless no
  child is left; boosts without the label survive the clean up.
\<close>

theorem global_deletion:
  assumes "boost_store A view" and "ContainsFinalizer L (gbFinalizers g) GlobalBoostFinalizer"
    and "handleDeletion L A g w = (res, err, w')"
  shows "keeps_user_boosts (view w) (view w') \<and>
     ((\<forall>k b. view w' k = Some b \<longrightarrow> managed_label b \<noteq> Some (gbName g)) \<or>
      err \<noteq> None \<and> (\<forall>n. GetGlobal A n w' = GetGlobal A n w))"
  by (rule boost_store.handleDeletion_outcome [OF assms])

theorem global_deletion_witness:
  "case handleDeletion mem_lib mem_cluster sample_global sample_cluster of (res, err, w') \<Rightarrow>
     err = None \<and> cluster_view w' (''dev'', ''global-g'') = None"
proof -
  obtain res err w' where r: "handleDeletion mem_lib mem_cluster sample_global sample_cluster = (res, err, w')"
    by (metis prod_cases3)
  have "ContainsFinalizer mem_lib (gbFinalizers sample_global) GlobalBoostFinalizer"
    by (simp add: mem_lib_def sample_global_def)
  note d = global_deletion [OF memc.boost_store_axioms this r]
  have e: "err = None" "cluster_view w' (''dev'', ''global-g'') = None"
    using r by (auto simp: handleDeletion_def deleteAllChildren_def mem_cluster_def mem_lib_def sample_global_def
        sample_cluster_def cluster_view_def buildChildBoost_def sample_scb_def lookup_update split: if_splits)
  with d show ?thesis by (simp add: r)
qed


definition selects :: "as_selector \<Rightarrow> 'q global_boost \<Rightarrow> string gomap \<Rightarrow> bool" where
  "selects asSel g nsl = (case asSel (gsNamespaceSelector (gbSpec g)) of Inl _ \<Rightarrow> False | Inr sel \<Rightarrow> sel nsl)"

lemma matchingRequests_set:
  "set (matchingRequests asSel nsl items) = {('''', gbName g) | g. g \<in> set items \<and> selects asSel g nsl}"
proof (induction items)
  case (Cons g items)
  have "matchingRequests asSel nsl (g # items) =
      (if selects asSel g nsl then [('''', gbName g)] else []) @ matchingRequests asSel nsl items"
    by (simp add: selects_def split: sum.split)
  with Cons show ?case by auto
qed simp

text \<open>
  An event of a namespace, or of a boost in it, asks for the reconciliation of exactly the global
  boosts whose selector is valid and selects the labels of that namespace.
\<close>

lemma global_requests:
  assumes "ListGlobals A w = Inr items" and "GetNamespace A (scbNamespace b) w = Inr ns"
  shows "mapBoostToGlobalBoosts L A b w = mapNamespaceToGlobalBoosts L A ns w \<and>
     set (mapNamespaceToGlobalBoosts L A ns w) =
       {('''', gbName g) | g. g \<in> set items \<and> selects (AsSelector L) g (nsLabels ns)}"
  using assms by (simp add: mapBoostToGlobalBoosts_def mapNamespaceToGlobalBoosts_def matchingRequests_set)

end
