(* ===== verification/Boost_Properties.thy ===== *)
theory Boost_Properties
  imports Manager_Operations
begin

text \<open>
  What a single boost guarantees: when the time of a pod is over, which policy a container gets, what
  the policies make of its CPU resources, and that the statistics are those of the tracked pods; and
  that the collection of the manager implements a map.
\<close>

section \<open>Durations\<close>

text \<open>The duration that a specification names, in nanoseconds.\<close>

definition spec_nanoseconds :: "fixed_duration_spec \<Rightarrow> int" where
  "spec_nanoseconds f =
     sint (fdValue f) * (if fdUnit f = FixedDurationPolicyUnitMin then 60000000000 else 1000000000)"

lemma sint_mult_exact:
  fixes a b :: int64
  shows "sint (a * b) = sint a * sint b \<longleftrightarrow> - (2 ^ 63) \<le> sint a * sint b \<and> sint a * sint b < 2 ^ 63"
proof
  assume "sint (a * b) = sint a * sint b"
  then show "- (2 ^ 63) \<le> sint a * sint b \<and> sint a * sint b < 2 ^ 63"
    using sint_greater_eq [of "a * b"] sint_less [of "a * b"] by simp
next
  assume "- (2 ^ 63) \<le> sint a * sint b \<and> sint a * sint b < 2 ^ 63"
  then show "sint (a * b) = sint a * sint b" by (simp add: sint_word_mult signed_take_bit_int_eq_self)
qed

lemma sint_units [simp]: "sint (60000000000 :: int64) = 60000000000" "sint (1000000000 :: int64) = 1000000000"
  by simp_all

text \<open>The multiplication wraps around unless the result fits 64 bits with a sign.\<close>

lemma duration_exact:
  "sint (fixedPolicyToDuration f) = spec_nanoseconds f \<longleftrightarrow> - (2 ^ 63) \<le> spec_nanoseconds f \<and> spec_nanoseconds f < 2 ^ 63"
  using sint_mult_exact [of "fdValue f" 60000000000] sint_mult_exact [of "fdValue f" 1000000000]
  by (simp add: fixedPolicyToDuration_def spec_nanoseconds_def)

text \<open>
  C21. The pods that the check loop gets from a boost with a fixed duration: exactly the tracked pods
  that were scheduled at least that long ago, by their first condition that says so.
\<close>

theorem expired_pods:
  assumes "go_order (rangeOrder rt)" and "durationPolicies (boostAt h r) = mapDurationPolicy spec"
    and "dpFixed spec = Some f" and "- (2 ^ 63) \<le> spec_nanoseconds f" and "spec_nanoseconds f < 2 ^ 63"
  shows "p \<in> set (ValidatePolicy rt r FixedDurationPolicyName h) \<longleftrightarrow>
     (\<exists>n. boostPod (boostAt h r) n = Some p) \<and>
     (\<exists>c. List.find is_scheduled (podConditions (podAt h p)) = Some c \<and>
          condLastTransitionTime c + spec_nanoseconds f \<le> timeNow rt)"
proof -
  have d: "sint (fixedPolicyToDuration f) = spec_nanoseconds f" using assms(4,5) by (simp add: duration_exact)
  have l: "DAList.lookup (durationPolicies (boostAt h r)) FixedDurationPolicyName = Some (NewFixedDurationPolicy (fixedPolicyToDuration f))"
    by (simp add: assms(2,3) mapDurationPolicy_lookup)
  have "\<not> validatePolicyOnPod rt (NewFixedDurationPolicy (fixedPolicyToDuration f)) (podAt h p) \<longleftrightarrow>
     (\<exists>c. List.find is_scheduled (podConditions (podAt h p)) = Some c \<and>
          condLastTransitionTime c + spec_nanoseconds f \<le> timeNow rt)"
    by (auto simp: validatePolicyOnPod_def NewFixedDurationPolicy_def fixedValid_iff d split: option.split)
  then show ?thesis
    using alist_range_snd_mem [OF assms(1), of p "trackedPods (boostAt h r)"]
    by (auto simp: ValidatePolicy_def l boostPod_def)
qed

definition late_rt :: go_runtime where
  "late_rt = \<lparr>rangeOrder = (\<lambda>ks. ks), timeNow = 10 ^ 12\<rparr>"

definition scheduled_heap :: "(int, int pod list) heap" where
  "scheduled_heap = sample_heap\<lparr>
     podAt := (\<lambda>_. sample_pod\<lparr>podConditions := [\<lparr>condType = PodScheduled, condStatus = ConditionTrue, condLastTransitionTime = 0\<rparr>]\<rparr>),
     boostAt := (\<lambda>_. sample_boost\<lparr>trackedPods := DAList.update ''web-1'' 0 DAList.empty\<rparr>)\<rparr>"

theorem expired_pods_witness:
  "0 \<in> set (ValidatePolicy late_rt 0 FixedDurationPolicyName scheduled_heap)"
proof -
  let ?f = "\<lparr>fdUnit = ''Seconds'', fdValue = 60\<rparr> :: fixed_duration_spec"
  have o: "go_order (rangeOrder late_rt)" by (simp add: late_rt_def go_order_id)
  have d: "durationPolicies (boostAt scheduled_heap 0) = mapDurationPolicy (bsDurationPolicy sample_spec)"
    by (simp add: scheduled_heap_def sample_boost_def)
  have f: "dpFixed (bsDurationPolicy sample_spec) = Some ?f" by (simp add: sample_spec_def)
  have n: "spec_nanoseconds ?f = 60000000000" by (simp add: spec_nanoseconds_def)
  have "boostPod (boostAt scheduled_heap 0) ''web-1'' = Some 0"
    by (simp add: scheduled_heap_def boostPod_def lookup_update)
  moreover have "List.find is_scheduled (podConditions (podAt scheduled_heap 0)) =
      Some \<lparr>condType = PodScheduled, condStatus = ConditionTrue, condLastTransitionTime = 0\<rparr>"
    by (simp add: scheduled_heap_def)
  ultimately show ?thesis
    using expired_pods [OF o d f, of 0] by (auto simp: n late_rt_def)
qed

section \<open>Resources\<close>

text \<open>
  The policy of a container: the last entry of the specification with its name, or else the last
  entry for the wildcard; a container that neither covers gets none.
\<close>

lemma container_policy_lookup:
  assumes "mapResourcePolicy (bsResourcePolicy spec) = Inr (resourcePolicies b)"
  shows "ResourcePolicy b name =
     (case policy_of (rpContainerPolicies (bsResourcePolicy spec)) name of
        Some policy \<Rightarrow> Some policy
      | None \<Rightarrow> policy_of (rpContainerPolicies (bsResourcePolicy spec)) ContainerPolicyWildcard)"
  unfolding ResourcePolicy_def mapResourcePolicy_lookup [OF assms] ..



text \<open>
  C35. The fixed policy never lowers a resource: a CPU request or limit becomes the larger of itself and
  the target, and stays as it is for the target zero.
\<close>

theorem fixed_target:
  assumes "quantity_laws Q val dval" and "NewResources Q (NewFixedPolicy rq lm) c = Some r"
  shows "(\<forall>q. map_get (Requests (ctrResources c)) ResourceCPU = Some q \<longrightarrow>
       (\<exists>q'. map_get (Requests r) ResourceCPU = Some q' \<and> val q' = (if val rq = 0 then val q else max (val q) (val rq)))) \<and>
     (\<forall>q. map_get (Limits (ctrResources c)) ResourceCPU = Some q \<longrightarrow>
       (\<exists>q'. map_get (Limits r) ResourceCPU = Some q' \<and> val q' = (if val lm = 0 then val q else max (val q) (val lm))))"
proof -
  from assms(2) have r: "setResource Q ResourceCPU (Requests (ctrResources c)) rq = Some (Requests r)"
    "setResource Q ResourceCPU (Limits (ctrResources c)) lm = Some (Limits r)"
    by (auto simp: NewFixedPolicy_def fixedNewResources_def Let_def bind_eq_Some_conv)
  show ?thesis
    using quantity_laws.setResource_val [OF assms(1) r(1)] quantity_laws.setResource_val [OF assms(1) r(2)] by blast
qed

theorem fixed_target_witness:
  "\<exists>r q'. NewResources nano_quantity (NewFixedPolicy 15 5) sample_container = Some r \<and>
     map_get (Requests r) ResourceCPU = Some q' \<and> nano_val q' = nano_val 15"
proof -
  obtain r where r: "NewResources nano_quantity (NewFixedPolicy 15 5) sample_container = Some r"
    using NewResources_total by blast
  have "map_get (Requests (ctrResources sample_container)) ResourceCPU = Some 10"
    by (simp add: sample_container_def lookup_update)
  with fixed_target [OF nano.quantity_laws_axioms r] r show ?thesis by (auto simp: nano_val_def max_def)
qed

section \<open>Statistics\<close>

text \<open>
  C36. After a pod was taken in without an error, the number of active boosts of the boost and its gauge
  are the number of boosted containers of all tracked pods; the total grows by the containers of the
  pod when it is new, and not when it was tracked.
\<close>

theorem upsert_statistics:
  assumes "client_laws (dK D)" and "go_order (rangeOrder rt)" and "boostUpsertPod D rt r p h = Some (None, h')"
  shows "stats_fresh (dJ D) r h' \<and>
     TotalContainerBoosts (boostStats (boostAt h' r)) = TotalContainerBoosts (boostStats (boostAt h r)) +
       (if boostPod (boostAt h r) (podName (podAt h p)) = None then boostContainersLen (dJ D) (podAt h p) else 0)"
  using boostUpsertPod_fresh [OF assms] boostUpsertPod_total_boosts [OF assms(1,3)] by (simp add: boostPod_def)

theorem upsert_statistics_witness:
  "\<exists>h'. boostUpsertPod sample_deps sample_rt 0 0 sample_heap = Some (None, h') \<and> stats_fresh (dJ sample_deps) 0 h'"
proof -
  have "\<not> ends_boost sample_rt (boostAt sample_heap 0) (podAt sample_heap 0)"
    by (simp add: sample_heap_def ends_boost_def sample_boost_def sample_spec_def mapDurationPolicy_def lookup_update)
  then obtain h' where u: "boostUpsertPod sample_deps sample_rt 0 0 sample_heap = Some (None, h')"
    by (simp add: boostUpsertPod_eq)
  from upsert_statistics [OF sample_client sample_order u] u show ?thesis by blast
qed

section \<open>The collection of the manager\<close>

text \<open>The map that a collection stands for.\<close>

definition collection_map :: "'t namespaced_objects \<Rightarrow> (string \<times> string \<Rightarrow> 't option)" where
  "collection_map s = (\<lambda>(n, ns). nsoGet n ns s)"

text \<open>
  C37. The two-level collection of the manager implements a map from pairs of name and namespace: each
  operation is the operation on that map, and the listings give its range, whatever the order of the iterations.
\<close>

theorem collection_refines_map:
  fixes s :: "'t namespaced_objects"
  assumes "go_order ord"
  shows "collection_map (newNamespacedObjects :: 't namespaced_objects) = Map.empty \<and>
     collection_map (nsoPut n ns x s) = (collection_map s)((n, ns) \<mapsto> x) \<and>
     collection_map (nsoDelete n ns s) = (collection_map s)((n, ns) := None) \<and>
     nsoGet n ns s = collection_map s (n, ns) \<and>
     set (nsoListAll ord s) = ran (collection_map s) \<and>
     set (nsoList ord ns s) = {x. \<exists>n. collection_map s (n, ns) = Some x}"
proof -
  have "set (nsoListAll ord s) = ran (collection_map s)"
    using nso.list_all_mem [OF assms, where s = s] by (auto simp: collection_map_def ran_def)
  moreover have "set (nsoList ord ns s) = {x. \<exists>n. collection_map s (n, ns) = Some x}"
    using nso.list_mem [OF assms, where s = s] by (auto simp: collection_map_def)
  ultimately show ?thesis by (auto simp: collection_map_def nso.get_empty nso.get_put nso.get_delete)
qed

theorem collection_refines_map_witness:
  "set (nsoListAll rev (nsoPut ''a'' ''x'' True newNamespacedObjects)) = {True}"
proof -
  let ?s = "nsoPut ''a'' ''x'' True newNamespacedObjects"
  have "set (nsoListAll rev ?s) = ran (collection_map ?s)"
    using collection_refines_map [OF go_order_rev, where s = ?s] by blast
  also have "collection_map ?s = [(''a'', ''x'') \<mapsto> True]"
    using collection_refines_map [OF go_order_rev, where s = "newNamespacedObjects :: bool namespaced_objects"
        and n = "''a''" and ns = "''x''" and x = True] by simp
  also have "ran [(''a'', ''x'') \<mapsto> True] = {True}" by (auto simp: ran_def)
  finally show ?thesis .
qed

end
