(* ===== verification/Config.thy ===== *)
theory Config
  imports Strconv
begin

text \<open>
  \<^verbatim>\<open>internal/config\<close>: the configuration and its provider, which reads the environment. A Go \<^verbatim>\<open>int\<close>
  has 64 bits, the range of \<open>Atoi\<close>. A loader has a named result \<^verbatim>\<open>errs\<close> that starts as nil and is only
  assigned when the value of its variable is invalid.
\<close>

section \<open>Configuration\<close>

record config =
  Namespace :: string
  MgrCheckIntervalSec :: int
  LeaderElection :: bool
  MetricsProbeBindAddr :: string
  HealthProbeBindAddr :: string
  SecureMetrics :: bool
  ZapLogLevel :: int
  ZapDevelopment :: bool
  HTTP2 :: bool
  RemoveLimits :: bool
  ValidateFeatureEnabled :: bool

definition LoadDefaults :: config where
  "LoadDefaults = \<lparr>
     Namespace = ''kube-startup-cpu-boost-system'',
     MgrCheckIntervalSec = 5,
     LeaderElection = False,
     MetricsProbeBindAddr = '':8080'',
     HealthProbeBindAddr = '':8081'',
     SecureMetrics = False,
     ZapLogLevel = 0,
     ZapDevelopment = False,
     HTTP2 = False,
     RemoveLimits = True,
     ValidateFeatureEnabled = True\<rparr>"

section \<open>Environment\<close>

abbreviation PodNamespaceEnvVar :: string where "PodNamespaceEnvVar \<equiv> ''POD_NAMESPACE''"
abbreviation MgrCheckIntervalSecEnvVar :: string where "MgrCheckIntervalSecEnvVar \<equiv> ''MGR_CHECK_INTERVAL''"
abbreviation LeaderElectionEnvVar :: string where "LeaderElectionEnvVar \<equiv> ''LEADER_ELECTION''"
abbreviation MetricsProbeBindAddrEnvVar :: string where "MetricsProbeBindAddrEnvVar \<equiv> ''METRICS_PROBE_BIND_ADDR''"
abbreviation HealthProbeBindAddrEnvVar :: string where "HealthProbeBindAddrEnvVar \<equiv> ''HEALTH_PROBE_BIND_ADDR''"
abbreviation SecureMetricsEnvVar :: string where "SecureMetricsEnvVar \<equiv> ''SECURE_METRICS''"
abbreviation ZapLogLevelEnvVar :: string where "ZapLogLevelEnvVar \<equiv> ''ZAP_LOG_LEVEL''"
abbreviation ZapDevelopmentEnvVar :: string where "ZapDevelopmentEnvVar \<equiv> ''ZAP_DEVELOPMENT''"
abbreviation HTTP2EnvVar :: string where "HTTP2EnvVar \<equiv> ''HTTP2''"
abbreviation RemoveLimitsEnvVar :: string where "RemoveLimitsEnvVar \<equiv> ''REMOVE_LIMITS''"
abbreviation ValidateFeatureEnabledEnvVar :: string where "ValidateFeatureEnabledEnvVar \<equiv> ''VALIDATE_FEATURE_ENABLED''"

type_synonym lookup_env = "string \<Rightarrow> string option"

definition loadPodNamespace :: "lookup_env \<Rightarrow> config \<Rightarrow> config" where
  "loadPodNamespace lookup config =
     (case lookup PodNamespaceEnvVar of None \<Rightarrow> config | Some v \<Rightarrow> config\<lparr>Namespace := v\<rparr>)"

definition loadMgrCheckIntervalSec :: "lookup_env \<Rightarrow> config \<Rightarrow> go_error list \<Rightarrow> config \<times> go_error list" where
  "loadMgrCheckIntervalSec lookup config curErrs =
     (case lookup MgrCheckIntervalSecEnvVar of
        None \<Rightarrow> (config, [])
      | Some v \<Rightarrow>
          (case Atoi v of (val, err) \<Rightarrow>
             (config\<lparr>MgrCheckIntervalSec := val\<rparr>,
              case err of None \<Rightarrow> [] | Some e \<Rightarrow> curErrs @ [Errorf (MgrCheckIntervalSecEnvVar @ '' value is not an int'') [e]])))"

definition loadLeaderElection :: "lookup_env \<Rightarrow> config \<Rightarrow> go_error list \<Rightarrow> config \<times> go_error list" where
  "loadLeaderElection lookup config curErrs =
     (case lookup LeaderElectionEnvVar of
        None \<Rightarrow> (config, [])
      | Some v \<Rightarrow>
          (case ParseBool v of (val, err) \<Rightarrow>
             (config\<lparr>LeaderElection := val\<rparr>,
              case err of None \<Rightarrow> [] | Some e \<Rightarrow> curErrs @ [Errorf (LeaderElectionEnvVar @ '' value is not a bool'') [e]])))"

definition loadMetricsProbeBindAddr :: "lookup_env \<Rightarrow> config \<Rightarrow> config" where
  "loadMetricsProbeBindAddr lookup config =
     (case lookup MetricsProbeBindAddrEnvVar of None \<Rightarrow> config | Some v \<Rightarrow> config\<lparr>MetricsProbeBindAddr := v\<rparr>)"

definition loadHealthProbeBindAddr :: "lookup_env \<Rightarrow> config \<Rightarrow> config" where
  "loadHealthProbeBindAddr lookup config =
     (case lookup HealthProbeBindAddrEnvVar of None \<Rightarrow> config | Some v \<Rightarrow> config\<lparr>HealthProbeBindAddr := v\<rparr>)"

definition loadSecureMetrics :: "lookup_env \<Rightarrow> config \<Rightarrow> go_error list \<Rightarrow> config \<times> go_error list" where
  "loadSecureMetrics lookup config curErrs =
     (case lookup SecureMetricsEnvVar of
        None \<Rightarrow> (config, [])
      | Some v \<Rightarrow>
          (case ParseBool v of (val, err) \<Rightarrow>
             (config\<lparr>SecureMetrics := val\<rparr>,
              case err of None \<Rightarrow> [] | Some e \<Rightarrow> curErrs @ [Errorf (SecureMetricsEnvVar @ '' value is not a bool'') [e]])))"

definition loadZapLogLevel :: "lookup_env \<Rightarrow> config \<Rightarrow> go_error list \<Rightarrow> config \<times> go_error list" where
  "loadZapLogLevel lookup config curErrs =
     (case lookup ZapLogLevelEnvVar of
        None \<Rightarrow> (config, [])
      | Some v \<Rightarrow>
          (case Atoi v of (val, err) \<Rightarrow>
             (config\<lparr>ZapLogLevel := val\<rparr>,
              case err of None \<Rightarrow> [] | Some e \<Rightarrow> curErrs @ [Errorf (ZapLogLevelEnvVar @ '' value is not an int'') [e]])))"

definition loadZapDevelopment :: "lookup_env \<Rightarrow> config \<Rightarrow> go_error list \<Rightarrow> config \<times> go_error list" where
  "loadZapDevelopment lookup config curErrs =
     (case lookup ZapDevelopmentEnvVar of
        None \<Rightarrow> (config, [])
      | Some v \<Rightarrow>
          (case ParseBool v of (val, err) \<Rightarrow>
             (config\<lparr>ZapDevelopment := val\<rparr>,
              case err of None \<Rightarrow> [] | Some e \<Rightarrow> curErrs @ [Errorf (ZapDevelopmentEnvVar @ '' value is not a bool'') [e]])))"

definition loadHTTP2 :: "lookup_env \<Rightarrow> config \<Rightarrow> go_error list \<Rightarrow> config \<times> go_error list" where
  "loadHTTP2 lookup config curErrs =
     (case lookup HTTP2EnvVar of
        None \<Rightarrow> (config, [])
      | Some v \<Rightarrow>
          (case ParseBool v of (val, err) \<Rightarrow>
             (config\<lparr>HTTP2 := val\<rparr>,
              case err of None \<Rightarrow> [] | Some e \<Rightarrow> curErrs @ [Errorf (HTTP2EnvVar @ '' value is not a bool'') [e]])))"

definition loadRemoveLimits :: "lookup_env \<Rightarrow> config \<Rightarrow> go_error list \<Rightarrow> config \<times> go_error list" where
  "loadRemoveLimits lookup config curErrs =
     (case lookup RemoveLimitsEnvVar of
        None \<Rightarrow> (config, [])
      | Some v \<Rightarrow>
          (case ParseBool v of (val, err) \<Rightarrow>
             (config\<lparr>RemoveLimits := val\<rparr>,
              case err of None \<Rightarrow> [] | Some e \<Rightarrow> curErrs @ [Errorf (RemoveLimitsEnvVar @ '' value is not a bool'') [e]])))"

definition loadValidateFeatureEnabled :: "lookup_env \<Rightarrow> config \<Rightarrow> go_error list \<Rightarrow> config \<times> go_error list" where
  "loadValidateFeatureEnabled lookup config curErrs =
     (case lookup ValidateFeatureEnabledEnvVar of
        None \<Rightarrow> (config, [])
      | Some v \<Rightarrow>
          (case ParseBool v of (val, err) \<Rightarrow>
             (config\<lparr>ValidateFeatureEnabled := val\<rparr>,
              case err of None \<Rightarrow> [] | Some e \<Rightarrow> curErrs @ [Errorf (ValidateFeatureEnabledEnvVar @ '' value is not a bool'') [e]])))"

definition LoadConfig :: "lookup_env \<Rightarrow> config \<times> go_error option" where
  "LoadConfig lookup =
     (let errs = [];
          config = LoadDefaults;
          config = loadPodNamespace lookup config;
          (config, errs) = loadMgrCheckIntervalSec lookup config errs;
          (config, errs) = loadLeaderElection lookup config errs;
          config = loadMetricsProbeBindAddr lookup config;
          config = loadHealthProbeBindAddr lookup config;
          (config, errs) = loadSecureMetrics lookup config errs;
          (config, errs) = loadZapLogLevel lookup config errs;
          (config, errs) = loadZapDevelopment lookup config errs;
          (config, errs) = loadHTTP2 lookup config errs;
          (config, errs) = loadRemoveLimits lookup config errs;
          (config, errs) = loadValidateFeatureEnabled lookup config errs
      in (config, if length errs > 0 then errors_Join errs else None))"

section \<open>Log levels\<close>

text \<open>\<^verbatim>\<open>logEncoderOptionsProd\<close>: the names of the levels, which \<^verbatim>\<open>zapcore\<close> numbers from -1 (debug) to 5 (fatal).\<close>

definition encodeLevel :: "int \<Rightarrow> string" where
  "encodeLevel l =
     (if l = 0 then ''info'' else if l = 1 then ''warning'' else if l = 2 then ''error''
      else if l = 3 then ''critical'' else if l = 4 then ''alert'' else if l = 5 then ''emergency''
      else ''debug'')"

section \<open>What is loaded\<close>

text \<open>A loader sets its own field, whatever the errors before it.\<close>

definition env_bool :: "lookup_env \<Rightarrow> string \<Rightarrow> bool \<Rightarrow> bool" where
  "env_bool lookup var dflt = (case lookup var of None \<Rightarrow> dflt | Some v \<Rightarrow> fst (ParseBool v))"

definition env_int :: "lookup_env \<Rightarrow> string \<Rightarrow> int \<Rightarrow> int" where
  "env_int lookup var dflt = (case lookup var of None \<Rightarrow> dflt | Some v \<Rightarrow> fst (Atoi v))"

definition env_string :: "lookup_env \<Rightarrow> string \<Rightarrow> string \<Rightarrow> string" where
  "env_string lookup var dflt = (case lookup var of None \<Rightarrow> dflt | Some v \<Rightarrow> v)"

text \<open>The error of one variable.\<close>

definition bool_error :: "lookup_env \<Rightarrow> string \<Rightarrow> go_error option" where
  "bool_error lookup var = (case lookup var of None \<Rightarrow> None | Some v \<Rightarrow>
     map_option (\<lambda>e. Errorf (var @ '' value is not a bool'') [e]) (snd (ParseBool v)))"

definition int_error :: "lookup_env \<Rightarrow> string \<Rightarrow> go_error option" where
  "int_error lookup var = (case lookup var of None \<Rightarrow> None | Some v \<Rightarrow>
     map_option (\<lambda>e. Errorf (var @ '' value is not an int'') [e]) (snd (Atoi v)))"

text \<open>What a loader returns for the errors so far: they survive only a further error.\<close>

definition chain :: "go_error list \<Rightarrow> go_error option \<Rightarrow> go_error list" where
  "chain errs e = (case e of None \<Rightarrow> [] | Some x \<Rightarrow> errs @ [x])"

lemma load_strings:
  "loadPodNamespace lookup c = c\<lparr>Namespace := env_string lookup PodNamespaceEnvVar (Namespace c)\<rparr>"
  "loadMetricsProbeBindAddr lookup c = c\<lparr>MetricsProbeBindAddr := env_string lookup MetricsProbeBindAddrEnvVar (MetricsProbeBindAddr c)\<rparr>"
  "loadHealthProbeBindAddr lookup c = c\<lparr>HealthProbeBindAddr := env_string lookup HealthProbeBindAddrEnvVar (HealthProbeBindAddr c)\<rparr>"
  by (simp_all add: loadPodNamespace_def loadMetricsProbeBindAddr_def loadHealthProbeBindAddr_def env_string_def split: option.splits)

lemma load_bools:
  "loadLeaderElection lookup c errs =
     (c\<lparr>LeaderElection := env_bool lookup LeaderElectionEnvVar (LeaderElection c)\<rparr>, chain errs (bool_error lookup LeaderElectionEnvVar))"
  "loadSecureMetrics lookup c errs =
     (c\<lparr>SecureMetrics := env_bool lookup SecureMetricsEnvVar (SecureMetrics c)\<rparr>, chain errs (bool_error lookup SecureMetricsEnvVar))"
  "loadZapDevelopment lookup c errs =
     (c\<lparr>ZapDevelopment := env_bool lookup ZapDevelopmentEnvVar (ZapDevelopment c)\<rparr>, chain errs (bool_error lookup ZapDevelopmentEnvVar))"
  "loadHTTP2 lookup c errs =
     (c\<lparr>HTTP2 := env_bool lookup HTTP2EnvVar (HTTP2 c)\<rparr>, chain errs (bool_error lookup HTTP2EnvVar))"
  "loadRemoveLimits lookup c errs =
     (c\<lparr>RemoveLimits := env_bool lookup RemoveLimitsEnvVar (RemoveLimits c)\<rparr>, chain errs (bool_error lookup RemoveLimitsEnvVar))"
  "loadValidateFeatureEnabled lookup c errs =
     (c\<lparr>ValidateFeatureEnabled := env_bool lookup ValidateFeatureEnabledEnvVar (ValidateFeatureEnabled c)\<rparr>, chain errs (bool_error lookup ValidateFeatureEnabledEnvVar))"
  by (simp_all add: loadLeaderElection_def loadSecureMetrics_def loadZapDevelopment_def loadHTTP2_def loadRemoveLimits_def loadValidateFeatureEnabled_def
        env_bool_def bool_error_def chain_def split: option.splits prod.splits)

lemma load_ints:
  "loadMgrCheckIntervalSec lookup c errs =
     (c\<lparr>MgrCheckIntervalSec := env_int lookup MgrCheckIntervalSecEnvVar (MgrCheckIntervalSec c)\<rparr>, chain errs (int_error lookup MgrCheckIntervalSecEnvVar))"
  "loadZapLogLevel lookup c errs =
     (c\<lparr>ZapLogLevel := env_int lookup ZapLogLevelEnvVar (ZapLogLevel c)\<rparr>, chain errs (int_error lookup ZapLogLevelEnvVar))"
  by (simp_all add: loadMgrCheckIntervalSec_def loadZapLogLevel_def
        env_int_def int_error_def chain_def split: option.splits prod.splits)

lemmas load_simps = load_strings load_bools load_ints

text \<open>The checked variables in the order in which they are loaded, with their errors.\<close>

definition env_errors :: "lookup_env \<Rightarrow> go_error option list" where
  "env_errors lookup =
     [int_error lookup MgrCheckIntervalSecEnvVar, bool_error lookup LeaderElectionEnvVar,
      bool_error lookup SecureMetricsEnvVar, int_error lookup ZapLogLevelEnvVar,
      bool_error lookup ZapDevelopmentEnvVar, bool_error lookup HTTP2EnvVar,
      bool_error lookup RemoveLimitsEnvVar, bool_error lookup ValidateFeatureEnabledEnvVar]"

lemma LoadConfig_errors:
  "snd (LoadConfig lookup) = errors_Join (foldl chain [] (env_errors lookup))"
  by (simp add: LoadConfig_def load_simps env_errors_def errors_Join_def)

lemma foldl_chain_suffix:
  "foldl chain [] es = map the (rev (takeWhile (\<lambda>e. e \<noteq> None) (rev es)))"
proof (induction es rule: rev_induct)
  case (snoc e es)
  then show ?case by (cases e) (simp_all add: chain_def)
qed simp

text \<open>The environment that spells out a configuration.\<close>

definition show_bool :: "bool \<Rightarrow> string" where
  "show_bool b = (if b then ''true'' else ''false'')"

definition config_env :: "config \<Rightarrow> lookup_env" where
  "config_env c = map_of
     [(PodNamespaceEnvVar, Namespace c), (MgrCheckIntervalSecEnvVar, show_int (MgrCheckIntervalSec c)),
      (LeaderElectionEnvVar, show_bool (LeaderElection c)), (MetricsProbeBindAddrEnvVar, MetricsProbeBindAddr c),
      (HealthProbeBindAddrEnvVar, HealthProbeBindAddr c), (SecureMetricsEnvVar, show_bool (SecureMetrics c)),
      (ZapLogLevelEnvVar, show_int (ZapLogLevel c)), (ZapDevelopmentEnvVar, show_bool (ZapDevelopment c)),
      (HTTP2EnvVar, show_bool (HTTP2 c)), (RemoveLimitsEnvVar, show_bool (RemoveLimits c)),
      (ValidateFeatureEnabledEnvVar, show_bool (ValidateFeatureEnabled c))]"

lemma ParseBool_show [simp]: "ParseBool (show_bool b) = (b, None)"
  by (simp add: ParseBool_def show_bool_def)

section \<open>Properties\<close>

text \<open>
  Every field of the loaded configuration depends on its own variable alone: the value of the
  variable when it is set, and the default otherwise. A value that is no Boolean reads as false, one
  that is no integer as zero, and an integer outside 64 bits as the nearest bound.
\<close>

lemma load_config_values:
  "fst (LoadConfig lookup) = \<lparr>
     Namespace = env_string lookup PodNamespaceEnvVar ''kube-startup-cpu-boost-system'',
     MgrCheckIntervalSec = env_int lookup MgrCheckIntervalSecEnvVar 5,
     LeaderElection = env_bool lookup LeaderElectionEnvVar False,
     MetricsProbeBindAddr = env_string lookup MetricsProbeBindAddrEnvVar '':8080'',
     HealthProbeBindAddr = env_string lookup HealthProbeBindAddrEnvVar '':8081'',
     SecureMetrics = env_bool lookup SecureMetricsEnvVar False,
     ZapLogLevel = env_int lookup ZapLogLevelEnvVar 0,
     ZapDevelopment = env_bool lookup ZapDevelopmentEnvVar False,
     HTTP2 = env_bool lookup HTTP2EnvVar False,
     RemoveLimits = env_bool lookup RemoveLimitsEnvVar True,
     ValidateFeatureEnabled = env_bool lookup ValidateFeatureEnabledEnvVar True\<rparr>"
  by (simp add: LoadConfig_def load_simps LoadDefaults_def)

text \<open>
  C39. Which errors are reported: every loader drops the errors of the loaders before it unless its
  own variable is invalid too, so only the last uninterrupted run of invalid variables is reported,
  and the load fails only when the last variable, \<^verbatim>\<open>VALIDATE_FEATURE_ENABLED\<close>, is invalid.
\<close>

theorem load_config_error:
  "snd (LoadConfig lookup) =
     errors_Join (map the (rev (takeWhile (\<lambda>e. e \<noteq> None) (rev (env_errors lookup))))) \<and>
   (snd (LoadConfig lookup) \<noteq> None \<longleftrightarrow>
      (\<exists>v. lookup ValidateFeatureEnabledEnvVar = Some v \<and> snd (ParseBool v) \<noteq> None))"
  by (simp add: LoadConfig_errors foldl_chain_suffix)
     (auto simp: env_errors_def bool_error_def split: option.splits)

text \<open>
  C40. Loading the environment that spells out a configuration gives back the configuration, without
  an error, when its integers fit 64 bits.
\<close>

theorem load_config_round_trip:
  assumes "- (2 ^ 63) \<le> MgrCheckIntervalSec c" "MgrCheckIntervalSec c < 2 ^ 63"
    "- (2 ^ 63) \<le> ZapLogLevel c" "ZapLogLevel c < 2 ^ 63"
  shows "LoadConfig (config_env c) = (c, None)"
  using Atoi_show_int [OF assms(1,2)] Atoi_show_int [OF assms(3,4)]
  by (simp add: LoadConfig_def load_simps LoadDefaults_def env_bool_def env_int_def env_string_def
        config_env_def bool_error_def int_error_def chain_def)

theorem load_config_round_trip_witness:
  "LoadConfig (config_env (LoadDefaults\<lparr>MgrCheckIntervalSec := - 7, HTTP2 := True\<rparr>)) =
     (LoadDefaults\<lparr>MgrCheckIntervalSec := - 7, HTTP2 := True\<rparr>, None)"
  using load_config_round_trip [of "LoadDefaults\<lparr>MgrCheckIntervalSec := - 7, HTTP2 := True\<rparr>"]
  by (simp add: LoadDefaults_def)

end
