(* ===== verification/Feature_Gates.thy ===== *)
theory Feature_Gates
  imports Go_Prelude
begin

text \<open>
  \<^verbatim>\<open>internal/util/fg_validator.go\<close> and \<^verbatim>\<open>cluster_info.go\<close>: the feature gates of the cluster, read from
  the metrics of the API server, and its version. The clients and the parser of the text format belong to
  libraries and are arguments. A gauge value is a number, or
  nothing for a metric that is no gauge.
\<close>

section \<open>Feature gates\<close>

type_synonym feature_gates = "(string, (string, bool) alist) alist"

text \<open>\<^verbatim>\<open>strings.ToUpper\<close>, which works on Unicode, is the argument \<open>toUpper\<close>.\<close>

fun firstStage :: "(string \<Rightarrow> string) \<Rightarrow> string \<Rightarrow> (string \<times> bool) list \<Rightarrow> bool" where
  "firstStage toUpper stage [] = False"
| "firstStage toUpper stage ((stageName, enabled) # rest) =
     (if toUpper stageName = stage then enabled else firstStage toUpper stage rest)"

definition IsEnabled ::
  "(string \<Rightarrow> string) \<Rightarrow> (string list \<Rightarrow> string list) \<Rightarrow> feature_gates \<Rightarrow> string \<Rightarrow> string \<Rightarrow> bool" where
  "IsEnabled toUpper ord f featureGate stage =
     (case DAList.lookup f featureGate of
        None \<Rightarrow> False
      | Some stages \<Rightarrow> firstStage toUpper stage (alist_range ord stages))"

fun anyStage :: "(string \<times> bool) list \<Rightarrow> bool" where
  "anyStage [] = False"
| "anyStage ((_, enabled) # rest) = (if enabled then True else anyStage rest)"

definition IsEnabledAnyStage :: "(string list \<Rightarrow> string list) \<Rightarrow> feature_gates \<Rightarrow> string \<Rightarrow> bool" where
  "IsEnabledAnyStage ord f featureGate =
     (case DAList.lookup f featureGate of None \<Rightarrow> False | Some stages \<Rightarrow> anyStage (alist_range ord stages))"

section \<open>Reading the metrics\<close>

abbreviation k8sFeatureEnabledMetricName :: string where
  "k8sFeatureEnabledMetricName \<equiv> ''kubernetes_feature_enabled''"
abbreviation k8sFeatureEnabledNameLabel :: string where "k8sFeatureEnabledNameLabel \<equiv> ''name''"
abbreviation k8sFeatureEnabledStageLabel :: string where "k8sFeatureEnabledStageLabel \<equiv> ''stage''"

record label_pair =
  lpName :: "string option"
  lpValue :: "string option"

record metric =
  metricLabels :: "label_pair list"
  metricGauge :: "rat option"

text \<open>The getters of the generated message types give the zero value for a missing field.\<close>

definition lpGetName :: "label_pair \<Rightarrow> string" where
  "lpGetName l = (case lpName l of None \<Rightarrow> '''' | Some n \<Rightarrow> n)"

definition lpGetValue :: "label_pair \<Rightarrow> string" where
  "lpGetValue l = (case lpValue l of None \<Rightarrow> '''' | Some v \<Rightarrow> v)"

definition gaugeValue :: "metric \<Rightarrow> rat" where
  "gaugeValue mt = (case metricGauge mt of None \<Rightarrow> 0 | Some v \<Rightarrow> v)"

fun nameAndStageLoop :: "label_pair list \<Rightarrow> string \<Rightarrow> string option \<Rightarrow> string \<times> string option" where
  "nameAndStageLoop [] name stagePtr = (name, stagePtr)"
| "nameAndStageLoop (l # ls) name stagePtr =
     (let name' = (if lpGetName l = k8sFeatureEnabledNameLabel then lpGetValue l else name);
          stagePtr' = (if lpGetName l = k8sFeatureEnabledStageLabel then lpValue l else stagePtr)
      in nameAndStageLoop ls name' stagePtr')"

definition getNameAndStage :: "label_pair list \<Rightarrow> go_error + (string \<times> string)" where
  "getNameAndStage labels =
     (case nameAndStageLoop labels '''' None of
        (name, stagePtr) \<Rightarrow>
          (case stagePtr of
             None \<Rightarrow> Inl (OtherError ''missing name and stage label'')
           | Some stage \<Rightarrow>
               (if name = '''' then Inl (OtherError ''missing name and stage label'') else Inr (name, stage))))"

definition putGate :: "string \<Rightarrow> string \<Rightarrow> bool \<Rightarrow> feature_gates \<Rightarrow> feature_gates" where
  "putGate name stage enabled f =
     (let stages = (case DAList.lookup f name of None \<Rightarrow> DAList.empty | Some s \<Rightarrow> s);
          stages = DAList.update stage False stages;
          stages = (if enabled then DAList.update stage True stages else stages)
      in DAList.update name stages f)"

fun gatesOfMetrics :: "metric list \<Rightarrow> feature_gates \<Rightarrow> feature_gates" where
  "gatesOfMetrics [] f = f"
| "gatesOfMetrics (mt # mts) f =
     (case getNameAndStage (metricLabels mt) of
        Inl err \<Rightarrow> gatesOfMetrics mts f
      | Inr (name, stage) \<Rightarrow> gatesOfMetrics mts (putGate name stage (gaugeValue mt = 1) f))"

fun gatesOfFamilies :: "(string \<times> metric list) list \<Rightarrow> feature_gates \<Rightarrow> feature_gates" where
  "gatesOfFamilies [] f = f"
| "gatesOfFamilies ((name, family) # rest) f =
     (if name \<noteq> k8sFeatureEnabledMetricName then gatesOfFamilies rest f
      else gatesOfFamilies rest (gatesOfMetrics family f))"

text \<open>The REST client gives the stream of an absolute path.\<close>

type_synonym rest_client = "string \<Rightarrow> go_error + string"

abbreviation metricsEndpoint :: string where "metricsEndpoint \<equiv> ''/metrics''"

record fg_validator =
  fgClient :: rest_client

definition NewMetricsFeatureGateValidator :: "rest_client \<Rightarrow> fg_validator" where
  "NewMetricsFeatureGateValidator restClient = \<lparr>fgClient = restClient\<rparr>"

definition GetFeatureGates ::
  "(string list \<Rightarrow> string list) \<Rightarrow> (string \<Rightarrow> go_error + (string, metric list) alist) \<Rightarrow> fg_validator \<Rightarrow>
   go_error + feature_gates" where
  "GetFeatureGates ord textToMetricFamilies m =
     (case fgClient m metricsEndpoint of
        Inl err \<Rightarrow> Inl err
      | Inr reader \<Rightarrow>
          (case textToMetricFamilies reader of
             Inl err \<Rightarrow> Inl err
           | Inr metricFamilies \<Rightarrow> Inr (gatesOfFamilies (alist_range ord metricFamilies) DAList.empty)))"

section \<open>Information about the cluster\<close>

text \<open>
  The client set of the Kubernetes library. Its discovery call is a function of the state of the outside
  world. The result of \<^verbatim>\<open>kubernetes.NewForConfig\<close> is an argument of the constructors.
\<close>

record ('w, 'v) clientset =
  ServerVersion :: "'w \<Rightarrow> (go_error + 'v) \<times> 'w"
  RESTClient :: rest_client

record ('w, 'v) cluster_info =
  infoClient :: "('w, 'v) clientset"
  clusterVersion :: "'v option"
  fgValidator :: fg_validator

definition NewMetricsFeatureGateValidatorFromConfig :: "go_error + ('w, 'v) clientset \<Rightarrow> go_error + fg_validator" where
  "NewMetricsFeatureGateValidatorFromConfig newForConfig =
     (case newForConfig of
        Inl err \<Rightarrow> Inl err
      | Inr client \<Rightarrow> Inr (NewMetricsFeatureGateValidator (RESTClient client)))"

definition NewClusterInfo :: "('w, 'v) clientset \<Rightarrow> fg_validator \<Rightarrow> ('w, 'v) cluster_info" where
  "NewClusterInfo client validator = \<lparr>infoClient = client, clusterVersion = None, fgValidator = validator\<rparr>"

definition NewClusterInfoFromConfig :: "go_error + ('w, 'v) clientset \<Rightarrow> go_error + ('w, 'v) cluster_info" where
  "NewClusterInfoFromConfig newForConfig =
     (case newForConfig of
        Inl err \<Rightarrow> Inl err
      | Inr client \<Rightarrow> Inr (NewClusterInfo client (NewMetricsFeatureGateValidator (RESTClient client))))"

definition GetClusterVersion ::
  "('w, 'v) cluster_info \<Rightarrow> 'w \<Rightarrow> (go_error + 'v) \<times> ('w, 'v) cluster_info \<times> 'w" where
  "GetClusterVersion c w =
     (case clusterVersion c of
        Some v \<Rightarrow> (Inr v, c, w)
      | None \<Rightarrow>
          (case ServerVersion (infoClient c) w of
             (Inl err, w') \<Rightarrow> (Inl err, c, w')
           | (Inr v, w') \<Rightarrow> (Inr v, c\<lparr>clusterVersion := Some v\<rparr>, w')))"

definition clusterFeatureGates ::
  "(string list \<Rightarrow> string list) \<Rightarrow> (string \<Rightarrow> go_error + (string, metric list) alist) \<Rightarrow> ('w, 'v) cluster_info \<Rightarrow>
   go_error + feature_gates" where
  "clusterFeatureGates ord textToMetricFamilies c = GetFeatureGates ord textToMetricFamilies (fgValidator c)"

section \<open>What the gates say\<close>

definition gate :: "feature_gates \<Rightarrow> string \<Rightarrow> string \<Rightarrow> bool option" where
  "gate f name stage = Option.bind (DAList.lookup f name) (\<lambda>s. DAList.lookup s stage)"

text \<open>The last metric of a name and a stage decides.\<close>

definition last_metric :: "metric list \<Rightarrow> string \<Rightarrow> string \<Rightarrow> bool option" where
  "last_metric mts name stage =
     map_option (\<lambda>mt. gaugeValue mt = 1) (List.find (\<lambda>mt. getNameAndStage (metricLabels mt) = Inr (name, stage)) (rev mts))"

lemma gate_put: "gate (putGate n s b f) name stage = (if n = name \<and> s = stage then Some b else gate f name stage)"
  by (auto simp: gate_def putGate_def Let_def lookup_update split: option.splits)

lemma gate_empty: "gate DAList.empty name stage = None"
  by (simp add: gate_def)

lemma find_append: "List.find P (xs @ ys) = (case List.find P xs of None \<Rightarrow> List.find P ys | Some x \<Rightarrow> Some x)"
  by (induction xs) simp_all

lemma gatesOfMetrics_gate:
  "gate (gatesOfMetrics mts f) name stage =
     (case last_metric mts name stage of Some b \<Rightarrow> Some b | None \<Rightarrow> gate f name stage)"
proof (induction mts arbitrary: f)
  case (Cons mt mts)
  show ?case
  proof (cases "getNameAndStage (metricLabels mt)")
    case (Inl e)
    with Cons show ?thesis by (simp add: last_metric_def find_append split: option.splits)
  next
    case (Inr ns)
    obtain n s where "ns = (n, s)" by fastforce
    with Inr Cons show ?thesis
      by (auto simp: last_metric_def find_append gate_put split: option.splits)
  qed
qed (simp add: last_metric_def)

lemma gatesOfFamilies_skip:
  "k8sFeatureEnabledMetricName \<notin> fst ` set fs \<Longrightarrow> gatesOfFamilies fs f = f"
  by (induction fs) auto

lemma gatesOfFamilies_one:
  assumes "distinct (map fst fs)"
  shows "gatesOfFamilies fs f =
     (case map_of fs k8sFeatureEnabledMetricName of None \<Rightarrow> f | Some mts \<Rightarrow> gatesOfMetrics mts f)"
  using assms
proof (induction fs)
  case (Cons x fs)
  obtain n mts where x: "x = (n, mts)" by fastforce
  show ?case
  proof (cases "n = k8sFeatureEnabledMetricName")
    case True
    with Cons.prems x have "gatesOfFamilies fs (gatesOfMetrics mts f) = gatesOfMetrics mts f"
      by (intro gatesOfFamilies_skip) auto
    with True x show ?thesis by simp
  qed (use Cons x in simp)
qed simp

lemma anyStage_iff: "anyStage xs \<longleftrightarrow> (\<exists>x \<in> set xs. snd x)"
  by (induction xs rule: anyStage.induct) auto

lemma IsEnabledAnyStage_iff:
  assumes "go_order ord"
  shows "IsEnabledAnyStage ord f name \<longleftrightarrow> (\<exists>stage. gate f name stage = Some True)"
proof (cases "DAList.lookup f name")
  case (Some stages)
  have "(\<exists>x \<in> set (alist_range ord stages). snd x) \<longleftrightarrow> (\<exists>s. (s, True) \<in> set (alist_range ord stages))" by force
  with Some show ?thesis by (simp add: IsEnabledAnyStage_def gate_def anyStage_iff alist_range_mem [OF assms])
qed (simp add: IsEnabledAnyStage_def gate_def)

lemma firstStage_unique:
  assumes "inj_on toUpper (fst ` set xs)" and "distinct (map fst xs)"
  shows "firstStage toUpper stage xs \<longleftrightarrow> (\<exists>s. toUpper s = stage \<and> (s, True) \<in> set xs)"
  using assms
proof (induction xs)
  case (Cons x xs)
  obtain s b where x: "x = (s, b)" by fastforce
  have IH: "firstStage toUpper stage xs \<longleftrightarrow> (\<exists>s. toUpper s = stage \<and> (s, True) \<in> set xs)"
    using Cons by simp
  show ?case
  proof (cases "toUpper s = stage")
    case True
    have "False" if "(s', True) \<in> set xs" "toUpper s' = stage" for s'
    proof -
      have m: "s' \<in> fst ` set xs" using that(1) by (metis fst_conv image_eqI)
      with inj_onD [OF Cons.prems(1), of s' s] True that(2) have "s' = s" by (simp add: x)
      with m Cons.prems(2) show False by (simp add: x)
    qed
    with True show ?thesis by (auto simp: x)
  next
    case False
    with IH show ?thesis by (auto simp: x)
  qed
qed simp

text \<open>Where no two stages of a feature differ in case only, the order of the iteration plays no role.\<close>

lemma IsEnabled_iff:
  assumes "go_order ord" and "DAList.lookup f name = Some stages"
    and "inj_on toUpper (fst ` set (alist_range ord stages))"
  shows "IsEnabled toUpper ord f name stage \<longleftrightarrow> (\<exists>s. toUpper s = stage \<and> gate f name s = Some True)"
  using firstStage_unique [OF assms(3) distinct_fst_alist_range [OF assms(1)], of stage]
  by (simp add: IsEnabled_def assms(2) gate_def alist_range_mem [OF assms(1)])

section \<open>Properties\<close>

text \<open>
  C38. The gates that the metrics endpoint reports: after a successful read, a feature is enabled at a
  stage exactly when the last metric of the family with that name and stage label has the value 1,
  independently of the order of the map iterations; metrics without both labels do not count, and a
  feature counts as enabled when it is enabled at one stage at least.
\<close>

theorem feature_gates_read:
  assumes "go_order ord" and "client metricsEndpoint = Inr text" and "parse text = Inr families"
  shows "\<exists>f. GetFeatureGates ord parse (NewMetricsFeatureGateValidator client) = Inr f \<and>
    (\<forall>name stage. gate f name stage = (case DAList.lookup families k8sFeatureEnabledMetricName of
        None \<Rightarrow> None | Some mts \<Rightarrow> last_metric mts name stage)) \<and>
    (\<forall>name. IsEnabledAnyStage ord f name \<longleftrightarrow> (\<exists>stage. gate f name stage = Some True))"
proof -
  let ?fs = "alist_range ord families"
  have m: "map_of ?fs k8sFeatureEnabledMetricName = DAList.lookup families k8sFeatureEnabledMetricName"
    using map_of_map_range [OF assms(1), of "Some families"] by (simp add: map_range_def map_get_def)
  have "gate (gatesOfFamilies ?fs DAList.empty) name stage =
      (case DAList.lookup families k8sFeatureEnabledMetricName of None \<Rightarrow> None | Some mts \<Rightarrow> last_metric mts name stage)"
    for name stage
    unfolding gatesOfFamilies_one [OF distinct_fst_alist_range [OF assms(1)]] m
    by (cases "DAList.lookup families k8sFeatureEnabledMetricName")
       (auto simp: gatesOfMetrics_gate gate_empty split: option.splits)
  with assms IsEnabledAnyStage_iff [OF assms(1)] show ?thesis by (simp add: GetFeatureGates_def NewMetricsFeatureGateValidator_def)
qed

theorem feature_gates_read_witness:
  "\<exists>f. GetFeatureGates (\<lambda>ks. ks)
       (\<lambda>_. Inr (DAList.update k8sFeatureEnabledMetricName
          [\<lparr>metricLabels = [\<lparr>lpName = Some ''name'', lpValue = Some ''A''\<rparr>, \<lparr>lpName = Some ''stage'', lpValue = Some ''BETA''\<rparr>],
             metricGauge = Some 1\<rparr>] DAList.empty)) (NewMetricsFeatureGateValidator (\<lambda>_. Inr ''text'')) = Inr f \<and>
     IsEnabledAnyStage (\<lambda>ks. ks) f ''A''"
proof -
  let ?mts = "[\<lparr>metricLabels = [\<lparr>lpName = Some ''name'', lpValue = Some ''A''\<rparr>, \<lparr>lpName = Some ''stage'', lpValue = Some ''BETA''\<rparr>],
             metricGauge = Some 1\<rparr>]"
  have l: "last_metric ?mts ''A'' ''BETA'' = Some True"
    by (simp add: last_metric_def getNameAndStage_def lpGetName_def lpGetValue_def gaugeValue_def)
  from feature_gates_read [OF go_order_id, of "\<lambda>_. Inr ''text''" "''text''"
      "\<lambda>_. Inr (DAList.update k8sFeatureEnabledMetricName ?mts DAList.empty)"]
  obtain f where f: "GetFeatureGates (\<lambda>ks. ks)
      (\<lambda>_. Inr (DAList.update k8sFeatureEnabledMetricName ?mts DAList.empty))
      (NewMetricsFeatureGateValidator (\<lambda>_. Inr ''text'')) = Inr f"
    "gate f ''A'' ''BETA'' = Some True" "IsEnabledAnyStage (\<lambda>ks. ks) f ''A'' \<longleftrightarrow> (\<exists>stage. gate f ''A'' stage = Some True)"
    using l by (auto simp: lookup_update)
  then show ?thesis by blast
qed

text \<open>
  The version is asked for once: later calls give the same version without reaching the API server. Both
  ways to the feature gates ask the same endpoint.
\<close>

lemma cluster_version_cached:
  "GetClusterVersion c w = (Inr v, c', w') \<Longrightarrow> GetClusterVersion c' w2 = (Inr v, c', w2)"
  by (auto simp: GetClusterVersion_def split: option.splits prod.splits sum.splits)

lemma cluster_gates:
  "map_sum id (clusterFeatureGates ord parse) (NewClusterInfoFromConfig cs) =
   map_sum id (GetFeatureGates ord parse) (NewMetricsFeatureGateValidatorFromConfig cs)"
  by (simp add: NewClusterInfoFromConfig_def NewMetricsFeatureGateValidatorFromConfig_def NewClusterInfo_def
      clusterFeatureGates_def split: sum.split)

end
