(* ===== verification/Program_Start.thy ===== *)
theory Program_Start
  imports Config Feature_Gates Pod_Webhook Revert_Pipeline
begin

text \<open>
  \<^verbatim>\<open>cmd/main.go\<close>, with \<^verbatim>\<open>util/cert.go\<close>, \<^verbatim>\<open>webhook/webhooks.go\<close> and the registration of the
  API types in \<^verbatim>\<open>api/v1alpha1\<close>: what the program decides when it starts and in which order. The calls of the libraries that build clients, servers and controllers
  are parameters: each gets the options that the program passes and may answer with an error.
  \<^verbatim>\<open>os.Exit(1)\<close> is the value \<open>None\<close>. \<^verbatim>\<open>main\<close> ends with the call of \<^verbatim>\<open>mgr.Start\<close>;
  \<^verbatim>\<open>setupControllers\<close> is the goroutine that runs once the certificates are there.
\<close>

abbreviation InPlacePodVerticalScalingFeatureGateName :: string where
  "InPlacePodVerticalScalingFeatureGateName \<equiv> ''InPlacePodVerticalScaling''"
abbreviation PodLevelResourcesFeatureGateName :: string where
  "PodLevelResourcesFeatureGateName \<equiv> ''PodLevelResources''"

section \<open>The scheme\<close>

text \<open>
  A scheme knows kinds of a group and version. The builder of \<^verbatim>\<open>controller-runtime\<close> and the types of
  client-go are parameters: registered kinds are added to a scheme later, together with those that were
  registered before.
\<close>

type_synonym group_version = "string \<times> string"
type_synonym scheme = "(group_version \<times> string) list"

record 'b scheme_api =
  newBuilder :: "group_version \<Rightarrow> 'b"
  builderRegister :: "string list \<Rightarrow> 'b \<Rightarrow> 'b"
  builderAddToScheme :: "'b \<Rightarrow> scheme \<Rightarrow> go_error + scheme"
  clientgoAddToScheme :: "scheme \<Rightarrow> go_error + scheme"
  builderGroupVersion :: "'b \<Rightarrow> group_version"

definition GroupVersion :: group_version where
  "GroupVersion = (''autoscaling.x-k8s.io'', ''v1alpha1'')"

definition initGlobalTypes :: "'b scheme_api \<Rightarrow> 'b \<Rightarrow> 'b" where
  "initGlobalTypes B = builderRegister B [''GlobalStartupCPUBoost'', ''GlobalStartupCPUBoostList'']"

definition initTypes :: "'b scheme_api \<Rightarrow> 'b \<Rightarrow> 'b" where
  "initTypes B = builderRegister B [''StartupCPUBoost'', ''StartupCPUBoostList'']"

text \<open>The files of a package are initialised in the order of their names, after its variables.\<close>

definition SchemeBuilder :: "'b scheme_api \<Rightarrow> 'b" where
  "SchemeBuilder B = initTypes B (initGlobalTypes B (newBuilder B GroupVersion))"

definition init_scheme :: "'b scheme_api \<Rightarrow> scheme option" where
  "init_scheme B =
     (case clientgoAddToScheme B [] of
        Inl err \<Rightarrow> None
      | Inr s \<Rightarrow> (case builderAddToScheme B (SchemeBuilder B) s of Inl err \<Rightarrow> None | Inr s' \<Rightarrow> Some s'))"

locale scheme_laws =
  fixes B :: "'b scheme_api"
  assumes new_version: "builderGroupVersion B (newBuilder B gv) = gv"
    and register_version: "builderGroupVersion B (builderRegister B ks b) = builderGroupVersion B b"
    and new_adds: "builderAddToScheme B (newBuilder B gv) s = Inr s' \<Longrightarrow> set s' = set s"
    and register_adds: "builderAddToScheme B (builderRegister B ks b) s = Inr s' \<Longrightarrow>
      \<exists>s1. builderAddToScheme B b s = Inr s1 \<and> set s' = set s1 \<union> Pair (builderGroupVersion B b) ` set ks"
begin

lemma scheme_kinds:
  assumes "init_scheme B = Some s"
  shows "\<exists>s0. clientgoAddToScheme B [] = Inr s0 \<and> set s = set s0 \<union> Pair GroupVersion `
    {''StartupCPUBoost'', ''StartupCPUBoostList'', ''GlobalStartupCPUBoost'', ''GlobalStartupCPUBoostList''}"
proof -
  obtain s0 where s0: "clientgoAddToScheme B [] = Inr s0" "builderAddToScheme B (SchemeBuilder B) s0 = Inr s"
    using assms by (auto simp: init_scheme_def split: sum.splits)
  from register_adds [OF s0(2) [unfolded SchemeBuilder_def initTypes_def]]
  obtain s1 where s1: "builderAddToScheme B (initGlobalTypes B (newBuilder B GroupVersion)) s0 = Inr s1"
    "set s = set s1 \<union> Pair GroupVersion ` {''StartupCPUBoost'', ''StartupCPUBoostList''}"
    by (auto simp: initGlobalTypes_def register_version new_version)
  from register_adds [OF s1(1) [unfolded initGlobalTypes_def]]
  obtain s2 where "builderAddToScheme B (newBuilder B GroupVersion) s0 = Inr s2"
    "set s1 = set s2 \<union> Pair GroupVersion ` {''GlobalStartupCPUBoost'', ''GlobalStartupCPUBoostList''}"
    by (auto simp: new_version)
  with s1(2) s0(1) new_adds show ?thesis by auto
qed

end

text \<open>A builder that keeps what was registered.\<close>

definition list_scheme :: "(group_version \<times> string list) scheme_api" where
  "list_scheme = \<lparr>newBuilder = (\<lambda>gv. (gv, [])), builderRegister = (\<lambda>ks (gv, ks'). (gv, ks' @ ks)),
     builderAddToScheme = (\<lambda>(gv, ks) s. Inr (s @ map (Pair gv) ks)),
     clientgoAddToScheme = (\<lambda>s. Inr (s @ [(('''', ''v1''), ''Pod'')])), builderGroupVersion = fst\<rparr>"

interpretation lsch: scheme_laws list_scheme
  by unfold_locales (auto simp: list_scheme_def)

section \<open>The options that the libraries get\<close>

text \<open>A TLS option is a function on the list of protocols that a server offers.\<close>

type_synonym tls_option = "string list \<Rightarrow> string list"

record webhook_server =
  serverTLSOpts :: "tls_option list"
  serverPort :: nat

record metrics_server =
  BindAddress :: string
  SecureServing :: bool
  metricsTLSOpts :: "tls_option list"

record manager_options =
  optScheme :: scheme
  optMetrics :: metrics_server
  optWebhookServer :: webhook_server
  optHealthProbeBindAddress :: string
  optLeaderElection :: bool
  optLeaderElectionID :: string

datatype webhook_type = Mutating | Validating

record cert_rotator =
  SecretKey :: "string \<times> string"
  CertDir :: string
  CAName :: string
  CAOrganization :: string
  DNSName :: string
  rotatorWebhooks :: "(webhook_type \<times> string) list"
  RequireLeaderElection :: bool

section \<open>The libraries and the cluster\<close>

record 'w cluster_answers =
  restConfigError :: "go_error option"
  mustRegister :: "collector list \<Rightarrow> unit option"
  newForConfig :: "go_error + ('w, string) clientset"
  textToMetricFamilies :: "string \<Rightarrow> go_error + (string, metric list) alist"
  compareKubeAware :: "string \<Rightarrow> string \<Rightarrow> int"
  newCtrlManager :: "manager_options \<Rightarrow> go_error option"
  addRotator :: "cert_rotator \<Rightarrow> go_error option"
  addHealthzCheck :: "go_error option"
  addReadyzCheck :: "go_error option"
  addRunnable :: "go_error option"
  completeBoostWebhook :: "go_error option"
  completeGlobalWebhook :: "go_error option"
  labelSelectorPredicate :: "label_selector \<Rightarrow> go_error option"
  completeBoostController :: "go_error option"
  completeGlobalController :: "string \<Rightarrow> string list \<Rightarrow> go_error option"

text \<open>
  The program at the call of \<^verbatim>\<open>mgr.Start\<close>: what it was configured with, whether the boost manager
  runs along, and the arguments of the goroutine that sets the controllers up.
\<close>

record program =
  programConfig :: config
  managerOptions :: manager_options
  boostManagerAdded :: bool
  managerTick :: int64
  programPodLevel :: bool
  programVersion :: string

record controllers =
  podHandler :: pod_handler
  boostReconciler :: reconciler

section \<open>The start\<close>

definition validateRequiredFeatureGates :: "(string list \<Rightarrow> string list) \<Rightarrow> feature_gates \<Rightarrow> unit option" where
  "validateRequiredFeatureGates ord featureGates =
     (if \<not> IsEnabledAnyStage ord featureGates InPlacePodVerticalScalingFeatureGateName then None else Some ())"

definition checkFeatureGates ::
  "(string list \<Rightarrow> string list) \<Rightarrow> config \<Rightarrow> go_error + feature_gates \<Rightarrow> bool option" where
  "checkFeatureGates ord cfg gates =
     (if ValidateFeatureEnabled cfg then
        (case gates of
           Inr featureGates \<Rightarrow> do {
             _ \<leftarrow> validateRequiredFeatureGates ord featureGates;
             Some (IsEnabledAnyStage ord featureGates PodLevelResourcesFeatureGateName)
           }
         | Inl err \<Rightarrow> Some False)
      else Some False)"

text \<open>The servers speak HTTP/1.1 only, unless HTTP/2 is switched on.\<close>

definition tlsOpts :: "config \<Rightarrow> tls_option list" where
  "tlsOpts cfg = (if \<not> HTTP2 cfg then [\<lambda>nextProtos. nextProtos @ [''http/1.1'']] else [])"

definition newManagerOptions :: "scheme \<Rightarrow> config \<Rightarrow> manager_options" where
  "newManagerOptions scheme cfg =
     \<lparr>optScheme = scheme,
      optMetrics = \<lparr>BindAddress = MetricsProbeBindAddr cfg, SecureServing = SecureMetrics cfg,
                    metricsTLSOpts = tlsOpts cfg\<rparr>,
      optWebhookServer = \<lparr>serverTLSOpts = tlsOpts cfg, serverPort = 9443\<rparr>,
      optHealthProbeBindAddress = HealthProbeBindAddr cfg,
      optLeaderElection = LeaderElection cfg,
      optLeaderElectionID = ''8fd077db.x-k8s.io''\<rparr>"

definition ManageCerts :: "'w cluster_answers \<Rightarrow> string \<Rightarrow> go_error option" where
  "ManageCerts A namespace =
     (let dnsName = ''kube-startup-cpu-boost-webhook-service'' @ ''.'' @ namespace @ ''.svc'' in
      addRotator A
        \<lparr>SecretKey = (namespace, ''kube-startup-cpu-boost-webhook-secret''),
         CertDir = ''/tmp/k8s-webhook-server/serving-certs'',
         CAName = ''kube-startup-cpu-boost-ca'',
         CAOrganization = ''kube-startup-cpu-boost'',
         DNSName = dnsName,
         rotatorWebhooks = [(Mutating, ''kube-startup-cpu-boost-mutating-webhook-configuration''),
                            (Validating, ''kube-startup-cpu-boost-validating-webhook-configuration'')],
         RequireLeaderElection = False\<rparr>)"

text \<open>A step of the start that exits the program on an error.\<close>

definition exit_on :: "go_error option \<Rightarrow> unit option" where
  "exit_on err = (case err of None \<Rightarrow> Some () | Some e \<Rightarrow> None)"

definition getFeatureGates ::
  "(string list \<Rightarrow> string list) \<Rightarrow> (string \<Rightarrow> go_error + (string, metric list) alist) \<Rightarrow> ('w, 'v) cluster_info \<Rightarrow>
   go_error + feature_gates" where
  "getFeatureGates ord parse clusterInfo = clusterFeatureGates ord parse clusterInfo"

text \<open>\<^verbatim>\<open>setupReadyzCheck\<close> exits on an error and returns none.\<close>

definition setupReadyzCheck :: "'w cluster_answers \<Rightarrow> go_error option option" where
  "setupReadyzCheck A = do {
     _ \<leftarrow> exit_on (addReadyzCheck A);
     Some None
   }"

text \<open>The ticker of \<^verbatim>\<open>NewManager\<close> has a fixed period, in nanoseconds.\<close>

definition DefaultManagerCheckInterval :: int64 where
  "DefaultManagerCheckInterval = 5 * 1000000000"

text \<open>
  \<^verbatim>\<open>main\<close>. An error of \<^verbatim>\<open>mgr.Add\<close> is only logged: the program goes on without the check loop.
\<close>

definition main ::
  "lookup_env \<Rightarrow> (string list \<Rightarrow> string list) \<Rightarrow> 'w cluster_answers \<Rightarrow> scheme \<Rightarrow> 'w \<Rightarrow> program option" where
  "main lookupEnv ord A scheme w = do {
     let (cfg, err) = LoadConfig lookupEnv;
     _ \<leftarrow> exit_on err;
     _ \<leftarrow> registerMetrics (mustRegister A);
     _ \<leftarrow> exit_on (restConfigError A);
     clusterInfo \<leftarrow> (case NewClusterInfoFromConfig (newForConfig A) of Inl err \<Rightarrow> None | Inr c \<Rightarrow> Some c);
     (versionInfo, clusterInfo) \<leftarrow> (case GetClusterVersion clusterInfo w of
                       (Inl err, _) \<Rightarrow> None
                     | (Inr version, c, _) \<Rightarrow> Some (version, c));
     podLevelResourcesEnabled \<leftarrow>
       checkFeatureGates ord cfg (getFeatureGates ord (textToMetricFamilies A) clusterInfo);
     let options = newManagerOptions scheme cfg;
     _ \<leftarrow> exit_on (newCtrlManager A options);
     _ \<leftarrow> exit_on (ManageCerts A (Namespace cfg));
     _ \<leftarrow> exit_on (addHealthzCheck A);
     err \<leftarrow> setupReadyzCheck A;
     _ \<leftarrow> exit_on err;
     Some \<lparr>programConfig = cfg, managerOptions = options, boostManagerAdded = (addRunnable A = None),
           managerTick = DefaultManagerCheckInterval,
           programPodLevel = podLevelResourcesEnabled, programVersion = versionInfo\<rparr>
   }"

text \<open>\<^verbatim>\<open>webhook.Setup\<close> returns the name of the webhook that failed.\<close>

definition Setup :: "'w cluster_answers \<Rightarrow> string \<times> go_error option" where
  "Setup A =
     (case completeBoostWebhook A of
        Some err \<Rightarrow> (''StartupCPUBoost'', Some err)
      | None \<Rightarrow>
          (case completeGlobalWebhook A of
             Some err \<Rightarrow> (''GlobalStartupCPUBoost'', Some err)
           | None \<Rightarrow> ('''', None)))"

definition NewPodCPUBoostWebHook :: "bool \<Rightarrow> bool \<Rightarrow> pod_handler" where
  "NewPodCPUBoostWebHook limits podLevel = \<lparr>removeLimits = limits, podLevelResourcesEnabled = podLevel\<rparr>"

definition SetupWithManager :: "'w cluster_answers \<Rightarrow> string \<Rightarrow> reconciler \<Rightarrow> go_error option \<times> reconciler" where
  "SetupWithManager A version r =
     (case labelSelectorPredicate A GetPodLabelSelector of
        Some err \<Rightarrow> (Some err, r)
      | None \<Rightarrow> (completeBoostController A,
                 r\<lparr>LegacyRevertMode := shouldUseLegacyRevertMode (compareKubeAware A) version\<rparr>))"

text \<open>The global controller watches namespaces and boosts besides its own objects.\<close>

definition globalSetupWithManager :: "'w cluster_answers \<Rightarrow> go_error option" where
  "globalSetupWithManager A = completeGlobalController A ''GlobalStartupCPUBoost'' [''Namespace'', ''StartupCPUBoost'']"

definition setupControllers ::
  "'w cluster_answers \<Rightarrow> config \<Rightarrow> bool \<Rightarrow> string \<Rightarrow> ('q, 'v) manager \<Rightarrow> (controllers \<times> ('q, 'v) manager) option" where
  "setupControllers A cfg podLevel version boostMgr = do {
     _ \<leftarrow> exit_on (snd (Setup A));
     let cpuBoostWebHook = NewPodCPUBoostWebHook (RemoveLimits cfg) podLevel;
     let boostCtrl = \<lparr>LegacyRevertMode = False\<rparr>;
     let boostMgr = SetStartupCPUBoostReconciler boostMgr;
     let (err, boostCtrl) = SetupWithManager A version boostCtrl;
     _ \<leftarrow> exit_on err;
     _ \<leftarrow> exit_on (globalSetupWithManager A);
     Some (\<lparr>podHandler = cpuBoostWebHook, boostReconciler = boostCtrl\<rparr>, boostMgr)
   }"

text \<open>The readiness check: the controllers are set up and the check loop of the manager is running.\<close>

definition readyz :: "bool \<Rightarrow> ('q, 'w) manager \<Rightarrow> go_error option" where
  "readyz controllersReady m =
     (if \<not> controllersReady then Some (Errorf ''controllers are not ready'' [])
      else if \<not> IsRunning m then Some (Errorf ''boost manager is not running'' [])
      else None)"

section \<open>What the start guarantees\<close>

lemma exit_on_Some [simp]: "exit_on err = Some u \<longleftrightarrow> err = None"
  by (cases err) (simp_all add: exit_on_def)

lemma main_SomeD:
  assumes "main lookupEnv ord A scheme w = Some prog" and "newForConfig A = Inr cs"
  shows "snd (LoadConfig lookupEnv) = None" and "programConfig prog = fst (LoadConfig lookupEnv)"
    and "\<exists>w'. ServerVersion cs w = (Inr (programVersion prog), w')"
    and "checkFeatureGates ord (fst (LoadConfig lookupEnv))
           (GetFeatureGates ord (textToMetricFamilies A) (NewMetricsFeatureGateValidator (RESTClient cs))) =
         Some (programPodLevel prog)"
    and "managerOptions prog = newManagerOptions scheme (fst (LoadConfig lookupEnv))"
    and "ManageCerts A (Namespace (fst (LoadConfig lookupEnv))) = None"
    and "boostManagerAdded prog = (addRunnable A = None)" and "managerTick prog = DefaultManagerCheckInterval"
    and "mustRegister A boostCollectors = Some ()"
  using assms
  by (auto simp: main_def GetClusterVersion_def Let_def NewClusterInfoFromConfig_def NewClusterInfo_def getFeatureGates_def
      clusterFeatureGates_def registerMetrics_def split: prod.splits option.splits sum.splits bind_splits)

lemma main_connects: "main lookupEnv ord A scheme w = Some prog \<Longrightarrow> \<exists>cs. newForConfig A = Inr cs"
  by (cases "newForConfig A")
     (auto simp: main_def NewClusterInfoFromConfig_def Let_def split: prod.splits bind_splits)

lemma setupControllers_SomeD:
  assumes "setupControllers A cfg podLevel version m = Some (c, m')"
  shows "podHandler c = \<lparr>removeLimits = RemoveLimits cfg, podLevelResourcesEnabled = podLevel\<rparr>"
    and "LegacyRevertMode (boostReconciler c) = (compareKubeAware A WantedServerVersionForNewRevert version < 0)"
    and "m' = SetStartupCPUBoostReconciler m"
  using assms
  by (auto simp: setupControllers_def SetupWithManager_def NewPodCPUBoostWebHook_def shouldUseLegacyRevertMode_def
      Let_def split: prod.splits option.splits bind_splits)


definition sample_clients :: "(unit, string) clientset" where
  "sample_clients = \<lparr>ServerVersion = (\<lambda>w. (Inr ''v1.33.0'', w)), RESTClient = (\<lambda>_. Inr ''metrics'')\<rparr>"

definition sample_answers :: "unit cluster_answers" where
  "sample_answers = \<lparr>restConfigError = None, mustRegister = (\<lambda>_. Some ()), newForConfig = Inr sample_clients,
     textToMetricFamilies = (\<lambda>_. Inr (DAList.update ''kubernetes_feature_enabled''
       [\<lparr>metricLabels = [\<lparr>lpName = Some ''name'', lpValue = Some ''InPlacePodVerticalScaling''\<rparr>,
                          \<lparr>lpName = Some ''stage'', lpValue = Some ''BETA''\<rparr>], metricGauge = Some 1\<rparr>] DAList.empty)),
     compareKubeAware = (\<lambda>_ _. 1),
     newCtrlManager = (\<lambda>_. None), addRotator = (\<lambda>_. None), addHealthzCheck = None, addReadyzCheck = None,
     addRunnable = None, completeBoostWebhook = None, completeGlobalWebhook = None,
     labelSelectorPredicate = (\<lambda>_. None), completeBoostController = None, completeGlobalController = (\<lambda>_ _. None)\<rparr>"

definition sample_scheme :: scheme where
  "sample_scheme = (('''', ''v1''), ''Pod'') # map (Pair GroupVersion)
     [''GlobalStartupCPUBoost'', ''GlobalStartupCPUBoostList'', ''StartupCPUBoost'', ''StartupCPUBoostList'']"

lemma sample_init: "init_scheme list_scheme = Some sample_scheme"
  by (simp add: init_scheme_def list_scheme_def SchemeBuilder_def initTypes_def initGlobalTypes_def sample_scheme_def)

definition sample_program :: program where
  "sample_program = \<lparr>programConfig = LoadDefaults, managerOptions = newManagerOptions sample_scheme LoadDefaults,
     boostManagerAdded = True, managerTick = DefaultManagerCheckInterval, programPodLevel = False, programVersion = ''v1.33.0''\<rparr>"

lemma sample_gates:
  "checkFeatureGates (\<lambda>ks. ks) LoadDefaults
     (GetFeatureGates (\<lambda>ks. ks) (textToMetricFamilies sample_answers)
        (NewMetricsFeatureGateValidator (RESTClient sample_clients))) = Some False"
  "LoadConfig (\<lambda>_. None) = (LoadDefaults, None)"
  by code_simp+

lemma sample_start: "main (\<lambda>_. None) (\<lambda>ks. ks) sample_answers sample_scheme () = Some sample_program"
proof -
  have n: "newForConfig sample_answers = Inr sample_clients" by (simp add: sample_answers_def)
  have v: "ServerVersion sample_clients () = (Inr ''v1.33.0'', ())" by (simp add: sample_clients_def)
  have e: "exit_on (restConfigError sample_answers) = Some ()" "exit_on (newCtrlManager sample_answers opts) = Some ()"
    "exit_on (ManageCerts sample_answers ns) = Some ()" "exit_on (addHealthzCheck sample_answers) = Some ()"
    "exit_on None = Some ()" "setupReadyzCheck sample_answers = Some None" "addRunnable sample_answers = None"
    "registerMetrics (mustRegister sample_answers) = Some ()" for opts ns
    by (simp_all add: sample_answers_def exit_on_def ManageCerts_def setupReadyzCheck_def registerMetrics_def)
  show ?thesis
    unfolding main_def sample_gates(2) Let_def prod.case
    by (simp add: e n v NewClusterInfoFromConfig_def NewClusterInfo_def GetClusterVersion_def getFeatureGates_def
        clusterFeatureGates_def sample_gates(1) sample_program_def)
qed

lemma sample_controllers:
  "setupControllers sample_answers (programConfig sample_program) (programPodLevel sample_program)
     (programVersion sample_program) (NewManager True sample_heap) =
   Some (\<lparr>podHandler = \<lparr>removeLimits = True, podLevelResourcesEnabled = False\<rparr>,
          boostReconciler = \<lparr>LegacyRevertMode = False\<rparr>\<rparr>, SetStartupCPUBoostReconciler (NewManager True sample_heap))"
  by (simp add: setupControllers_def Setup_def SetupWithManager_def NewPodCPUBoostWebHook_def sample_program_def
      sample_answers_def LoadDefaults_def exit_on_def globalSetupWithManager_def shouldUseLegacyRevertMode_def)


end
