(* ===== verification/Spec2Isabelle.thy ===== *)
theory Spec2Isabelle
  imports Pod_Safety Deep_Copy_Correct Validation_Webhooks Global_Boost_Controller Boost_Properties Program_Start
begin

text \<open>
  A verification library for the startup CPU boost operator: a Kubernetes operator that raises the CPU
  requests and limits of new pods and takes the increase back when a duration policy ends.

  \<^bold>\<open>The program.\<close> \<^verbatim>\<open>StartupCPUBoost\<close> objects say which pods are boosted, by how much and for how long. The
  admission webhook (\<^verbatim>\<open>internal/webhook/podcpuboost_webhook.go\<close>) asks the boost manager for a boost that
  matches a new pod, raises the resources of its containers and records the original ones in an annotation.
  The manager (\<^verbatim>\<open>internal/boost/manager.go\<close>) holds the registered boosts, those with a fixed duration and the
  pods that no boost matches; the boosts (\<^verbatim>\<open>internal/boost/startupcpuboost.go\<close>) hold the pods they track. The
  controller (\<^verbatim>\<open>internal/controller/boost_controller.go\<close>, \<^verbatim>\<open>boost_pod_handler.go\<close>) forwards the events of
  boosts and pods to the manager and writes the status of the boosts. A check loop of the manager reverts the pods whose
  time is over, with a pool of goroutines. The global controller (\<^verbatim>\<open>globalboost_controller.go\<close>) keeps a
  child boost in every namespace that a \<^verbatim>\<open>GlobalStartupCPUBoost\<close> selects. \<^verbatim>\<open>cmd/main.go\<close> puts the parts together.

  \<^bold>\<open>The theories.\<close>
  \<^item> \<^verbatim>\<open>Go_Prelude\<close>: Go maps with nil, the order of map iterations, errors, machine integers, and the lemmas on
    lists and maps that the components share. \<^verbatim>\<open>Strconv\<close>: \<^verbatim>\<open>ParseBool\<close>, \<^verbatim>\<open>Atoi\<close> and printing of numbers.
  \<^item> \<^verbatim>\<open>K8s_Api\<close>: pods, containers, quantities and the API client. \<^verbatim>\<open>Boost_Types\<close>: the custom resources of \<^verbatim>\<open>api/v1alpha1\<close>.
  \<^item> \<^verbatim>\<open>Duration_Policies\<close>, \<^verbatim>\<open>Resource_Policies\<close>, \<^verbatim>\<open>Namespaced_Objects\<close>, \<^verbatim>\<open>Metrics\<close>, \<^verbatim>\<open>Boost_Pod\<close>, \<^verbatim>\<open>Startup_Boost\<close>:
    the files of \<^verbatim>\<open>internal/boost\<close> and \<^verbatim>\<open>internal/metrics\<close>, one theory each, with the interface that the
    callers rely on. Boosts and pods are shared by pointer in the code, so they live in a heap of references.
  \<^item> \<^verbatim>\<open>Boost_Manager\<close> has the operations of the manager, \<^verbatim>\<open>Manager_Invariant\<close> its step relation and the
    invariant, \<^verbatim>\<open>Manager_Operations\<close> what each operation does, \<^verbatim>\<open>Boost_Properties\<close> the properties of the
    policies, the collection and the statistics. \<^verbatim>\<open>Sample_Pods\<close> and \<^verbatim>\<open>Sample_Deps\<close> hold concrete objects for the witnesses.
  \<^item> \<^verbatim>\<open>Revert_Pipeline\<close>: \<^verbatim>\<open>Start\<close> and \<^verbatim>\<open>validateTimePolicyBoosts\<close>, with the goroutines and the bounded channels as
    the step relation \<open>pipe_step\<close>, which interleaves with the events of the controller in \<open>pipe_sys\<close>.
  \<^item> \<^verbatim>\<open>Pod_QoS\<close> (\<^verbatim>\<open>qos.go\<close>), \<^verbatim>\<open>Pod_Webhook\<close> (the admission handler), \<^verbatim>\<open>Validation_Webhooks\<close> (both validators).
  \<^item> \<^verbatim>\<open>Rfc3339\<close>, \<^verbatim>\<open>Json\<close>, \<^verbatim>\<open>Annotation_Json\<close>: what \<^verbatim>\<open>encoding/json\<close> and \<^verbatim>\<open>time\<close> do for the annotation.
  \<^item> \<^verbatim>\<open>Pod_Server\<close>: an API server with pods, updates, merge patches and the versions that informers may deliver.
    \<^verbatim>\<open>Pod_Lifecycle\<close>: the boost, the tracking and the revert of a pod on that server, and a second attempt after a failed one.
    \<^verbatim>\<open>Pod_Safety\<close>: the whole cluster as the step relation \<open>sys_step\<close>, with the webhook, the controller, the reverts of the
    manager and the changes of others, and what holds in all its states.
  \<^item> \<^verbatim>\<open>Go_Memory\<close>, \<^verbatim>\<open>Deep_Copy\<close>, \<^verbatim>\<open>Deep_Copy_Correct\<close>: a memory of addresses with pointers and slices, every function of
    \<^verbatim>\<open>zz_generated.deepcopy.go\<close> on it, and the proof that they copy deeply.
  \<^item> \<^verbatim>\<open>Boost_Controller\<close>, \<^verbatim>\<open>Global_Boost_Controller\<close>: the two controllers. \<^verbatim>\<open>Config\<close>, \<^verbatim>\<open>Feature_Gates\<close>: the configuration
    from the environment, the feature gates and the version of the cluster. \<^verbatim>\<open>Program_Start\<close>: the scheme, \<^verbatim>\<open>main\<close>, the
    set up of the controllers, the certificates and the readiness check.

  \<^bold>\<open>Conventions.\<close> A definition has the name of its Go function, with a prefix where several types have a method of
  that name. The value \<open>None\<close> of a function that returns an option is a panic, and in \<^verbatim>\<open>Program_Start\<close> an
  exit; Go errors are values of \<^typ>\<open>go_error\<close>. Maps are association lists, and every iteration over one takes an
  arbitrary order as an argument, \<open>rangeOrder\<close>, of which \<^const>\<open>go_order\<close> says only that it permutes
  the keys. The time is an argument, in nanoseconds. Logging is left out. Operations that the code runs under
  the mutex of the manager are single steps.

  \<^bold>\<open>Libraries.\<close> Code of other modules is a record of functions with a locale of laws, which state its
  documentation: \<open>quantity_laws\<close> (\<^verbatim>\<open>resource.Quantity\<close>, \<^verbatim>\<open>inf.Dec\<close>), \<open>client_laws\<close> (the client of the boosts),
  \<open>annotation_codec\<close>, \<open>boost_objects_laws\<close> and \<open>status_condition_laws\<close> (the status of a boost),
  \<open>boost_store\<close>, \<open>reliable_store\<close> and \<open>equality_laws\<close> (the global controller), \<open>pod_store\<close>, \<open>pod_json\<close>, \<open>pod_server\<close> and \<open>pod_history\<close>
  (the API server with pods, updates, merge patches and old versions), \<open>scheme_laws\<close> (the builder of schemes) and \<open>copy_laws\<close> (the deep copies of the Kubernetes types).
  The locale \<open>pod_system\<close> puts the laws of the server and of the annotation together and asks of a
  server that is patched that it does not refuse the first patch for a pod that it holds. Each is interpreted on an
  executable instance, so that the laws can hold together, and the witnesses run on these instances.

  \<^bold>\<open>What is shown.\<close>
  \<^item> Admission: the handler always answers and patches exactly the pods with a matching boost (\<open>admission\<close> below);
    the guaranteed class is kept and no pod rises to a higher class, and the computed class is the one of the Kubernetes rules; boosting and reverting are
    inverse; the annotation survives its JSON form. Percentage and fixed policies compute the documented amounts.
  \<^item> Manager: an inductive invariant over all sequences of operations, and the outcome of each operation on every branch.
  \<^item> Check loop: in every interleaving each expired pod is reverted once and each affected boost is reconciled
    once; the goroutines never deadlock and always come to an end. A pod is expired exactly when its
    time since scheduling reached the duration. The goroutines refine a sequential check, and a boost tracks
    afterwards what it tracked before but for the pods that were reverted. The argument \<open>0 < maxGoroutines\<close> is needed: it is 10 in the code.
  \<^item> Life of a pod: after a successful revert the server holds the pod with its original resources; after a
    failed one the boost still tracks it; no other pod of the server changes.
  \<^item> Life of a cluster: from the admission of a pod on, through all events, stale reads and failing calls, the pod on the server has
    its original resources or a note that restores them, and a revert that reports success has restored them. In
    the mode with patches this needs the assumption of \<open>pod_system\<close> above: \<open>second_attempt\<close> shows what goes wrong without it. A name of a pod
    is used once, and nobody else changes containers or the note.
  \<^item> Deep copies: the contract \<open>copyable\<close> says that a copy stands for the same value, leaves the memory as it was and is
    independent of the original. It holds for pointers, slices and structures of copyable
    parts, and so for every type of the API.
  \<^item> Controllers: every sequence of events keeps the invariant; the status converges; the global controller
    distributes its children to exactly the free selected namespaces, never touches the boosts of users and
    gives its finalizer up only when no child is left.
  \<^item> Validation, configuration, feature gates and start: which objects are accepted, what the
    environment gives, and what holds of a program that has started.
  \<^item> Defects of the code that the model shows: errors of the configuration that are dropped, a panic after an invalid
    selector, a child that is deleted after a transient error, a change of class by the removal
    of limits, a gauge that goes wrong, an orphan that is never removed, an annotation that cannot be
    read and makes a revert succeed without an effect on the resources, and a failed revert whose
    repetition, with patches, loses the original resources and, with updates, cannot succeed.

  \<^bold>\<open>Bounds.\<close> No definition uses fuel; loops are structural recursions over the lists they range over, and the
  goroutines are a relation with a proof that it is well founded. The integers of the policies and of the status keep
  their width (64 and 32 bits). Where a theorem excludes overflow it says so: a percentage below
  \<open>2 ^ 63 - 100\<close> and a duration that fits 64 bits of nanoseconds.

  \<^bold>\<open>Not modelled.\<close> The mocks of the tests, which are generated; logging; the parser of the metrics of the API server, the client set and the
  construction of the controller-runtime manager, which are parameters or options, and what they do after \<^verbatim>\<open>mgr.Start\<close>; the JSON form of a whole pod and
  merge patches, which are parameters with laws; the versions by which the server detects conflicting updates: an update may fail
  for any reason instead; the cache of the client of the global controller, whose reads see earlier writes here; data races on fields
  that the code accesses without the mutex; and the time a call takes.
\<close>

section \<open>From the manager to the admission of a pod\<close>

lemma registered_boost_name:
  "mgr_inv m \<Longrightarrow> GetRegularCPUBoost n ns m = Some r \<Longrightarrow> boostName (boostAt m r) = n"
  by (auto simp: mgr_inv_def regular_inv_def GetRegularCPUBoost_def)

text \<open>
  C1. The admission of a pod, from the request to the response. For a pod whose containers have distinct
  ASCII names the handler always answers. When no boost that is registered in the namespace matches, it
  allows the pod as it is. Otherwise it answers with a patch to a pod that one of the matching boosts of the
  namespace was applied to: the pod is guaranteed exactly when it was and in no higher class than
  before, and it is the requested pod itself, or it carries the name of that boost and the revert gives its resources back.
\<close>

theorem admission:
  assumes "quantity_laws (dQ D) val dval" and "annotation_codec (dJ D)" and "go_order (rangeOrder rt)"
    and "rfc3339_time (timeNow rt)" and "mgr_inv m" and "decode req = Inr pod"
    and "distinct (map ctrName (podContainers pod))" and "\<forall>c \<in> set (podContainers pod). ascii_string (ctrName c)"
  shows "if \<exists>n r. GetRegularCPUBoost n (podNamespace pod) m = Some r \<and> Matches (boostAt m r) pod
    then \<exists>n r pod'. GetRegularCPUBoost n (podNamespace pod) m = Some r \<and> Matches (boostAt m r) pod \<and>
      Handle D rt decode raw h req m = Some (case MarshalPod (dJ D) pod' of
          Inl err \<Rightarrow> Errored StatusInternalServerError err
        | Inr marshaledPod \<Rightarrow> PatchResponseFromRaw (raw req) marshaledPod) \<and>
      (computePodQOS (dQ D) (rangeOrder rt) pod' (podLevelResourcesEnabled h) = Guaranteed) =
        (computePodQOS (dQ D) (rangeOrder rt) pod (podLevelResourcesEnabled h) = Guaranteed) \<and>
      computePodQOS (dQ D) (rangeOrder rt) pod' (podLevelResourcesEnabled h) \<le>
        computePodQOS (dQ D) (rangeOrder rt) pod (podLevelResourcesEnabled h) \<and>
      (pod' = pod \<or> (\<exists>pod''. map_get (podLabels pod') BoostLabelKey = Some n \<and>
         RevertResourceBoost (dQ D) (dJ D) pod' = Some (pod'', None) \<and> reverts_to val pod pod''))
    else Handle D rt decode raw h req m = Some (Allowed ''no boost matched'')"
proof (cases "GetCPUBoostForPod rt pod m")
  case None
  with GetCPUBoostForPod_spec [OF assms(3), of pod m] show ?thesis by (auto simp: Handle_def assms(6))
next
  case (Some r)
  then obtain n where r: "Matches (boostAt m r) pod" "GetRegularCPUBoost n (podNamespace pod) m = Some r"
    using GetCPUBoostForPod_spec [OF assms(3), of pod m] by auto
  obtain pod' where b: "boostContainerResources (dQ D) (dJ D) rt h (boostAt m r) pod = Some pod'"
    and rev: "pod' = pod \<or> (\<exists>pod''. map_get (podLabels pod') BoostLabelKey = Some (boostName (boostAt m r)) \<and>
       RevertResourceBoost (dQ D) (dJ D) pod' = Some (pod'', None) \<and> reverts_to val pod pod'')"
    using boosting.boost_then_revert [OF boosting.intro [OF assms(1,2)] assms(7,8,4)] by blast
  have "Handle D rt decode raw h req m = Some (case MarshalPod (dJ D) pod' of
      Inl err \<Rightarrow> Errored StatusInternalServerError err
    | Inr marshaledPod \<Rightarrow> PatchResponseFromRaw (raw req) marshaledPod)"
    by (simp add: Handle_def assms(6) Some b split: sum.splits)
  with boostContainerResources_qos [OF assms(1,3) b] rev r show ?thesis
    unfolding registered_boost_name [OF assms(5) r(2)] by auto
qed

theorem admission_witness:
  "\<exists>pod'. Handle (sample_deps\<lparr>dJ := go_json\<rparr>) sample_rt Inr (\<lambda>_. '''')
       \<lparr>removeLimits = True, podLevelResourcesEnabled = False\<rparr> sample_pod sample_mgr =
     Some (case MarshalPod go_json pod' of
        Inl err \<Rightarrow> Errored StatusInternalServerError err
      | Inr marshaledPod \<Rightarrow> PatchResponseFromRaw '''' marshaledPod) \<and>
     (pod' = sample_pod \<or> (\<exists>n pod''. map_get (podLabels pod') BoostLabelKey = Some n \<and>
        RevertResourceBoost nano_quantity go_json pod' = Some (pod'', None) \<and> reverts_to nano_val sample_pod pod''))"
proof -
  let ?D = "sample_deps\<lparr>dJ := go_json\<rparr>"
  have "quantity_laws (dQ ?D) nano_val dec_val" "annotation_codec (dJ ?D)"
    using nano.quantity_laws_axioms gj.annotation_codec_axioms by (simp_all add: sample_deps_def)
  moreover have "rfc3339_time (timeNow sample_rt)" by (simp add: rfc3339_time_def sample_rt_def)
  moreover have "distinct (map ctrName (podContainers sample_pod))"
    "\<forall>c \<in> set (podContainers sample_pod). ascii_string (ctrName c)"
    by (simp_all add: sample_pod_def sample_container_def ascii_string_def)
  moreover have "\<exists>n r. GetRegularCPUBoost n (podNamespace sample_pod) sample_mgr = Some r \<and> Matches (boostAt sample_mgr r) sample_pod"
    using GetCPUBoostForPod_spec [OF sample_order, of sample_pod sample_mgr] sample_matching
    by (auto simp: GetCPUBoostForPod_def)
  ultimately show ?thesis
    using admission [of ?D nano_val dec_val sample_rt sample_mgr Inr sample_pod sample_pod "\<lambda>_. ''''"
        "\<lparr>removeLimits = True, podLevelResourcesEnabled = False\<rparr>"] sample_order sample_mgr_inv
    by (auto simp: sample_deps_def)
qed

end
